(* ===== verification/Prelude.thy ===== *)
theory Prelude
  imports Main "HOL-Library.Sublist" "HOL-Library.Char_ord" "HOL-Library.List_Lexorder"
begin

text \<open>
  Shared ground of the development: the theorem collections, the generic lemmas on lists,
  association of search results with sorted lists, and the names of the basic types.

  Go values are represented as follows. A Go \<open>string\<close> or \<open>[]byte\<close> is a list of bytes, that is
  \<^typ>\<open>string\<close>; the order of \<^theory_text>\<open>List_Lexorder\<close> over \<^theory_text>\<open>Char_ord\<close> is Go's byte-wise
  string order. A \<open>time.Time\<close> is the number of nanoseconds since Go's zero time
  (0001-01-01T00:00:00Z), so \<open>IsZero\<close> is equality with \<open>0\<close>; a nil pointer is \<^const>\<open>None\<close>.
  An error result is \<^const>\<open>Inl\<close>, a value is \<^const>\<open>Inr\<close>.
\<close>

named_theorems go_string_simps "equations of the modelled Go string functions"
named_theorems path_simps "facts about splitting, joining and matching of slash paths"
named_theorems store_simps "facts about the record store"

type_synonym gotime = int

definition IsZero :: "gotime \<Rightarrow> bool" where
  "IsZero t \<longleftrightarrow> t = 0"

text \<open>Seconds between Go's zero time and the Unix epoch.\<close>

definition unix_offset :: int where
  "unix_offset = 62135596800"

definition Unix :: "gotime \<Rightarrow> int" where
  "Unix t = t div 1000000000 - unix_offset"

definition of_Unix :: "int \<Rightarrow> gotime" where
  "of_Unix s = (s + unix_offset) * 1000000000"

lemma Unix_of_Unix [simp]: "Unix (of_Unix s) = s"
  by (simp add: Unix_def of_Unix_def)

lemma Unix_mono: "s \<le> t \<Longrightarrow> Unix s \<le> Unix t"
  by (simp add: Unix_def zdiv_mono1)

lemma Unix_less_iff: "Unix t < s \<longleftrightarrow> t < of_Unix s"
  by (simp add: Unix_def of_Unix_def) linarith

subsection \<open>Results\<close>

text \<open>Sequencing of fallible steps: the first error is the result.\<close>

fun bind_result :: "'e + 'a \<Rightarrow> ('a \<Rightarrow> 'e + 'b) \<Rightarrow> 'e + 'b" where
  "bind_result (Inl e) f = Inl e"
| "bind_result (Inr x) f = f x"

lemma bind_result_Inr_iff [simp]:
  "bind_result r f = Inr y \<longleftrightarrow> (\<exists>x. r = Inr x \<and> f x = Inr y)"
  by (cases r) auto

subsection \<open>Lists\<close>

lemma list_all2_nth_prefix:
  assumes "list_all2 P xs ys" and "i < length xs"
  shows "P (xs ! i) (ys ! i)"
  using assms by (simp add: list_all2_conv_all_nth)

lemma distinct_sorted_eqI:
  fixes xs ys :: "'a::linorder list"
  assumes "sorted xs" "sorted ys" "distinct xs" "distinct ys" "set xs = set ys"
  shows "xs = ys"
  by (rule sorted_distinct_set_unique) (use assms in auto)

text \<open>\<open>sort.Strings\<close> over the keys of a Go map: the keys in increasing order, each once.\<close>

definition sorted_keys :: "'a::linorder list \<Rightarrow> 'a list" where
  "sorted_keys xs = sort (remdups xs)"

lemma sorted_keys_props [simp]:
  "sorted (sorted_keys xs)" "distinct (sorted_keys xs)" "set (sorted_keys xs) = set xs"
  by (simp_all add: sorted_keys_def)

lemma sorted_keys_cong: "set xs = set ys \<Longrightarrow> sorted_keys xs = sorted_keys ys"
  by (intro distinct_sorted_eqI) simp_all

lemma sorted_keys_Nil_iff [simp]: "sorted_keys xs = [] \<longleftrightarrow> xs = []"
  by (metis set_empty sorted_keys_props(3))

subsection \<open>Binary search\<close>

text \<open>
  \<open>sort.Search(n, f)\<close> as the Go library writes it: the loop keeps \<open>f (i-1) = false\<close> and
  \<open>f j = true\<close> and halves the interval.
\<close>

function sort_search :: "nat \<Rightarrow> nat \<Rightarrow> (nat \<Rightarrow> bool) \<Rightarrow> nat" where
  "sort_search i j f =
     (if i < j
      then (let h = (i + j) div 2 in
            if f h then sort_search i h f else sort_search (Suc h) j f)
      else i)"
  by pat_completeness auto
termination
  by (relation "measure (\<lambda>(i, j, f). j - i)") auto

declare sort_search.simps [simp del]

definition Search :: "nat \<Rightarrow> (nat \<Rightarrow> bool) \<Rightarrow> nat" where
  "Search n f = sort_search 0 n f"

lemma sort_search_bounds: "i \<le> j \<Longrightarrow> i \<le> sort_search i j f \<and> sort_search i j f \<le> j"
proof (induction i j f rule: sort_search.induct)
  case (1 i j f)
  show ?case
  proof (cases "i < j")
    case True
    let ?h = "(i + j) div 2"
    have h: "i \<le> ?h" "?h < j" using True by auto
    show ?thesis
    proof (cases "f ?h")
      case fh: True
      from "1.IH"(1)[OF True refl fh h(1)] True fh h show ?thesis
        by (simp add: sort_search.simps [of i j] Let_def)
    next
      case fh: False
      from "1.IH"(2)[OF True refl fh Suc_leI [OF h(2)]] True fh h show ?thesis
        by (simp add: sort_search.simps [of i j] Let_def)
    qed
  next
    case False
    then have "sort_search i j f = i" by (simp add: sort_search.simps [of i j])
    with "1.prems" show ?thesis by simp
  qed
qed

text \<open>
  On a monotone predicate the search returns the border: everything before it fails the
  predicate and everything from it on satisfies it.
\<close>

lemma sort_search_border:
  assumes "\<And>a b. \<lbrakk>a \<le> b; b < n; f a\<rbrakk> \<Longrightarrow> f b"
    and "i \<le> j" and "j \<le> n" and "\<forall>k<i. \<not> f k" and "\<forall>k\<in>{j..<n}. f k"
  shows "(\<forall>k < sort_search i j f. \<not> f k) \<and> (\<forall>k\<in>{sort_search i j f..<n}. f k)"
  using assms
proof (induction i j f rule: sort_search.induct)
  case (1 i j f)
  show ?case
  proof (cases "i < j")
    case True
    let ?h = "(i + j) div 2"
    have h: "i \<le> ?h" "?h < j" "?h \<le> n" "?h < n" using True "1.prems"(3) by auto
    show ?thesis
    proof (cases "f ?h")
      case fh: True
      have above: "\<forall>k\<in>{?h..<n}. f k"
        using "1.prems"(1)[of ?h] fh by (meson atLeastLessThan_iff)
      from "1.IH"(1)[OF True refl fh "1.prems"(1) h(1,3) "1.prems"(4) above] True fh
      show ?thesis by (simp add: sort_search.simps [of i j] Let_def)
    next
      case fh: False
      have below: "\<forall>k < Suc ?h. \<not> f k"
        using "1.prems"(1)[of _ ?h] fh h(4) less_Suc_eq_le by blast
      from "1.IH"(2)[OF True refl fh "1.prems"(1) Suc_leI [OF h(2)] "1.prems"(3) below "1.prems"(5)] True fh
      show ?thesis by (simp add: sort_search.simps [of i j] Let_def)
    qed
  next
    case False
    then have "sort_search i j f = i" by (simp add: sort_search.simps [of i j])
    with False "1.prems"(2,4,5) show ?thesis by simp
  qed
qed

lemma Search_le: "Search n f \<le> n"
  using sort_search_bounds [of 0 n f] by (simp add: Search_def)

lemma Search_border:
  assumes "\<And>a b. \<lbrakk>a \<le> b; b < n; f a\<rbrakk> \<Longrightarrow> f b"
  shows "k < Search n f \<Longrightarrow> \<not> f k" and "Search n f \<le> k \<Longrightarrow> k < n \<Longrightarrow> f k"
proof -
  have "(\<forall>k < sort_search 0 n f. \<not> f k) \<and> (\<forall>k\<in>{sort_search 0 n f..<n}. f k)"
    by (rule sort_search_border [OF assms]) simp_all
  then show "k < Search n f \<Longrightarrow> \<not> f k" and "Search n f \<le> k \<Longrightarrow> k < n \<Longrightarrow> f k"
    by (simp_all add: Search_def)
qed

subsection \<open>Keeping the best of a list\<close>

text \<open>
  Several loops keep the entries with the highest score seen so far, starting from the score
  \<open>-1\<close>. What they keep is the set of entries that no other entry beats.
\<close>

definition best_step :: "('a \<Rightarrow> int option) \<Rightarrow> int \<times> 'a list \<Rightarrow> 'a \<Rightarrow> int \<times> 'a list" where
  "best_step score st x =
     (case score x of
        None \<Rightarrow> st
      | Some s \<Rightarrow>
          if fst st < s then (s, [x])
          else if s = fst st then (fst st, snd st @ [x])
          else st)"

abbreviation best_of :: "('a \<Rightarrow> int option) \<Rightarrow> 'a list \<Rightarrow> int \<times> 'a list" where
  "best_of score xs \<equiv> foldl (best_step score) (-1, []) xs"

definition unbeaten :: "('a \<Rightarrow> int option) \<Rightarrow> 'a set \<Rightarrow> 'a set" where
  "unbeaten score X = {x \<in> X. \<exists>s. score x = Some s \<and> (\<forall>y\<in>X. \<forall>t. score y = Some t \<longrightarrow> t \<le> s)}"

definition best_inv :: "('a \<Rightarrow> int option) \<Rightarrow> 'a list \<Rightarrow> int \<times> 'a list \<Rightarrow> bool" where
  "best_inv score xs st \<longleftrightarrow>
     (\<forall>x\<in>set xs. \<forall>t. score x = Some t \<longrightarrow> t \<le> fst st)
     \<and> set (snd st) = {x \<in> set xs. score x = Some (fst st)}
     \<and> (snd st = [] \<longrightarrow> fst st = -1)"

lemma best_inv_step:
  assumes inv: "best_inv score xs st"
  shows "best_inv score (xs @ [x]) (best_step score st x)"
proof (cases "score x")
  case None
  with inv show ?thesis by (auto simp: best_inv_def best_step_def)
next
  case (Some s)
  consider "fst st < s" | "s = fst st" | "s < fst st" by linarith
  then show ?thesis
    by cases (use inv Some in \<open>force simp: best_inv_def best_step_def\<close>)+
qed

lemma best_inv_best_of: "best_inv score xs (best_of score xs)"
proof (induction xs rule: rev_induct)
  case Nil
  show ?case by (simp add: best_inv_def)
next
  case (snoc x xs)
  from best_inv_step [OF snoc.IH, of x] show ?case by simp
qed

lemma set_best_of:
  assumes nonneg: "\<And>x s. score x = Some s \<Longrightarrow> 0 \<le> s"
  shows "set (snd (best_of score xs)) = unbeaten score (set xs)"
proof -
  let ?b = "best_of score xs"
  have inv: "best_inv score xs ?b" by (rule best_inv_best_of)
  show ?thesis
  proof (intro equalityI subsetI)
    fix x assume "x \<in> set (snd ?b)"
    with inv show "x \<in> unbeaten score (set xs)" by (auto simp: best_inv_def unbeaten_def)
  next
    fix x assume "x \<in> unbeaten score (set xs)"
    then obtain s where x: "x \<in> set xs" "score x = Some s" "\<And>y t. y \<in> set xs \<Longrightarrow> score y = Some t \<Longrightarrow> t \<le> s"
      by (auto simp: unbeaten_def)
    have "s \<le> fst ?b" using inv x(1,2) by (auto simp: best_inv_def)
    then have "snd ?b \<noteq> []" using nonneg [OF x(2)] inv by (auto simp: best_inv_def)
    then obtain y where "y \<in> set (snd ?b)" by (meson list.set_sel(1))
    then have "fst ?b \<le> s" using inv x(3) by (auto simp: best_inv_def)
    with \<open>s \<le> fst ?b\<close> x inv show "x \<in> set (snd ?b)" by (auto simp: best_inv_def)
  qed
qed

lemma unbeaten_empty_iff:
  assumes "finite X"
  shows "unbeaten score X = {} \<longleftrightarrow> (\<forall>x\<in>X. score x = None)"
proof
  assume empty: "unbeaten score X = {}"
  show "\<forall>x\<in>X. score x = None"
  proof (rule ccontr)
    assume "\<not> ?thesis"
    then obtain x s where xs: "x \<in> X" "score x = Some s" by auto
    let ?T = "(\<lambda>x. the (score x)) ` {x \<in> X. score x \<noteq> None}"
    have fin: "finite ?T" and "?T \<noteq> {}" using assms xs by auto
    then have "Max ?T \<in> ?T" by (rule Max_in)
    then obtain m where m: "m \<in> X" "score m = Some (Max ?T)" by force
    have "t \<le> Max ?T" if "y \<in> X" "score y = Some t" for y t
      using that by (intro Max_ge [OF fin]) force
    with m have "m \<in> unbeaten score X" by (auto simp: unbeaten_def)
    with empty show False by simp
  qed
qed (auto simp: unbeaten_def)

end
