(* ===== verification/Go_Strings.thy ===== *)
theory Go_Strings
  imports Prelude
begin

text \<open>
  The part of Go's \<open>strings\<close>, \<open>unicode/utf8\<close>, \<open>path\<close> and \<open>fmt\<close> packages that the program uses,
  over byte strings. UTF-8 decoding is written out, with Go's rule that an invalid byte is read
  as U+FFFD of width one. The Unicode case and category tables are data of the Go release and
  not of the program: they are the fields of \<open>unicode_tables\<close>, consulted above ASCII only,
  and every definition that depends on them takes them as an argument.
\<close>

subsection \<open>Bytes\<close>

definition byte :: "char \<Rightarrow> int" where
  "byte c = of_char c"

lemma byte_less [simp]: "byte c < 256" and byte_nonneg [simp]: "0 \<le> byte c"
proof -
  have m: "byte c = byte c mod 256" by (simp add: byte_def)
  show "byte c < 256" by (subst m) simp
  show "0 \<le> byte c" by (subst m) simp
qed

lemma byte_inject [simp]: "byte c = byte d \<longleftrightarrow> c = d"
  by (simp add: byte_def)

definition of_byte :: "int \<Rightarrow> char" where
  "of_byte n = char_of n"

lemma of_byte_byte [simp]: "of_byte (byte c) = c"
  by (simp add: of_byte_def byte_def)

lemma byte_of_byte: "byte (of_byte n) = n mod 256"
  by (simp add: of_byte_def byte_def)

definition ascii :: "char \<Rightarrow> bool" where
  "ascii c \<longleftrightarrow> byte c < 128"

subsection \<open>UTF-8\<close>

definition RuneError :: int where
  "RuneError = 65533"

definition cont_byte :: "char \<Rightarrow> bool" where
  "cont_byte c \<longleftrightarrow> 128 \<le> byte c \<and> byte c \<le> 191"

text \<open>
  \<open>utf8.DecodeRuneInString\<close> on a non-empty string: the code point and its width, or
  \<^const>\<open>None\<close> for an encoding error (which Go reports as U+FFFD of width 1). The ranges of the second byte
  exclude overlong forms, surrogates and values above U+10FFFF.
\<close>

fun decode_rune :: "string \<Rightarrow> (int \<times> nat) option" where
  "decode_rune [] = None"
| "decode_rune (c0 # cs) =
     (let b0 = byte c0 in
      if b0 < 128 then Some (b0, 1)
      else if 194 \<le> b0 \<and> b0 \<le> 223 then
        (case cs of c1 # _ \<Rightarrow>
           if cont_byte c1 then Some ((b0 - 192) * 64 + (byte c1 - 128), 2) else None
         | _ \<Rightarrow> None)
      else if 224 \<le> b0 \<and> b0 \<le> 239 then
        (case cs of c1 # c2 # _ \<Rightarrow>
           if (if b0 = 224 then 160 else 128) \<le> byte c1 \<and> byte c1 \<le> (if b0 = 237 then 159 else 191)
              \<and> cont_byte c2
           then Some ((b0 - 224) * 4096 + (byte c1 - 128) * 64 + (byte c2 - 128), 3) else None
         | _ \<Rightarrow> None)
      else if 240 \<le> b0 \<and> b0 \<le> 244 then
        (case cs of c1 # c2 # c3 # _ \<Rightarrow>
           if (if b0 = 240 then 144 else 128) \<le> byte c1 \<and> byte c1 \<le> (if b0 = 244 then 143 else 191)
              \<and> cont_byte c2 \<and> cont_byte c3
           then Some ((b0 - 240) * 262144 + (byte c1 - 128) * 4096 + (byte c2 - 128) * 64 + (byte c3 - 128), 4)
           else None
         | _ \<Rightarrow> None)
      else None)"

text \<open>The width is at least one and never runs past the end of the string.\<close>

lemma decode_rune_width: "decode_rune s = Some (r, n) \<Longrightarrow> 0 < n \<and> n \<le> length s"
  by (cases s) (auto simp: Let_def split: if_splits list.splits)

declare decode_rune.simps(2) [simp del]

text \<open>The code points that \<open>for _, r := range s\<close> visits.\<close>

function runes :: "string \<Rightarrow> int list" where
  "runes [] = []"
| "runes (c # cs) =
     (case decode_rune (c # cs) of
        None \<Rightarrow> RuneError # runes cs
      | Some (r, n) \<Rightarrow> r # runes (drop (n - 1) cs))"
  by pat_completeness auto
termination
  by (relation "measure length") auto

text \<open>\<open>utf8.ValidString\<close>.\<close>

function valid_utf8 :: "string \<Rightarrow> bool" where
  "valid_utf8 [] = True"
| "valid_utf8 (c # cs) =
     (case decode_rune (c # cs) of
        None \<Rightarrow> False
      | Some (r, n) \<Rightarrow> valid_utf8 (drop (n - 1) cs))"
  by pat_completeness auto
termination
  by (relation "measure length") auto

text \<open>\<open>utf8.AppendRune\<close>: surrogates and values out of range are written as U+FFFD.\<close>

definition encode_rune :: "int \<Rightarrow> string" where
  "encode_rune r0 =
     (let r = (if 55296 \<le> r0 \<and> r0 \<le> 57343 \<or> 1114111 < r0 then RuneError else r0) in
      if r < 128 then [of_byte r]
      else if r < 2048 then [of_byte (192 + r div 64), of_byte (128 + r mod 64)]
      else if r < 65536 then
        [of_byte (224 + r div 4096), of_byte (128 + r div 64 mod 64), of_byte (128 + r mod 64)]
      else [of_byte (240 + r div 262144), of_byte (128 + r div 4096 mod 64),
            of_byte (128 + r div 64 mod 64), of_byte (128 + r mod 64)])"

lemma decode_rune_ascii [simp]: "ascii c \<Longrightarrow> decode_rune (c # cs) = Some (byte c, 1)"
  by (simp add: ascii_def decode_rune.simps)

lemma runes_ascii: "list_all ascii s \<Longrightarrow> runes s = map byte s"
  by (induction s) auto

lemma valid_utf8_ascii: "list_all ascii s \<Longrightarrow> valid_utf8 s"
  by (induction s) auto

subsection \<open>Case mapping\<close>

record unicode_tables =
  uc_lower :: "int \<Rightarrow> int"   \<comment> \<open>\<open>unicode.ToLower\<close> above ASCII\<close>
  uc_letter :: "int \<Rightarrow> bool" \<comment> \<open>\<open>unicode.IsLetter\<close> above ASCII\<close>
  uc_digit :: "int \<Rightarrow> bool"  \<comment> \<open>\<open>unicode.IsDigit\<close> above ASCII\<close>

text \<open>Tables with nothing above ASCII, for concrete evaluations.\<close>

definition ascii_tables :: unicode_tables where
  "ascii_tables = \<lparr>uc_lower = (\<lambda>r. r), uc_letter = (\<lambda>_. False), uc_digit = (\<lambda>_. False)\<rparr>"

definition lower_rune :: "unicode_tables \<Rightarrow> int \<Rightarrow> int" where
  "lower_rune U r = (if r < 128 then (if 65 \<le> r \<and> r \<le> 90 then r + 32 else r) else uc_lower U r)"

definition is_letter :: "unicode_tables \<Rightarrow> int \<Rightarrow> bool" where
  "is_letter U r =
     (if r < 128 then 65 \<le> r \<and> r \<le> 90 \<or> 97 \<le> r \<and> r \<le> 122 else uc_letter U r)"

definition is_digit :: "unicode_tables \<Rightarrow> int \<Rightarrow> bool" where
  "is_digit U r = (if r < 128 then 48 \<le> r \<and> r \<le> 57 else uc_digit U r)"

definition ascii_lower :: "char \<Rightarrow> char" where
  "ascii_lower c = (if 65 \<le> byte c \<and> byte c \<le> 90 then of_byte (byte c + 32) else c)"

text \<open>
  \<open>strings.ToLower\<close>: an ASCII string is lowered byte by byte; otherwise every code point is
  mapped and re-encoded, so that an invalid byte becomes the three bytes of U+FFFD.
\<close>

definition ToLower :: "unicode_tables \<Rightarrow> string \<Rightarrow> string" where
  "ToLower U s =
     (if list_all ascii s then map ascii_lower s
      else concat (map (\<lambda>r. encode_rune (lower_rune U r)) (runes s)))"

lemma ascii_lower_idem [simp]: "ascii_lower (ascii_lower c) = ascii_lower c"
  by (auto simp: ascii_lower_def byte_of_byte)

lemma ascii_ascii_lower [simp]: "ascii (ascii_lower c) = ascii c"
  by (auto simp: ascii_lower_def byte_of_byte ascii_def)

lemma ToLower_ascii_idem: "list_all ascii s \<Longrightarrow> ToLower U (ToLower U s) = ToLower U s"
  by (simp add: ToLower_def list_all_iff)

subsection \<open>Trimming\<close>

text \<open>The code points that \<open>unicode.IsSpace\<close> accepts, and their UTF-8 encodings.\<close>

definition space_runes :: "int list" where
  "space_runes = [9, 10, 11, 12, 13, 32, 133, 160, 5760, 8192, 8193, 8194, 8195, 8196, 8197,
     8198, 8199, 8200, 8201, 8202, 8232, 8233, 8239, 8287, 12288]"

definition space_seqs :: "string list" where
  "space_seqs = [[CHR 0x09], [CHR 0x0A], [CHR 0x0B], [CHR 0x0C], [CHR 0x0D], [CHR 0x20],
     [CHR 0xC2, CHR 0x85], [CHR 0xC2, CHR 0xA0], [CHR 0xE1, CHR 0x9A, CHR 0x80],
     [CHR 0xE2, CHR 0x80, CHR 0x80], [CHR 0xE2, CHR 0x80, CHR 0x81], [CHR 0xE2, CHR 0x80, CHR 0x82],
     [CHR 0xE2, CHR 0x80, CHR 0x83], [CHR 0xE2, CHR 0x80, CHR 0x84], [CHR 0xE2, CHR 0x80, CHR 0x85],
     [CHR 0xE2, CHR 0x80, CHR 0x86], [CHR 0xE2, CHR 0x80, CHR 0x87], [CHR 0xE2, CHR 0x80, CHR 0x88],
     [CHR 0xE2, CHR 0x80, CHR 0x89], [CHR 0xE2, CHR 0x80, CHR 0x8A], [CHR 0xE2, CHR 0x80, CHR 0xA8],
     [CHR 0xE2, CHR 0x80, CHR 0xA9], [CHR 0xE2, CHR 0x80, CHR 0xAF], [CHR 0xE2, CHR 0x81, CHR 0x9F],
     [CHR 0xE3, CHR 0x80, CHR 0x80]]"

lemma space_seqs_encode: "space_seqs = map encode_rune space_runes"
  by code_simp

lemma encode_rune_nonempty: "encode_rune r \<noteq> []"
  by (simp add: encode_rune_def Let_def)

lemma space_seqs_nonempty: "p \<in> set space_seqs \<Longrightarrow> p \<noteq> []"
  by (auto simp: space_seqs_encode encode_rune_nonempty)

function trim_left_space :: "string \<Rightarrow> string" where
  "trim_left_space s =
     (case find (\<lambda>p. prefix p s) space_seqs of
        None \<Rightarrow> s
      | Some p \<Rightarrow> trim_left_space (drop (length p) s))"
  by pat_completeness auto
termination
proof (relation "measure length")
  show "wf (measure length)" by simp
next
  fix s :: string and p
  assume "find (\<lambda>p. prefix p s) space_seqs = Some p"
  then have "prefix p s" "p \<noteq> []"
    by (auto simp: find_Some_iff dest!: space_seqs_nonempty [OF nth_mem])
  then show "(drop (length p) s, s) \<in> measure length"
    by (auto dest: prefix_length_le simp: prefix_def)
qed

function trim_right_space :: "string \<Rightarrow> string" where
  "trim_right_space s =
     (case find (\<lambda>p. suffix p s) space_seqs of
        None \<Rightarrow> s
      | Some p \<Rightarrow> trim_right_space (take (length s - length p) s))"
  by pat_completeness auto
termination
proof (relation "measure length")
  show "wf (measure length)" by simp
next
  fix s :: string and p
  assume "find (\<lambda>p. suffix p s) space_seqs = Some p"
  then have "suffix p s" "p \<noteq> []"
    by (auto simp: find_Some_iff dest!: space_seqs_nonempty [OF nth_mem])
  then show "(take (length s - length p) s, s) \<in> measure length"
    by (auto dest: suffix_length_le simp: suffix_def)
qed

declare trim_left_space.simps [simp del] trim_right_space.simps [simp del]

text \<open>A byte that begins, or ends, the encoding of a white-space code point.\<close>

definition space_byte :: "char \<Rightarrow> bool" where
  "space_byte c \<longleftrightarrow> c \<in> set (map hd space_seqs) \<union> set (map last space_seqs)"

lemma trim_left_space_fixed: "s = [] \<or> \<not> space_byte (hd s) \<Longrightarrow> trim_left_space s = s"
proof -
  assume h: "s = [] \<or> \<not> space_byte (hd s)"
  have "\<not> prefix p s" if "p \<in> set space_seqs" for p
    using h that space_seqs_nonempty [OF that] by (cases p) (auto simp: space_byte_def prefix_def image_iff)
  then have "find (\<lambda>p. prefix p s) space_seqs = None"
    by (simp add: find_None_iff)
  then show ?thesis by (simp add: trim_left_space.simps [of s])
qed

lemma trim_right_space_fixed: "s = [] \<or> \<not> space_byte (last s) \<Longrightarrow> trim_right_space s = s"
proof -
  assume h: "s = [] \<or> \<not> space_byte (last s)"
  have "\<not> suffix p s" if "p \<in> set space_seqs" for p
    using h that space_seqs_nonempty [OF that]
    by (cases p rule: rev_cases) (auto simp: space_byte_def suffix_def image_iff)
  then have "find (\<lambda>p. suffix p s) space_seqs = None"
    by (simp add: find_None_iff)
  then show ?thesis by (simp add: trim_right_space.simps [of s])
qed

text \<open>\<open>strings.TrimSpace\<close>.\<close>

definition TrimSpace :: "string \<Rightarrow> string" where
  "TrimSpace s = trim_right_space (trim_left_space s)"

lemma TrimSpace_fixed:
  "s = [] \<or> \<not> space_byte (hd s) \<and> \<not> space_byte (last s) \<Longrightarrow> TrimSpace s = s"
  by (auto simp: TrimSpace_def trim_left_space_fixed trim_right_space_fixed)

text \<open>A blank at the end is trimmed.\<close>

lemma space_seq_blank: "p \<in> set space_seqs \<Longrightarrow> last p = CHR 0x20 \<Longrightarrow> p = [CHR 0x20]"
  by (auto simp: space_seqs_def)

lemma trim_left_space_snoc: "trim_left_space (s @ '' '') = (if trim_left_space s = [] then [] else trim_left_space s @ '' '')"
proof (induction s rule: trim_left_space.induct)
  case (1 s)
  show ?case
  proof (cases "s = []")
    case True
    have "trim_left_space '' '' = []" by code_simp
    moreover have "trim_left_space [] = []" by code_simp
    ultimately show ?thesis using True by simp
  next
    case False
    have "prefix p (s @ '' '') \<longleftrightarrow> prefix p s" if "p \<in> set space_seqs" for p
      using space_seq_blank [OF that] False by auto
    then have f: "find (\<lambda>p. prefix p (s @ '' '')) space_seqs = find (\<lambda>p. prefix p s) space_seqs"
      by (intro find_cong) auto
    show ?thesis
    proof (cases "find (\<lambda>p. prefix p s) space_seqs")
      case None
      then show ?thesis using f False by (simp add: trim_left_space.simps [of s] trim_left_space.simps [of "s @ '' ''"])
    next
      case (Some p)
      then have "prefix p s" by (auto simp: find_Some_iff)
      then have "drop (length p) (s @ '' '') = drop (length p) s @ '' ''" by (auto dest: prefix_length_le)
      then show ?thesis using f Some 1 [OF Some] by (simp add: trim_left_space.simps [of s] trim_left_space.simps [of "s @ '' ''"])
    qed
  qed
qed

lemma trim_right_space_snoc: "trim_right_space (s @ '' '') = trim_right_space s"
proof -
  have "suffix p (s @ '' '') \<longleftrightarrow> p = '' ''" if "p \<in> set space_seqs" for p
    using space_seq_blank [OF that] space_seqs_nonempty [OF that] by (cases p rule: rev_cases) (auto simp: suffix_def)
  then have "find (\<lambda>p. suffix p (s @ '' '')) space_seqs = find (\<lambda>p. p = '' '') space_seqs"
    by (intro find_cong) auto
  also have "\<dots> = Some '' ''" by (simp add: space_seqs_def)
  finally show ?thesis by (simp add: trim_right_space.simps [of "s @ '' ''"])
qed

lemma TrimSpace_snoc: "TrimSpace (s @ '' '') = TrimSpace s"
proof -
  have "trim_right_space [] = []" by code_simp
  then show ?thesis by (simp add: TrimSpace_def trim_left_space_snoc trim_right_space_snoc)
qed

text \<open>\<open>strings.Trim(s, "/")\<close> and its one-sided forms, for a single byte.\<close>

definition trim_left_byte :: "char \<Rightarrow> string \<Rightarrow> string" where
  "trim_left_byte c s = dropWhile (\<lambda>x. x = c) s"

definition trim_right_byte :: "char \<Rightarrow> string \<Rightarrow> string" where
  "trim_right_byte c s = rev (dropWhile (\<lambda>x. x = c) (rev s))"

definition trim_byte :: "char \<Rightarrow> string \<Rightarrow> string" where
  "trim_byte c s = trim_right_byte c (trim_left_byte c s)"

abbreviation slash :: char where "slash \<equiv> CHR ''/''"

lemma trim_left_byte_fixed: "s = [] \<or> hd s \<noteq> c \<Longrightarrow> trim_left_byte c s = s"
  by (cases s) (auto simp: trim_left_byte_def)

lemma trim_right_byte_fixed: "s = [] \<or> last s \<noteq> c \<Longrightarrow> trim_right_byte c s = s"
  by (cases s rule: rev_cases) (auto simp: trim_right_byte_def)

lemma trim_right_byte_last: "trim_right_byte c s = [] \<or> last (trim_right_byte c s) \<noteq> c"
  using hd_dropWhile [of "\<lambda>x. x = c" "rev s"] by (auto simp: trim_right_byte_def last_rev)

lemma trim_left_byte_hd: "trim_left_byte c s = [] \<or> hd (trim_left_byte c s) \<noteq> c"
  using hd_dropWhile [of "\<lambda>x. x = c" s] by (auto simp: trim_left_byte_def)

lemma trim_right_byte_prefix: "prefix (trim_right_byte c s) s"
  unfolding trim_right_byte_def
  by (metis rev_rev_ident suffix_dropWhile suffix_to_prefix)

lemma trim_byte_hd: "trim_byte c s = [] \<or> hd (trim_byte c s) \<noteq> c"
proof -
  let ?t = "trim_left_byte c s"
  have "prefix (trim_byte c s) ?t" by (simp add: trim_byte_def trim_right_byte_prefix)
  then have "trim_byte c s = [] \<or> hd (trim_byte c s) = hd ?t \<and> ?t \<noteq> []"
    by (auto simp: prefix_def hd_append)
  with trim_left_byte_hd [of c s] show ?thesis by auto
qed

lemma trim_byte_last: "trim_byte c s = [] \<or> last (trim_byte c s) \<noteq> c"
  by (simp add: trim_byte_def trim_right_byte_last)

lemma trim_byte_fixed:
  "s = [] \<or> hd s \<noteq> c \<and> last s \<noteq> c \<Longrightarrow> trim_byte c s = s"
  by (auto simp: trim_byte_def trim_left_byte_fixed trim_right_byte_fixed)

lemma trim_byte_idem [simp]: "trim_byte c (trim_byte c s) = trim_byte c s"
  using trim_byte_fixed trim_byte_hd trim_byte_last by metis

subsection \<open>Splitting and joining\<close>

text \<open>\<open>strings.Split(s, sep)\<close> for a one-byte separator.\<close>

fun split_byte :: "char \<Rightarrow> string \<Rightarrow> string list" where
  "split_byte c [] = [[]]"
| "split_byte c (x # xs) =
     (if x = c then [] # split_byte c xs
      else (case split_byte c xs of [] \<Rightarrow> [[x]] | p # ps \<Rightarrow> (x # p) # ps))"

text \<open>\<open>strings.Join\<close> with a one-byte separator.\<close>

fun join_byte :: "char \<Rightarrow> string list \<Rightarrow> string" where
  "join_byte c [] = []"
| "join_byte c [p] = p"
| "join_byte c (p # q # ps) = p @ c # join_byte c (q # ps)"

lemma split_byte_nonempty [simp]: "split_byte c s \<noteq> []"
  by (cases s) (auto split: list.splits)

lemma join_split [simp]: "join_byte c (split_byte c s) = s"
proof (induction s)
  case (Cons x xs)
  show ?case
  proof (cases "split_byte c xs")
    case (Cons p ps)
    with Cons.IH show ?thesis by (cases ps) auto
  qed simp
qed simp

lemma split_byte_sep_free: "p \<in> set (split_byte c s) \<Longrightarrow> c \<notin> set p"
  by (induction s arbitrary: p) (auto split: if_splits list.splits)

lemma split_byte_single [simp]: "c \<notin> set s \<Longrightarrow> split_byte c s = [s]"
  by (induction s) auto

lemma split_byte_append: "c \<notin> set p \<Longrightarrow> split_byte c (p @ c # s) = p # split_byte c s"
  by (induction p) auto

lemma split_join: "ps \<noteq> [] \<Longrightarrow> \<forall>p\<in>set ps. c \<notin> set p \<Longrightarrow> split_byte c (join_byte c ps) = ps"
  by (induction c ps rule: join_byte.induct) (auto simp: split_byte_append)

lemma split_byte_snoc_sep: "split_byte c (s @ c # t) = split_byte c s @ split_byte c t"
  by (induction s) (auto split: list.splits)

lemma split_byte_snoc: "c \<noteq> x \<Longrightarrow> split_byte c (s @ [x]) = butlast (split_byte c s) @ [last (split_byte c s) @ [x]]"
  by (induction s) (auto split: list.splits if_splits)

lemma split_byte_Nil_iff: "split_byte c s = [[]] \<longleftrightarrow> s = []"
  by (cases s) (auto split: list.splits)

lemma split_byte_hd_Nil: "hd (split_byte c s) = [] \<longleftrightarrow> s = [] \<or> hd s = c"
  by (cases s) (auto split: list.splits)

lemma split_byte_inject: "split_byte c s = split_byte c t \<longleftrightarrow> s = t"
  by (metis join_split)

subsection \<open>Paths\<close>

text \<open>
  \<open>path.Clean\<close>: elements are processed from the left; an empty element and \<open>.\<close> are dropped and
  \<open>..\<close> removes the element before it, or stays at the front of a relative path.
\<close>

fun clean_step :: "bool \<Rightarrow> string list \<Rightarrow> string \<Rightarrow> string list" where
  "clean_step rooted out e =
     (if e = [] \<or> e = ''.'' then out
      else if e = ''..'' then
        (if out \<noteq> [] \<and> last out \<noteq> ''..'' then butlast out
         else if rooted then out else out @ [''..''])
      else out @ [e])"

definition Clean :: "string \<Rightarrow> string" where
  "Clean s =
     (let rooted = (s \<noteq> [] \<and> hd s = slash);
          out = foldl (clean_step rooted) [] (split_byte slash s);
          r = (if rooted then [slash] else []) @ join_byte slash out
      in if r = [] then ''.'' else r)"

text \<open>\<open>path.Base\<close> and \<open>path.Ext\<close>.\<close>

definition Base :: "string \<Rightarrow> string" where
  "Base s =
     (if s = [] then ''.''
      else (let t = last (split_byte slash (trim_right_byte slash s)) in
            if t = [] then [slash] else t))"

fun ext_rev :: "string \<Rightarrow> string \<Rightarrow> string" where
  "ext_rev acc [] = []"
| "ext_rev acc (c # cs) =
     (if c = slash then [] else if c = CHR ''.'' then c # acc else ext_rev (c # acc) cs)"

definition Ext :: "string \<Rightarrow> string" where
  "Ext s = ext_rev [] (rev s)"

subsection \<open>Numbers\<close>

fun decimal :: "int \<Rightarrow> string" where
  "decimal n = (if n < 10 then [of_byte (48 + n)] else decimal (n div 10) @ [of_byte (48 + n mod 10)])"

declare decimal.simps [simp del]

text \<open>\<open>fmt.Sprintf("%0<w>d", n)\<close> for a non-negative number.\<close>

definition pad_decimal :: "nat \<Rightarrow> int \<Rightarrow> string" where
  "pad_decimal w n = (let d = decimal n in replicate (w - length d) (CHR ''0'') @ d)"

text \<open>\<open>hex.EncodeToString\<close>.\<close>

definition hex_digit :: "int \<Rightarrow> char" where
  "hex_digit n = of_byte (if n < 10 then 48 + n else 87 + n)"

definition hex_encode :: "string \<Rightarrow> string" where
  "hex_encode s = concat (map (\<lambda>c. [hex_digit (byte c div 16), hex_digit (byte c mod 16)]) s)"

definition is_hex_char :: "char \<Rightarrow> bool" where
  "is_hex_char c \<longleftrightarrow> (48 \<le> byte c \<and> byte c \<le> 57) \<or> (97 \<le> byte c \<and> byte c \<le> 102) \<or> (65 \<le> byte c \<and> byte c \<le> 70)"

end
