(* ===== verification/Go_Json.thy ===== *)
theory Go_Json
  imports Go_Strings
begin

text \<open>
  \<open>encoding/json\<close>'s \<open>Marshal\<close> for the values the program hashes, signs or measures: strings,
  numbers, booleans, arrays and objects with their fields in declaration order. Strings are
  written with HTML escaping on, as \<open>Marshal\<close> does.
\<close>

abbreviation bslash :: char where "bslash \<equiv> CHR 0x5C"
abbreviation dquote :: char where "dquote \<equiv> CHR 0x22"

definition json_hex4 :: "int \<Rightarrow> string" where
  "json_hex4 n = [bslash, CHR ''u'', hex_digit (n div 4096 mod 16), hex_digit (n div 256 mod 16),
     hex_digit (n div 16 mod 16), hex_digit (n mod 16)]"

definition json_ascii :: "char \<Rightarrow> string" where
  "json_ascii c =
     (if c = bslash \<or> c = dquote then [bslash, c]
      else if c = CHR 0x08 then [bslash, CHR ''b'']
      else if c = CHR 0x0C then [bslash, CHR ''f'']
      else if c = CHR 0x0A then [bslash, CHR ''n'']
      else if c = CHR 0x0D then [bslash, CHR ''r'']
      else if c = CHR 0x09 then [bslash, CHR ''t'']
      else if byte c < 32 \<or> c = CHR ''<'' \<or> c = CHR ''>'' \<or> c = CHR ''&'' then json_hex4 (byte c)
      else [c])"

function json_body :: "string \<Rightarrow> string" where
  "json_body [] = []"
| "json_body (c # cs) =
     (if ascii c then json_ascii c @ json_body cs
      else (case decode_rune (c # cs) of
              None \<Rightarrow> json_hex4 RuneError @ json_body cs
            | Some (r, n) \<Rightarrow>
                (if r = 8232 \<or> r = 8233 then json_hex4 r else take n (c # cs)) @ json_body (drop (n - 1) cs)))"
  by pat_completeness auto
termination
  by (relation "measure length") auto

definition json_string :: "string \<Rightarrow> string" where
  "json_string s = dquote # json_body s @ [dquote]"

definition json_int :: "int \<Rightarrow> string" where
  "json_int n = (if n < 0 then CHR ''-'' # decimal (- n) else decimal n)"

definition json_bool :: "bool \<Rightarrow> string" where
  "json_bool b = (if b then ''true'' else ''false'')"

fun json_sep :: "string list \<Rightarrow> string" where
  "json_sep [] = []"
| "json_sep [x] = x"
| "json_sep (x # y # xs) = x @ CHR '','' # json_sep (y # xs)"

definition json_array :: "string list \<Rightarrow> string" where
  "json_array xs = CHR ''['' # json_sep xs @ '']''"

text \<open>An object from its fields, each a name and an encoded value.\<close>

definition json_object :: "(string \<times> string) list \<Rightarrow> string" where
  "json_object fs = CHR ''{'' # json_sep (map (\<lambda>(k, v). json_string k @ CHR '':'' # v) fs) @ ''}''"

end
