(* ===== verification/Filetypes.thy ===== *)
theory Filetypes
  imports Go_Json
begin

text \<open>
  Package \<open>filetypes\<close> (identical in \<open>control/internal\<close> and \<open>node/backend/internal\<close>): the file-name
  selector of \<open>selector.go\<close> and the signed policy context of \<open>context.go\<close>, that is its
  compilation into a filter and the evaluation of the filter for one entry.

  The facts at the end say what the evaluation decides, independently of the order of the rules:
  an entry is allowed when some covering rule grants the capability and none denies it.
\<close>

subsection \<open>selector.go\<close>

record selector =
  sel_Classes :: "string list"
  sel_Extensions :: "string list"
  sel_Names :: "string list"

record matcher =
  m_extensions :: "string list"
  m_names :: "string list"

definition file_classes :: "(string \<times> string list \<times> string list) list" where
  "file_classes =
     [(''video'', [''mp4'', ''mkv'', ''avi'', ''mov'', ''webm'', ''m4v'', ''mpeg'', ''mpg'', ''ts''], []),
      (''audio'', [''mp3'', ''flac'', ''wav'', ''ogg'', ''m4a'', ''aac'', ''opus''], []),
      (''image'', [''jpg'', ''jpeg'', ''png'', ''gif'', ''webp'', ''svg'', ''avif'', ''bmp'', ''tif'', ''tiff''], []),
      (''document'', [''txt'', ''md'', ''pdf'', ''doc'', ''docx'', ''xls'', ''xlsx'', ''ppt'', ''pptx'', ''odt'',
         ''ods'', ''csv'', ''json'', ''xml'', ''yaml'', ''yml''], []),
      (''archive'', [''zip'', ''gz'', ''tar'', ''tgz'', ''7z'', ''rar'', ''bz2'', ''xz'', ''zst''], []),
      (''executable'', [''exe'', ''dll'', ''msi'', ''com'', ''bat'', ''cmd'', ''ps1'', ''sh'', ''bash'', ''zsh'',
         ''elf'', ''bin'', ''so'', ''dylib'', ''appimage'', ''wasm''], []),
      (''secret'', [''env'', ''pem'', ''key'', ''p12'', ''pfx'', ''p8'', ''jks'', ''kdbx''],
         [''.env'', ''acme.json'', ''id_rsa'', ''id_ed25519''])]"

definition class_of :: "string \<Rightarrow> (string list \<times> string list) option" where
  "class_of v = map_of file_classes v"

fun check_classes :: "unicode_tables \<Rightarrow> string list \<Rightarrow> string list \<Rightarrow> string + string list" where
  "check_classes U seen [] = Inr seen"
| "check_classes U seen (v # vs) =
     (let value = ToLower U (TrimSpace v) in
      if class_of value = None \<or> ''c:'' @ value \<in> set seen then Inl ''invalid or duplicate class''
      else check_classes U ((''c:'' @ value) # seen) vs)"

definition extension_rune :: "unicode_tables \<Rightarrow> int \<Rightarrow> bool" where
  "extension_rune U r \<longleftrightarrow> is_letter U r \<or> is_digit U r \<or> r = 45 \<or> r = 95 \<or> r = 43"

fun check_extensions :: "unicode_tables \<Rightarrow> string list \<Rightarrow> string list \<Rightarrow> string + string list" where
  "check_extensions U seen [] = Inr seen"
| "check_extensions U seen (v # vs) =
     (let value = ToLower U (TrimSpace v) in
      if value = [] \<or> 128 < length (runes value) \<or> ''e:'' @ value \<in> set seen
      then Inl ''invalid or duplicate extension''
      else if \<not> list_all (extension_rune U) (runes value) then Inl ''invalid extension''
      else check_extensions U ((''e:'' @ value) # seen) vs)"

text \<open>\<open>strings.ContainsAny(s, "/\\\x00")\<close>.\<close>

definition contains_any :: "char list \<Rightarrow> string \<Rightarrow> bool" where
  "contains_any cs s \<longleftrightarrow> list_ex (\<lambda>c. c \<in> set cs) s"

abbreviation name_breakers :: "char list" where
  "name_breakers \<equiv> [slash, bslash, CHR 0x00]"

fun check_names :: "unicode_tables \<Rightarrow> string list \<Rightarrow> string list \<Rightarrow> string + string list" where
  "check_names U seen [] = Inr seen"
| "check_names U seen (v # vs) =
     (let value = ToLower U v in
      if value = [] \<or> value = ''.'' \<or> value = ''..'' \<or> \<not> valid_utf8 value \<or> contains_any name_breakers value
         \<or> 255 < length (runes value) \<or> ''n:'' @ value \<in> set seen
      then Inl ''invalid or duplicate name''
      else check_names U ((''n:'' @ value) # seen) vs)"

definition Selector_Validate :: "unicode_tables \<Rightarrow> selector \<Rightarrow> string + unit" where
  "Selector_Validate U s =
     (let count = length (sel_Classes s) + length (sel_Extensions s) + length (sel_Names s) in
      if count = 0 \<or> 64 < count then Inl ''file types require 1 to 64 selectors''
      else bind_result (check_classes U [] (sel_Classes s)) (\<lambda>seen.
           bind_result (check_extensions U seen (sel_Extensions s)) (\<lambda>seen.
           bind_result (check_names U seen (sel_Names s)) (\<lambda>_. Inr ()))))"

definition class_entry :: "unicode_tables \<Rightarrow> string \<Rightarrow> string list \<times> string list" where
  "class_entry U v = (case class_of (ToLower U (TrimSpace v)) of None \<Rightarrow> ([], []) | Some e \<Rightarrow> e)"

definition Selector_Compile :: "unicode_tables \<Rightarrow> selector \<Rightarrow> string + matcher" where
  "Selector_Compile U s =
     bind_result (Selector_Validate U s) (\<lambda>_.
       Inr \<lparr>m_extensions = map (\<lambda>e. ToLower U (TrimSpace e)) (sel_Extensions s)
              @ concat (map (\<lambda>c. fst (class_entry U c)) (sel_Classes s)),
            m_names = map (ToLower U) (sel_Names s)
              @ concat (map (\<lambda>c. snd (class_entry U c)) (sel_Classes s))\<rparr>)"

definition trim_prefix :: "string \<Rightarrow> string \<Rightarrow> string" where
  "trim_prefix p s = (if prefix p s then drop (length p) s else s)"

definition Matcher_Matches :: "unicode_tables \<Rightarrow> matcher option \<Rightarrow> string \<Rightarrow> bool \<Rightarrow> bool" where
  "Matcher_Matches U m name isFile =
     (case m of
        None \<Rightarrow> False
      | Some mm \<Rightarrow>
          if \<not> isFile \<or> name = [] \<or> name = ''.'' \<or> name = ''..'' \<or> \<not> valid_utf8 name
             \<or> contains_any name_breakers name
          then False
          else (let n = ToLower U name in
                n \<in> set (m_names mm) \<or> trim_prefix ''.'' (Ext n) \<in> set (m_extensions mm)))"

definition Selector_Matches :: "unicode_tables \<Rightarrow> selector \<Rightarrow> string \<Rightarrow> bool \<Rightarrow> bool" where
  "Selector_Matches U s name isFile =
     (case Selector_Compile U s of Inl _ \<Rightarrow> False | Inr m \<Rightarrow> Matcher_Matches U (Some m) name isFile)"

subsection \<open>context.go: data\<close>

definition MaxContextBytes :: nat where "MaxContextBytes = 32768"
definition MaxContextRules :: nat where "MaxContextRules = 256"

text \<open>Evaluation compares the bounds as integers.\<close>

lemma context_bounds_code [code_unfold]:
  "MaxContextBytes < n \<longleftrightarrow> 32768 < int n" "n \<le> MaxContextBytes \<longleftrightarrow> int n \<le> 32768" "MaxContextRules < n \<longleftrightarrow> 256 < int n"
  "n = MaxContextRules \<longleftrightarrow> int n = 256"
  by (auto simp: MaxContextBytes_def MaxContextRules_def)

record ft_rule =
  ftr_PolicyID :: string
  ftr_Path :: string
  ftr_Capabilities :: "string list"
  ftr_FileTypes :: "selector option"
  ftr_Visibility :: string

record ft_context =
  ctx_Version :: int
  ctx_Rules :: "ft_rule list"

record compiled_rule =
  cr_rule :: ft_rule
  cr_matcher :: "matcher option"
  cr_caps :: "string list"  \<comment> \<open>the keys of the map, each once\<close>

type_synonym ft_filter = "compiled_rule list"

record ft_decision =
  ftd_Allowed :: bool
  ftd_Denied :: bool
  ftd_Visibility :: string
  ftd_Restricted :: bool

definition validCaps :: "string list" where
  "validCaps = [''read'', ''list'', ''create'', ''update'', ''delete'', ''write'', ''execute'', ''sudo'', ''deny'']"

text \<open>
  The JSON text of a context, whose length \<open>Compile\<close> bounds; optional fields are left out when empty. A list
  is a slice that is not nil: the text of a nil slice is \<open>null\<close>. The program builds contexts with a slice of
  rules that is not nil, and a rule without capabilities is refused by \<open>Compile\<close>.
\<close>

definition marshal_selector :: "selector \<Rightarrow> string" where
  "marshal_selector s =
     json_object
       ((if sel_Classes s = [] then [] else [(''classes'', json_array (map json_string (sel_Classes s)))])
        @ (if sel_Extensions s = [] then [] else [(''extensions'', json_array (map json_string (sel_Extensions s)))])
        @ (if sel_Names s = [] then [] else [(''names'', json_array (map json_string (sel_Names s)))]))"

definition marshal_rule :: "ft_rule \<Rightarrow> string" where
  "marshal_rule r =
     json_object
       ([(''policy_id'', json_string (ftr_PolicyID r)), (''path'', json_string (ftr_Path r)),
         (''capabilities'', json_array (map json_string (ftr_Capabilities r)))]
        @ (case ftr_FileTypes r of None \<Rightarrow> [] | Some s \<Rightarrow> [(''file_types'', marshal_selector s)])
        @ (if ftr_Visibility r = [] then [] else [(''visibility'', json_string (ftr_Visibility r))]))"

definition marshal_context :: "ft_context \<Rightarrow> string" where
  "marshal_context c =
     json_object [(''version'', json_int (ctx_Version c)), (''rules'', json_array (map marshal_rule (ctx_Rules c)))]"

subsection \<open>context.go: paths\<close>

definition recursive_seg :: string where "recursive_seg = ''**''"

definition pattern_rune_ok :: "int \<Rightarrow> bool" where
  "pattern_rune_ok r \<longleftrightarrow> \<not> (r < 32 \<or> r = 127 \<or> r \<in> set (map byte [bslash, slash, CHR ''?'', CHR ''#'', CHR ''&'', CHR ''='', CHR ''%'', CHR ''*'']))"

fun pattern_parts_ok :: "string list \<Rightarrow> bool" where
  "pattern_parts_ok [] = True"
| "pattern_parts_ok (part # rest) =
     (if part = [] \<or> part = ''.'' \<or> part = ''..'' \<or> part = ''**'' \<and> rest \<noteq> [] then False
      else if part = ''*'' \<or> part = ''**'' then pattern_parts_ok rest
      else list_all pattern_rune_ok (runes part) \<and> pattern_parts_ok rest)"

definition validPattern :: "string \<Rightarrow> bool" where
  "validPattern v =
     (let value = trim_byte slash v in
      if value = [] \<or> \<not> valid_utf8 value \<or> sublist ''//'' value then False
      else pattern_parts_ok (split_byte slash value))"

text \<open>The loop over the fixed parts: \<open>*\<close> agrees with anything, a literal part scores its length plus 100.\<close>

fun score_parts :: "string list \<Rightarrow> string list \<Rightarrow> int option" where
  "score_parts [] ts = Some 0"
| "score_parts (p # ps) [] = None"
| "score_parts (p # ps) (t # ts) =
     (if p = ''*'' then score_parts ps ts
      else if p \<noteq> t then None
      else map_option (\<lambda>n. 100 + int (length p) + n) (score_parts ps ts))"

definition match_segments :: "string list \<Rightarrow> string list \<Rightarrow> int option" where
  "match_segments parts target =
     (if last parts = recursive_seg
      then (let fixed = butlast parts in
            if length target < length fixed then None else score_parts fixed target)
      else if length parts \<noteq> length target then None
      else map_option (\<lambda>s. s + int (length parts)) (score_parts parts target))"

definition matchPath :: "string \<Rightarrow> string \<Rightarrow> int option" where
  "matchPath pattern value =
     match_segments (split_byte slash (trim_byte slash pattern)) (split_byte slash (trim_byte slash value))"

definition ft_grants :: "string list \<Rightarrow> string \<Rightarrow> bool" where
  "ft_grants caps capability \<longleftrightarrow>
     capability \<in> set caps \<or> ''write'' \<in> set caps \<and> (capability = ''create'' \<or> capability = ''update'')"

definition resource_rune_ok :: "int \<Rightarrow> bool" where
  "resource_rune_ok r \<longleftrightarrow> \<not> (r < 32 \<or> r = 127 \<or> r = byte bslash)"

definition resource_part_ok :: "string \<Rightarrow> bool" where
  "resource_part_ok part \<longleftrightarrow>
     part \<noteq> [] \<and> part \<noteq> ''.'' \<and> part \<noteq> ''..'' \<and> part \<noteq> ''*'' \<and> part \<noteq> ''**'' \<and> list_all resource_rune_ok (runes part)"

definition validResource :: "string \<Rightarrow> bool" where
  "validResource v =
     (let value = trim_byte slash v in
      if value = [] \<or> \<not> valid_utf8 value \<or> sublist ''//'' value then False
      else list_all resource_part_ok (split_byte slash value))"

subsection \<open>context.go: compilation\<close>

fun compile_caps :: "unicode_tables \<Rightarrow> string list \<Rightarrow> string list \<Rightarrow> string + string list" where
  "compile_caps U caps [] = Inr caps"
| "compile_caps U caps (v # vs) =
     (let cap = ToLower U (TrimSpace v) in
      if cap \<notin> set validCaps \<or> cap \<in> set caps then Inl ''invalid capability''
      else compile_caps U (caps @ [cap]) vs)"

definition compile_rule :: "unicode_tables \<Rightarrow> ft_rule \<Rightarrow> string + compiled_rule" where
  "compile_rule U rule0 =
     (if ftr_PolicyID rule0 = [] \<or> 128 < length (ftr_PolicyID rule0) \<or> \<not> valid_utf8 (ftr_PolicyID rule0)
         \<or> contains_any name_breakers (ftr_PolicyID rule0) \<or> \<not> validPattern (ftr_Path rule0)
         \<or> ftr_Capabilities rule0 = [] \<or> length validCaps < length (ftr_Capabilities rule0)
      then Inl ''invalid rule''
      else (let rule = (if ftr_Visibility rule0 = [] then rule0\<lparr>ftr_Visibility := ''hidden''\<rparr> else rule0) in
            if ftr_Visibility rule \<noteq> ''hidden'' \<and> ftr_Visibility rule \<noteq> ''visible'' then Inl ''invalid visibility''
            else bind_result (compile_caps U [] (ftr_Capabilities rule)) (\<lambda>caps.
                 (case ftr_FileTypes rule of
                    None \<Rightarrow> Inr \<lparr>cr_rule = rule, cr_matcher = None, cr_caps = caps\<rparr>
                  | Some sel \<Rightarrow>
                      bind_result (Selector_Compile U sel) (\<lambda>m.
                        Inr \<lparr>cr_rule = rule, cr_matcher = Some m, cr_caps = caps\<rparr>)))))"

fun compile_rules :: "unicode_tables \<Rightarrow> ft_rule list \<Rightarrow> string + ft_filter" where
  "compile_rules U [] = Inr []"
| "compile_rules U (r # rs) =
     bind_result (compile_rule U r) (\<lambda>c. bind_result (compile_rules U rs) (\<lambda>cs. Inr (c # cs)))"

definition Context_Compile :: "unicode_tables \<Rightarrow> ft_context \<Rightarrow> string + ft_filter" where
  "Context_Compile U c =
     (if ctx_Version c \<noteq> 1 \<or> MaxContextRules < length (ctx_Rules c) then Inl ''unsupported context''
      else if MaxContextBytes < length (marshal_context c) then Inl ''invalid context size''
      else compile_rules U (ctx_Rules c))"

subsection \<open>context.go: evaluation\<close>

record ft_scan =
  sc_best :: int
  sc_found :: bool
  sc_restricted :: bool
  sc_anyHidden :: bool
  sc_denied :: bool

definition read_or_list :: "string \<Rightarrow> bool" where
  "read_or_list capability \<longleftrightarrow> capability = ''read'' \<or> capability = ''list''"

text \<open>One iteration of the loop over the compiled rules.\<close>

definition scan_rule :: "unicode_tables \<Rightarrow> string \<Rightarrow> string \<Rightarrow> string \<Rightarrow> ft_scan \<Rightarrow> compiled_rule \<Rightarrow> ft_scan" where
  "scan_rule U resource capability entryType st c =
     (case matchPath (ftr_Path (cr_rule c)) resource of
        None \<Rightarrow> st
      | Some specificity \<Rightarrow>
          (let typed = (cr_matcher c \<noteq> None) in
           if typed \<and> entryType = ''directory'' \<and> ''deny'' \<in> set (cr_caps c) then st
           else
             (let matchesType = (\<not> typed \<or> entryType = ''directory'' \<or> Matcher_Matches U (cr_matcher c) (Base resource) True);
                  deny = (''deny'' \<in> set (cr_caps c) \<and> (\<not> typed \<or> length (cr_caps c) = 1 \<or> ft_grants (cr_caps c) capability));
                  allow = (''deny'' \<notin> set (cr_caps c) \<and> ft_grants (cr_caps c) capability);
                  hidden = (ftr_Visibility (cr_rule c) = ''hidden'');
                  st1 = (if typed \<and> \<not> matchesType \<and> allow \<and> read_or_list capability
                         then st\<lparr>sc_restricted := True, sc_anyHidden := sc_anyHidden st \<or> hidden\<rparr> else st)
              in
              if \<not> matchesType then st1
              else if deny then
                (if read_or_list capability
                 then st1\<lparr>sc_denied := True, sc_restricted := True, sc_anyHidden := sc_anyHidden st1 \<or> hidden\<rparr>
                 else st1\<lparr>sc_denied := True\<rparr>)
              else if allow \<and> sc_best st1 \<le> specificity then st1\<lparr>sc_best := specificity, sc_found := True\<rparr>
              else st1)))"

definition scan_init :: ft_scan where
  "scan_init = \<lparr>sc_best = -1, sc_found = False, sc_restricted = False, sc_anyHidden = False, sc_denied = False\<rparr>"

text \<open>\<open>(*Filter).Evaluate\<close>; a nil filter is \<^const>\<open>None\<close>.\<close>

definition Filter_Evaluate :: "unicode_tables \<Rightarrow> ft_filter option \<Rightarrow> string \<Rightarrow> string \<Rightarrow> string \<Rightarrow> ft_decision" where
  "Filter_Evaluate U f resource capability0 entryType =
     (let capability = ToLower U (TrimSpace capability0);
          closed = \<lparr>ftd_Allowed = False, ftd_Denied = False, ftd_Visibility = ''hidden'', ftd_Restricted = False\<rparr>
      in case f of
           None \<Rightarrow> closed
         | Some rules \<Rightarrow>
             if \<not> validResource resource \<or> capability \<notin> set validCaps \<or> capability = ''deny''
                \<or> entryType \<noteq> ''file'' \<and> entryType \<noteq> ''directory''
             then closed
             else (let st = foldl (scan_rule U resource capability entryType) scan_init rules in
                   \<lparr>ftd_Allowed = sc_found st \<and> \<not> sc_denied st, ftd_Denied = sc_denied st,
                    ftd_Visibility = (if sc_restricted st \<and> \<not> sc_anyHidden st then ''visible'' else ''hidden''),
                    ftd_Restricted = sc_restricted st\<rparr>))"


subsection \<open>What the evaluation decides\<close>

text \<open>A rule covers a resource when its path pattern matches it.\<close>

definition rule_covers :: "string \<Rightarrow> compiled_rule \<Rightarrow> bool" where
  "rule_covers resource c \<longleftrightarrow> matchPath (ftr_Path (cr_rule c)) resource \<noteq> None"

definition type_selected :: "unicode_tables \<Rightarrow> string \<Rightarrow> string \<Rightarrow> compiled_rule \<Rightarrow> bool" where
  "type_selected U resource entryType c \<longleftrightarrow>
     cr_matcher c = None \<or> entryType = ''directory'' \<or> Matcher_Matches U (cr_matcher c) (Base resource) True"

definition rule_denies :: "unicode_tables \<Rightarrow> string \<Rightarrow> string \<Rightarrow> string \<Rightarrow> compiled_rule \<Rightarrow> bool" where
  "rule_denies U resource capability entryType c \<longleftrightarrow>
     rule_covers resource c \<and> ''deny'' \<in> set (cr_caps c)
     \<and> (cr_matcher c \<noteq> None \<longrightarrow> entryType \<noteq> ''directory'' \<and> type_selected U resource entryType c
          \<and> (length (cr_caps c) = 1 \<or> ft_grants (cr_caps c) capability))"

definition rule_allows :: "unicode_tables \<Rightarrow> string \<Rightarrow> string \<Rightarrow> string \<Rightarrow> compiled_rule \<Rightarrow> bool" where
  "rule_allows U resource capability entryType c \<longleftrightarrow>
     rule_covers resource c \<and> ''deny'' \<notin> set (cr_caps c) \<and> ft_grants (cr_caps c) capability
     \<and> type_selected U resource entryType c"

text \<open>
  A rule restricts a read or a listing when it denies it, or when it would grant it to files of
  another type only.
\<close>

definition rule_restricts :: "unicode_tables \<Rightarrow> string \<Rightarrow> string \<Rightarrow> string \<Rightarrow> compiled_rule \<Rightarrow> bool" where
  "rule_restricts U resource capability entryType c \<longleftrightarrow>
     read_or_list capability \<and>
     (rule_denies U resource capability entryType c
      \<or> rule_covers resource c \<and> \<not> type_selected U resource entryType c
        \<and> ''deny'' \<notin> set (cr_caps c) \<and> ft_grants (cr_caps c) capability)"

lemmas rule_defs = rule_covers_def type_selected_def rule_denies_def rule_allows_def rule_restricts_def

lemma score_parts_nonneg: "score_parts ps ts = Some n \<Longrightarrow> 0 \<le> n"
  by (induction ps ts arbitrary: n rule: score_parts.induct) (auto split: if_splits)

lemma match_segments_nonneg: "match_segments ps ts = Some n \<Longrightarrow> 0 \<le> n"
  by (auto simp: match_segments_def Let_def split: if_splits dest!: score_parts_nonneg)

lemma scan_rule_denied:
  "sc_denied (scan_rule U resource capability entryType st c)
     \<longleftrightarrow> sc_denied st \<or> rule_denies U resource capability entryType c"
  by (auto simp: scan_rule_def Let_def rule_defs split: option.splits)

lemma scan_rule_restricted:
  "sc_restricted (scan_rule U resource capability entryType st c)
     \<longleftrightarrow> sc_restricted st \<or> rule_restricts U resource capability entryType c"
  by (auto simp: scan_rule_def Let_def rule_defs split: option.splits)

lemma scan_rule_anyHidden:
  "sc_anyHidden (scan_rule U resource capability entryType st c)
     \<longleftrightarrow> sc_anyHidden st
         \<or> rule_restricts U resource capability entryType c \<and> ftr_Visibility (cr_rule c) = ''hidden''"
  by (auto simp: scan_rule_def Let_def rule_defs split: option.splits)

text \<open>The scan keeps \<open>best = -1\<close> until a rule grants, so the first granting rule is always taken.\<close>

definition scan_ok :: "ft_scan \<Rightarrow> bool" where
  "scan_ok st \<longleftrightarrow> (sc_found st \<or> sc_best st = -1)"

lemma scan_rule_ok: "scan_ok st \<Longrightarrow> scan_ok (scan_rule U resource capability entryType st c)"
  by (auto simp: scan_rule_def Let_def scan_ok_def split: option.splits)

lemma scan_rule_found:
  "scan_ok st \<Longrightarrow>
   sc_found (scan_rule U resource capability entryType st c)
     \<longleftrightarrow> sc_found st \<or> rule_allows U resource capability entryType c"
  by (auto simp: scan_rule_def Let_def rule_defs scan_ok_def matchPath_def split: option.splits
      dest: match_segments_nonneg)

lemma scan_found:
  "scan_ok st \<Longrightarrow>
   sc_found (foldl (scan_rule U resource capability entryType) st rules)
     \<longleftrightarrow> sc_found st \<or> (\<exists>c\<in>set rules. rule_allows U resource capability entryType c)"
  by (induction rules arbitrary: st) (auto simp: scan_rule_found scan_rule_ok)

lemma scan_denied:
  "sc_denied (foldl (scan_rule U resource capability entryType) st rules)
     \<longleftrightarrow> sc_denied st \<or> (\<exists>c\<in>set rules. rule_denies U resource capability entryType c)"
  by (induction rules arbitrary: st) (auto simp: scan_rule_denied)

lemma scan_restricted:
  "sc_restricted (foldl (scan_rule U resource capability entryType) st rules)
     \<longleftrightarrow> sc_restricted st \<or> (\<exists>c\<in>set rules. rule_restricts U resource capability entryType c)"
  by (induction rules arbitrary: st) (auto simp: scan_rule_restricted)

lemma scan_anyHidden:
  "sc_anyHidden (foldl (scan_rule U resource capability entryType) st rules)
     \<longleftrightarrow> sc_anyHidden st
         \<or> (\<exists>c\<in>set rules. rule_restricts U resource capability entryType c \<and> ftr_Visibility (cr_rule c) = ''hidden'')"
  by (induction rules arbitrary: st) (auto simp: scan_rule_anyHidden)

text \<open>The inputs that are evaluated at all; everything else is refused.\<close>

definition evaluable :: "unicode_tables \<Rightarrow> string \<Rightarrow> string \<Rightarrow> string \<Rightarrow> bool" where
  "evaluable U resource capability entryType \<longleftrightarrow>
     validResource resource \<and> ToLower U (TrimSpace capability) \<in> set validCaps
     \<and> ToLower U (TrimSpace capability) \<noteq> ''deny'' \<and> (entryType = ''file'' \<or> entryType = ''directory'')"

lemma Filter_Evaluate_closed:
  "f = None \<or> \<not> evaluable U resource capability entryType \<Longrightarrow>
   \<not> ftd_Allowed (Filter_Evaluate U f resource capability entryType)
   \<and> \<not> ftd_Denied (Filter_Evaluate U f resource capability entryType)
   \<and> ftd_Visibility (Filter_Evaluate U f resource capability entryType) = ''hidden''"
  by (auto simp: Filter_Evaluate_def evaluable_def Let_def split: option.splits)

lemma Filter_Evaluate_Denied:
  "evaluable U resource capability entryType \<Longrightarrow>
   ftd_Denied (Filter_Evaluate U (Some rules) resource capability entryType)
     \<longleftrightarrow> (\<exists>c\<in>set rules. rule_denies U resource (ToLower U (TrimSpace capability)) entryType c)"
  by (auto simp: Filter_Evaluate_def evaluable_def Let_def scan_denied scan_init_def)

lemma Filter_Evaluate_Allowed:
  "evaluable U resource capability entryType \<Longrightarrow>
   ftd_Allowed (Filter_Evaluate U (Some rules) resource capability entryType)
     \<longleftrightarrow> (\<exists>c\<in>set rules. rule_allows U resource (ToLower U (TrimSpace capability)) entryType c)
         \<and> \<not> (\<exists>c\<in>set rules. rule_denies U resource (ToLower U (TrimSpace capability)) entryType c)"
  by (auto simp: Filter_Evaluate_def evaluable_def Let_def scan_denied scan_found scan_init_def scan_ok_def)

lemma Filter_Evaluate_Visibility:
  "evaluable U resource capability entryType \<Longrightarrow>
   ftd_Visibility (Filter_Evaluate U (Some rules) resource capability entryType) =
     (if (\<exists>c\<in>set rules. rule_restricts U resource (ToLower U (TrimSpace capability)) entryType c)
         \<and> (\<forall>c\<in>set rules. rule_restricts U resource (ToLower U (TrimSpace capability)) entryType c
              \<longrightarrow> ftr_Visibility (cr_rule c) \<noteq> ''hidden'')
      then ''visible'' else ''hidden'')"
  by (auto simp: Filter_Evaluate_def evaluable_def Let_def scan_restricted scan_anyHidden scan_init_def)

lemma Filter_Evaluate_Restricted:
  "evaluable U resource capability entryType \<Longrightarrow>
   ftd_Restricted (Filter_Evaluate U (Some rules) resource capability entryType)
     \<longleftrightarrow> (\<exists>c\<in>set rules. rule_restricts U resource (ToLower U (TrimSpace capability)) entryType c)"
  by (auto simp: Filter_Evaluate_def evaluable_def Let_def scan_restricted scan_init_def)

lemmas Filter_Evaluate_facts =
  Filter_Evaluate_Denied Filter_Evaluate_Allowed Filter_Evaluate_Visibility Filter_Evaluate_Restricted

text \<open>
  C7: What the node decides for one entry under a compiled context: it is denied exactly when a
  covering rule denies it, allowed exactly when a covering rule grants it and none denies it, and
  an entry that a rule restricts is shown only when no restricting rule hides it. Rules are
  judged as a set: neither their order nor their specificity matters.
\<close>

theorem Filter_Evaluate_decides:
  assumes "evaluable U resource capability entryType"
  shows "let d = Filter_Evaluate U (Some rules) resource capability entryType; c = ToLower U (TrimSpace capability) in
    (ftd_Denied d \<longleftrightarrow> list_ex (rule_denies U resource c entryType) rules)
    \<and> (ftd_Allowed d \<longleftrightarrow> list_ex (rule_allows U resource c entryType) rules \<and> \<not> list_ex (rule_denies U resource c entryType) rules)
    \<and> (ftd_Restricted d \<longleftrightarrow> list_ex (rule_restricts U resource c entryType) rules)
    \<and> ftd_Visibility d =
        (if ftd_Restricted d \<and> \<not> list_ex (\<lambda>r. rule_restricts U resource c entryType r \<and> ftr_Visibility (cr_rule r) = ''hidden'') rules
         then ''visible'' else ''hidden'')"
  unfolding Let_def Filter_Evaluate_facts [OF assms] list_ex_iff by auto

definition hidden_rule :: compiled_rule where
  "hidden_rule = \<lparr>cr_rule = \<lparr>ftr_PolicyID = ''p'', ftr_Path = ''a/**'', ftr_Capabilities = [''deny''], ftr_FileTypes = None,
     ftr_Visibility = ''visible''\<rparr>, cr_matcher = Some \<lparr>m_extensions = [''txt''], m_names = []\<rparr>, cr_caps = [''deny'']\<rparr>"

theorem Filter_Evaluate_decides_witness:
  "ftd_Denied (Filter_Evaluate ascii_tables (Some [hidden_rule]) ''a/b.txt'' ''read'' ''file'')
   \<and> ftd_Visibility (Filter_Evaluate ascii_tables (Some [hidden_rule]) ''a/b.txt'' ''read'' ''file'') = ''visible''"
proof -
  have ev: "evaluable ascii_tables ''a/b.txt'' ''read'' ''file''" by code_simp
  have "list_ex (rule_denies ascii_tables ''a/b.txt'' (ToLower ascii_tables (TrimSpace ''read'')) ''file'') [hidden_rule]"
    and "list_ex (rule_restricts ascii_tables ''a/b.txt'' (ToLower ascii_tables (TrimSpace ''read'')) ''file'') [hidden_rule]"
    and "\<not> list_ex (\<lambda>r. rule_restricts ascii_tables ''a/b.txt'' (ToLower ascii_tables (TrimSpace ''read'')) ''file'' r
            \<and> ftr_Visibility (cr_rule r) = ''hidden'') [hidden_rule]"
    by code_simp+
  with Filter_Evaluate_decides [OF ev, of "[hidden_rule]"] show ?thesis by (simp only: Let_def simp_thms if_True)
qed

end
