(* ===== verification/Rbac.thy ===== *)
theory Rbac
  imports Filetypes
begin

text \<open>
  Package \<open>control/internal/rbac\<close>: path policies (\<open>rbac.go\<close>) and typed policies (\<open>typed.go\<close>).
  The loops over policies and rules are folds over the rules in their order, with the loop's
  variables as the folded record.
\<close>

subsection \<open>rbac.go: data and paths\<close>

definition validCapabilities :: "string list" where
  "validCapabilities = [''read'', ''list'', ''create'', ''update'', ''delete'', ''write'', ''execute'', ''sudo'', ''deny'']"

record rbac_rule =
  rr_Path :: string
  rr_Capabilities :: "string list"
  rr_FileTypes :: "selector option"
  rr_Visibility :: string
  rr_NeedsApproval :: "string list"

record policy =
  pol_ID :: string
  pol_Name :: string
  pol_Rules :: "rbac_rule list"

record decision =
  dec_NeedsApproval :: bool
  dec_Allowed :: bool
  dec_Denied :: bool
  dec_PolicyIDs :: "string list"
  dec_Path :: string
  dec_Capability :: string

definition ValidCapability :: "string \<Rightarrow> bool" where
  "ValidCapability v \<longleftrightarrow> v \<in> set validCapabilities"

definition NormalizePath :: "string \<Rightarrow> string" where
  "NormalizePath v =
     (let value = trim_byte slash (TrimSpace v) in
      if value = ''workers'' then ''nodes''
      else if prefix ''workers/'' value then ''nodes/'' @ trim_prefix ''workers/'' value
      else value)"

definition rule_rune_ok :: "int \<Rightarrow> bool" where
  "rule_rune_ok r \<longleftrightarrow> \<not> (r < 32 \<or> r = 127)
     \<and> r \<notin> set (map byte [bslash, slash, CHR ''?'', CHR ''#'', CHR ''&'', CHR ''='', CHR ''%'', CHR ''*''])"

text \<open>The loop over the segments of \<open>ValidPath\<close>; \<open>rest = []\<close> is the test for the last index.\<close>

fun rule_segments_ok :: "string list \<Rightarrow> bool" where
  "rule_segments_ok [] = True"
| "rule_segments_ok (segment # rest) =
     (if segment = [] \<or> segment = ''.'' \<or> segment = ''..'' then False
      else if segment = recursive_seg then (if rest \<noteq> [] then False else rule_segments_ok rest)
      else if segment = ''*'' then rule_segments_ok rest
      else list_all rule_rune_ok (runes segment) \<and> rule_segments_ok rest)"

definition ValidPath :: "string \<Rightarrow> bool" where
  "ValidPath v =
     (let value = NormalizePath v in
      if value = [] \<or> sublist ''//'' value then False
      else rule_segments_ok (split_byte slash value))"

definition resource_segment_ok :: "string \<Rightarrow> bool" where
  "resource_segment_ok segment \<longleftrightarrow>
     segment \<notin> {[], ''.'', ''..'', ''*'', recursive_seg}
     \<and> list_all (\<lambda>r. \<not> (r < 32 \<or> r = 127 \<or> r = byte bslash)) (runes segment)"

definition ValidResourcePath :: "string \<Rightarrow> bool" where
  "ValidResourcePath v =
     (let value = NormalizePath v in
      if value = [] \<or> sublist ''//'' value then False
      else list_all resource_segment_ok (split_byte slash value))"

text \<open>The segments both sides of a match are compared by.\<close>

abbreviation segs :: "string \<Rightarrow> string list" where
  "segs v \<equiv> split_byte slash (NormalizePath v)"

definition rbac_match :: "string \<Rightarrow> string \<Rightarrow> int option" where
  "rbac_match pattern path = match_segments (segs pattern) (segs path)"

definition rbac_grants :: "string list \<Rightarrow> string \<Rightarrow> bool" where
  "rbac_grants capabilities requested \<longleftrightarrow>
     requested \<in> set capabilities
     \<or> ''write'' \<in> set capabilities \<and> (requested = ''create'' \<or> requested = ''update'')"

definition capabilitySet :: "unicode_tables \<Rightarrow> string list \<Rightarrow> string list" where
  "capabilitySet U values = remdups (map (\<lambda>v. ToLower U (TrimSpace v)) values)"

definition requiresApproval :: "unicode_tables \<Rightarrow> rbac_rule \<Rightarrow> string \<Rightarrow> bool" where
  "requiresApproval U rule capability \<longleftrightarrow>
     list_ex (\<lambda>v. ToLower U (TrimSpace v) = capability) (rr_NeedsApproval rule)"

subsection \<open>rbac.go: evaluation\<close>

record eval_state =
  ev_bestSpecificity :: int
  ev_needsApproval :: bool
  ev_allowedPolicies :: "string list"
  ev_deniedPolicies :: "string list"

definition eval_rule :: "unicode_tables \<Rightarrow> string \<Rightarrow> string \<Rightarrow> string \<Rightarrow> eval_state \<Rightarrow> rbac_rule \<Rightarrow> eval_state" where
  "eval_rule U path capability policyID st rule =
     (case rbac_match (rr_Path rule) path of
        None \<Rightarrow> st
      | Some specificity \<Rightarrow>
          (let capabilities = capabilitySet U (rr_Capabilities rule) in
           if rr_FileTypes rule \<noteq> None \<and> ''deny'' \<notin> set capabilities then st
           else if ''deny'' \<in> set capabilities
             then st\<lparr>ev_deniedPolicies := List.insert policyID (ev_deniedPolicies st)\<rparr>
           else if \<not> rbac_grants capabilities capability then st
           else (let marked = requiresApproval U rule capability in
                 if ev_bestSpecificity st < specificity
                 then st\<lparr>ev_bestSpecificity := specificity, ev_needsApproval := marked,
                         ev_allowedPolicies := [policyID]\<rparr>
                 else if specificity = ev_bestSpecificity st
                 then st\<lparr>ev_needsApproval := ev_needsApproval st \<or> marked,
                         ev_allowedPolicies := List.insert policyID (ev_allowedPolicies st)\<rparr>
                 else st)))"

definition eval_policy :: "unicode_tables \<Rightarrow> string \<Rightarrow> string \<Rightarrow> eval_state \<Rightarrow> policy \<Rightarrow> eval_state" where
  "eval_policy U path capability st p = foldl (eval_rule U path capability (pol_ID p)) st (pol_Rules p)"

definition eval_init :: eval_state where
  "eval_init = \<lparr>ev_bestSpecificity = -1, ev_needsApproval = False, ev_allowedPolicies = [], ev_deniedPolicies = []\<rparr>"

definition rbac_Evaluate :: "unicode_tables \<Rightarrow> policy list \<Rightarrow> string \<Rightarrow> string \<Rightarrow> decision" where
  "rbac_Evaluate U policies path0 capability0 =
     (let path = NormalizePath path0;
          capability = ToLower U (TrimSpace capability0);
          d = \<lparr>dec_NeedsApproval = False, dec_Allowed = False, dec_Denied = False, dec_PolicyIDs = [],
               dec_Path = path, dec_Capability = capability\<rparr>;
          st = foldl (eval_policy U path capability) eval_init policies
      in if ev_deniedPolicies st \<noteq> []
         then d\<lparr>dec_Denied := True, dec_PolicyIDs := sorted_keys (ev_deniedPolicies st)\<rparr>
         else if ev_allowedPolicies st \<noteq> []
         then d\<lparr>dec_Allowed := True, dec_NeedsApproval := ev_needsApproval st,
                dec_PolicyIDs := sorted_keys (ev_allowedPolicies st)\<rparr>
         else d)"

text \<open>\<open>approvalMarked\<close>: the loop keeps the best specificity and whether one of its rules is marked.\<close>

definition mark_rule :: "unicode_tables \<Rightarrow> string \<Rightarrow> string \<Rightarrow> int \<times> bool \<Rightarrow> rbac_rule \<Rightarrow> int \<times> bool" where
  "mark_rule U path capability st rule =
     (let capabilities = capabilitySet U (rr_Capabilities rule) in
      case rbac_match (rr_Path rule) path of
        None \<Rightarrow> st
      | Some specificity \<Rightarrow>
          if rr_FileTypes rule \<noteq> None \<or> ''deny'' \<in> set capabilities \<or> \<not> rbac_grants capabilities capability then st
          else if fst st < specificity then (specificity, requiresApproval U rule capability)
          else if specificity = fst st then (fst st, snd st \<or> requiresApproval U rule capability)
          else st)"

definition approvalMarked :: "unicode_tables \<Rightarrow> policy list \<Rightarrow> string \<Rightarrow> string \<Rightarrow> bool" where
  "approvalMarked U policies path capability =
     snd (foldl (\<lambda>st p. foldl (mark_rule U path capability) st (pol_Rules p)) (-1, False) policies)"

definition ApprovalCapabilities :: "string list" where
  "ApprovalCapabilities = [''delete'', ''update'']"

fun approval_values_ok :: "unicode_tables \<Rightarrow> string list \<Rightarrow> string list \<Rightarrow> string list \<Rightarrow> bool" where
  "approval_values_ok U capabilities seen [] = True"
| "approval_values_ok U capabilities seen (v # vs) =
     (if v \<noteq> ToLower U (TrimSpace v) \<or> v \<in> set seen \<or> \<not> rbac_grants capabilities v then False
      else if v \<notin> set ApprovalCapabilities then False
      else approval_values_ok U capabilities (v # seen) vs)"

definition ValidNeedsApproval :: "unicode_tables \<Rightarrow> rbac_rule \<Rightarrow> bool" where
  "ValidNeedsApproval U rule =
     (if rr_NeedsApproval rule = [] then True
      else (let capabilities = capabilitySet U (rr_Capabilities rule) in
            if ''deny'' \<in> set capabilities \<or> rr_FileTypes rule \<noteq> None \<or> rr_Visibility rule \<noteq> []
               \<or> length ApprovalCapabilities < length (rr_NeedsApproval rule)
            then False
            else approval_values_ok U capabilities [] (rr_NeedsApproval rule)))"

subsection \<open>rbac.go: subtrees\<close>

fun shared_agree :: "string list \<Rightarrow> string list \<Rightarrow> bool" where
  "shared_agree (r # rs) (s # ss) = ((r = ''*'' \<or> s = ''*'' \<or> r = s) \<and> shared_agree rs ss)"
| "shared_agree _ _ = True"

definition denyReachesScope :: "string list \<Rightarrow> string list \<Rightarrow> bool" where
  "denyReachesScope ruleParts0 scopeParts =
     (let recursive = (last ruleParts0 = recursive_seg);
          ruleParts = (if recursive then butlast ruleParts0 else ruleParts0)
      in if \<not> shared_agree ruleParts scopeParts then False
         else if length scopeParts \<le> length ruleParts then True
         else recursive)"

text \<open>The rules of all policies in the order the nested loops visit them, each with its policy's identifier.\<close>

definition flat_rules :: "policy list \<Rightarrow> (string \<times> rbac_rule) list" where
  "flat_rules policies = concat (map (\<lambda>p. map (Pair (pol_ID p)) (pol_Rules p)) policies)"

definition DeniesWithin :: "unicode_tables \<Rightarrow> policy list \<Rightarrow> string \<Rightarrow> bool" where
  "DeniesWithin U policies scope =
     list_ex (\<lambda>(_, rule). ''deny'' \<in> set (capabilitySet U (rr_Capabilities rule))
                \<and> denyReachesScope (segs (rr_Path rule)) (segs scope)) (flat_rules policies)"

definition UntypedDeniesWithin :: "unicode_tables \<Rightarrow> policy list \<Rightarrow> string \<Rightarrow> bool" where
  "UntypedDeniesWithin U policies scope =
     (if \<not> ValidResourcePath scope then True
      else list_ex (\<lambda>(_, rule). rr_FileTypes rule = None \<and> ''deny'' \<in> set (capabilitySet U (rr_Capabilities rule))
             \<and> (\<not> ValidPath (rr_Path rule) \<or> denyReachesScope (segs (rr_Path rule)) (segs scope))) (flat_rules policies))"

definition RuleTouchesScope :: "string \<Rightarrow> string \<Rightarrow> bool" where
  "RuleTouchesScope rulePath scope =
     (if \<not> ValidPath rulePath \<or> \<not> ValidResourcePath scope then True
      else denyReachesScope (segs rulePath) (segs scope))"

definition isMountScopedFileRule :: "string \<Rightarrow> bool" where
  "isMountScopedFileRule path \<longleftrightarrow>
     (let segments = segs path in
      length segments = 5 \<and> segments ! 0 = ''nodes'' \<and> segments ! 2 = ''files'' \<and> segments ! 3 = ''mounts'')"

definition expand_rule :: "rbac_rule \<Rightarrow> rbac_rule list" where
  "expand_rule rule =
     (if isMountScopedFileRule (rr_Path rule)
      then [rule, rule\<lparr>rr_Path := NormalizePath (rr_Path rule) @ ''/'' @ recursive_seg\<rparr>]
      else [rule])"

definition ExpandCompatibilityRules :: "policy list \<Rightarrow> policy list" where
  "ExpandCompatibilityRules policies =
     map (\<lambda>p. p\<lparr>pol_Rules := concat (map expand_rule (pol_Rules p))\<rparr>) policies"




subsection \<open>typed.go\<close>

datatype entry_mode = EveryEntry | NodeFiltered

definition ruleMatches :: "rbac_rule \<Rightarrow> string \<Rightarrow> bool" where
  "ruleMatches rule path \<longleftrightarrow> rbac_match (rr_Path rule) path \<noteq> None"

definition HasTypedRules :: "policy list \<Rightarrow> string \<Rightarrow> bool" where
  "HasTypedRules policies path0 =
     (let path = NormalizePath path0 in
      list_ex (\<lambda>(_, rule). (rr_FileTypes rule \<noteq> None \<or> rr_Visibility rule \<noteq> []) \<and> ruleMatches rule path)
        (flat_rules policies))"

definition to_ft_rule :: "string \<Rightarrow> rbac_rule \<Rightarrow> ft_rule" where
  "to_ft_rule pid rule =
     \<lparr>ftr_PolicyID = pid, ftr_Path = NormalizePath (rr_Path rule), ftr_Capabilities = rr_Capabilities rule,
      ftr_FileTypes = rr_FileTypes rule, ftr_Visibility = rr_Visibility rule\<rparr>"

definition compileTyped :: "unicode_tables \<Rightarrow> policy list \<Rightarrow> string \<Rightarrow> ft_filter option" where
  "compileTyped U policies path =
     (let covering = filter (\<lambda>(_, rule). ruleMatches rule path) (flat_rules policies) in
      if list_ex (\<lambda>(_, rule). \<not> ValidPath (rr_Path rule)) covering then None
      else (case Context_Compile U \<lparr>ctx_Version = 1, ctx_Rules = map (\<lambda>(pid, rule). to_ft_rule pid rule) covering\<rparr> of
              Inl _ \<Rightarrow> None
            | Inr f \<Rightarrow> if ValidResourcePath path then Some f else None))"

definition matchingPolicyIDs :: "policy list \<Rightarrow> string \<Rightarrow> string list" where
  "matchingPolicyIDs policies path =
     sorted_keys (map fst (filter (\<lambda>(_, rule). ruleMatches rule path) (flat_rules policies)))"

definition EvaluateTyped :: "unicode_tables \<Rightarrow> policy list \<Rightarrow> string \<Rightarrow> string \<Rightarrow> entry_mode \<Rightarrow> decision" where
  "EvaluateTyped U policies path0 capability mode =
     (let path = NormalizePath path0 in
      if \<not> HasTypedRules policies path then rbac_Evaluate U policies path capability
      else (case compileTyped U policies path of
              None \<Rightarrow> rbac_Evaluate U policies path capability
            | Some f \<Rightarrow>
                (let file = Filter_Evaluate U (Some f) path capability ''file'';
                     directory = Filter_Evaluate U (Some f) path capability ''directory'';
                     (allowed, denied) =
                       (if mode = NodeFiltered
                        then (ftd_Allowed file \<or> ftd_Allowed directory, ftd_Denied file \<and> ftd_Denied directory)
                        else (ftd_Allowed file \<and> ftd_Allowed directory, ftd_Denied file \<or> ftd_Denied directory));
                     allowed' = (if denied then False else allowed)
                 in \<lparr>dec_NeedsApproval = allowed' \<and> approvalMarked U policies path capability,
                     dec_Allowed = allowed', dec_Denied = denied, dec_PolicyIDs = matchingPolicyIDs policies path,
                     dec_Path = path, dec_Capability = capability\<rparr>)))"

record entry_decision =
  ed_Decision :: decision
  ed_Visibility :: string
  ed_Typed :: bool

definition EvaluateEntry :: "unicode_tables \<Rightarrow> policy list \<Rightarrow> string \<Rightarrow> string \<Rightarrow> string \<Rightarrow> entry_decision" where
  "EvaluateEntry U policies path0 capability entryType =
     (let path = NormalizePath path0 in
      if \<not> HasTypedRules policies path
      then \<lparr>ed_Decision = rbac_Evaluate U policies path capability, ed_Visibility = [], ed_Typed = False\<rparr>
      else (case compileTyped U policies path of
              None \<Rightarrow> \<lparr>ed_Decision = rbac_Evaluate U policies path capability, ed_Visibility = [], ed_Typed = True\<rparr>
            | Some f \<Rightarrow>
                (let result = Filter_Evaluate U (Some f) path capability entryType;
                     allowed = (ftd_Allowed result \<and> \<not> ftd_Denied result)
                 in \<lparr>ed_Decision =
                       \<lparr>dec_NeedsApproval = allowed \<and> approvalMarked U policies path capability,
                        dec_Allowed = allowed, dec_Denied = ftd_Denied result,
                        dec_PolicyIDs = matchingPolicyIDs policies path, dec_Path = path, dec_Capability = capability\<rparr>,
                     ed_Visibility = (if ftd_Restricted result \<and> \<not> allowed then ftd_Visibility result else []),
                     ed_Typed = True\<rparr>)))"


subsection \<open>Normalised paths\<close>

lemma NormalizePath_slash_ends:
  "NormalizePath v = [] \<or> hd (NormalizePath v) \<noteq> slash \<and> last (NormalizePath v) \<noteq> slash"
proof -
  let ?t = "trim_byte slash (TrimSpace v)"
  have ends: "?t = [] \<or> hd ?t \<noteq> slash \<and> last ?t \<noteq> slash"
    using trim_byte_hd trim_byte_last by blast
  show ?thesis
  proof (cases "prefix ''workers/'' ?t")
    case True
    then obtain x where x: "?t = ''workers/'' @ x" by (auto simp: prefix_def)
    with ends have "x \<noteq> []" "last x \<noteq> slash" by (auto split: if_splits)
    then have "NormalizePath v = ''nodes/'' @ x"
      using x by (auto simp: NormalizePath_def Let_def trim_prefix_def)
    with \<open>x \<noteq> []\<close> \<open>last x \<noteq> slash\<close> show ?thesis by simp
  qed (use ends in \<open>auto simp: NormalizePath_def Let_def\<close>)
qed

lemma trim_NormalizePath [simp]: "trim_byte slash (NormalizePath v) = NormalizePath v"
  by (rule trim_byte_fixed) (use NormalizePath_slash_ends in blast)

text \<open>A path whose first and last bytes are neither spaces nor slashes is its own normal form.\<close>

lemma NormalizePath_fixed:
  assumes "v = [] \<or> \<not> space_byte (hd v) \<and> \<not> space_byte (last v) \<and> hd v \<notin> {slash, CHR ''w''} \<and> last v \<noteq> slash"
  shows "NormalizePath v = v"
proof -
  have t: "trim_byte slash (TrimSpace v) = v"
    using assms by (auto simp: TrimSpace_fixed trim_byte_fixed)
  have "v \<noteq> ''workers''" "\<not> prefix ''workers/'' v"
    using assms by (auto simp: prefix_def)
  with t show ?thesis by (simp add: NormalizePath_def)
qed

lemma rbac_match_nonneg: "rbac_match p v = Some s \<Longrightarrow> 0 \<le> s"
  by (simp add: rbac_match_def match_segments_nonneg)

lemma matchPath_NormalizePath:
  "NormalizePath path = path \<Longrightarrow> matchPath (NormalizePath pattern) path = rbac_match pattern path"
  using trim_NormalizePath [of path] by (simp add: matchPath_def rbac_match_def)

subsection \<open>What the path evaluation decides\<close>

definition r_denies :: "unicode_tables \<Rightarrow> rbac_rule \<Rightarrow> bool" where
  "r_denies U rule \<longleftrightarrow> ''deny'' \<in> set (capabilitySet U (rr_Capabilities rule))"

text \<open>
  The specificity with which a rule grants the capability on the path: untyped rules without
  \<open>deny\<close> only.
\<close>

definition grant_score :: "unicode_tables \<Rightarrow> string \<Rightarrow> string \<Rightarrow> string \<times> rbac_rule \<Rightarrow> int option" where
  "grant_score U path capability pr =
     (let rule = snd pr in
      if rr_FileTypes rule = None \<and> \<not> r_denies U rule
         \<and> rbac_grants (capabilitySet U (rr_Capabilities rule)) capability
      then rbac_match (rr_Path rule) path else None)"

text \<open>The grants of the capability that no more specific grant beats, and the covering denials.\<close>

abbreviation winners :: "unicode_tables \<Rightarrow> policy list \<Rightarrow> string \<Rightarrow> string \<Rightarrow> (string \<times> rbac_rule) set" where
  "winners U policies path capability \<equiv> unbeaten (grant_score U path capability) (set (flat_rules policies))"

definition denials :: "unicode_tables \<Rightarrow> policy list \<Rightarrow> string \<Rightarrow> (string \<times> rbac_rule) set" where
  "denials U policies path = {(pid, r) \<in> set (flat_rules policies). ruleMatches r path \<and> r_denies U r}"

lemma grant_score_nonneg: "grant_score U path capability x = Some s \<Longrightarrow> 0 \<le> s"
  by (auto simp: grant_score_def Let_def rbac_match_nonneg split: if_splits)

abbreviation eval_flat :: "unicode_tables \<Rightarrow> string \<Rightarrow> string \<Rightarrow> eval_state \<Rightarrow> (string \<times> rbac_rule) list \<Rightarrow> eval_state" where
  "eval_flat U path capability \<equiv> foldl (\<lambda>st (pid, rule). eval_rule U path capability pid st rule)"

text \<open>The loop simulates the generic search for the best entries.\<close>

definition eval_sim :: "unicode_tables \<Rightarrow> string \<Rightarrow> eval_state \<Rightarrow> int \<times> (string \<times> rbac_rule) list \<Rightarrow> bool" where
  "eval_sim U capability st b \<longleftrightarrow>
     ev_bestSpecificity st = fst b \<and> set (ev_allowedPolicies st) = fst ` set (snd b)
     \<and> (ev_needsApproval st \<longleftrightarrow> (\<exists>x\<in>set (snd b). requiresApproval U (snd x) capability))"

lemma eval_rule_sim:
  "eval_sim U capability st b \<Longrightarrow>
   eval_sim U capability (eval_rule U path capability pid st r) (best_step (grant_score U path capability) b (pid, r))"
  by (cases "rbac_match (rr_Path r) path")
     (auto simp: eval_rule_def eval_sim_def best_step_def grant_score_def r_denies_def Let_def)

lemma eval_flat_sim:
  "eval_sim U capability st b \<Longrightarrow>
   eval_sim U capability (eval_flat U path capability st rules) (foldl (best_step (grant_score U path capability)) b rules)"
proof (induction rules arbitrary: st b)
  case (Cons x rules)
  obtain pid r where x: "x = (pid, r)" by (cases x)
  show ?case using Cons.IH [OF eval_rule_sim [OF Cons.prems]] by (simp add: x)
qed simp

lemma eval_rule_denied:
  "set (ev_deniedPolicies (eval_rule U path capability pid st r)) =
     set (ev_deniedPolicies st) \<union> (if ruleMatches r path \<and> r_denies U r then {pid} else {})"
  by (auto simp: eval_rule_def ruleMatches_def r_denies_def Let_def split: option.splits)

lemma eval_flat_denied:
  "set (ev_deniedPolicies (eval_flat U path capability st rules)) =
     set (ev_deniedPolicies st) \<union> fst ` {(pid, r) \<in> set rules. ruleMatches r path \<and> r_denies U r}"
proof (induction rules arbitrary: st)
  case (Cons x rules)
  obtain pid r where x: "x = (pid, r)" by (cases x)
  show ?case by (force simp: x Cons.IH eval_rule_denied split: if_splits)
qed simp

lemma eval_policy_flat:
  "foldl (eval_rule U path capability i) st rs = eval_flat U path capability st (map (Pair i) rs)"
  by (induction rs arbitrary: st) simp_all

lemma eval_policies_flat:
  "foldl (eval_policy U path capability) st policies = eval_flat U path capability st (flat_rules policies)"
  by (induction policies arbitrary: st) (simp_all add: flat_rules_def eval_policy_def eval_policy_flat)

lemma eval_policies_facts:
  defines "st \<equiv> \<lambda>U path capability policies. foldl (eval_policy U path capability) eval_init policies"
  shows "set (ev_deniedPolicies (st U path capability policies)) = fst ` denials U policies path"
    and "set (ev_allowedPolicies (st U path capability policies)) = fst ` winners U policies path capability"
    and "ev_needsApproval (st U path capability policies)
           \<longleftrightarrow> (\<exists>x\<in>winners U policies path capability. requiresApproval U (snd x) capability)"
proof -
  have "eval_sim U capability eval_init (-1, [])" by (simp add: eval_sim_def eval_init_def)
  from eval_flat_sim [OF this, of path "flat_rules policies"]
  show "set (ev_allowedPolicies (st U path capability policies)) = fst ` winners U policies path capability"
    and "ev_needsApproval (st U path capability policies)
           \<longleftrightarrow> (\<exists>x\<in>winners U policies path capability. requiresApproval U (snd x) capability)"
    by (simp_all add: st_def eval_policies_flat eval_sim_def set_best_of grant_score_nonneg)
  show "set (ev_deniedPolicies (st U path capability policies)) = fst ` denials U policies path"
    by (simp add: st_def eval_policies_flat eval_flat_denied denials_def eval_init_def)
qed


lemma winners_empty_iff:
  "winners U policies path capability = {} \<longleftrightarrow> (\<forall>x\<in>set (flat_rules policies). grant_score U path capability x = None)"
  by (simp add: unbeaten_empty_iff)

lemma set_empty_image: "set xs = f ` X \<Longrightarrow> xs = [] \<longleftrightarrow> X = {}"
  by (cases xs) auto

lemma sorted_keys_of_set: "set xs = X \<Longrightarrow> sorted_keys xs = sorted_list_of_set X"
  by (auto intro!: distinct_sorted_eqI)

text \<open>The decision as a function of the covering denials and the unbeaten grants.\<close>

lemma rbac_Evaluate_eq:
  "rbac_Evaluate U policies path capability =
     (let p = NormalizePath path; c = ToLower U (TrimSpace capability);
          D = denials U policies p; W = winners U policies p c in
      \<lparr>dec_NeedsApproval = (D = {} \<and> (\<exists>x\<in>W. requiresApproval U (snd x) c)),
       dec_Allowed = (D = {} \<and> W \<noteq> {}), dec_Denied = (D \<noteq> {}),
       dec_PolicyIDs = sorted_list_of_set (fst ` (if D = {} then W else D)),
       dec_Path = p, dec_Capability = c\<rparr>)"
proof -
  let ?p = "NormalizePath path" and ?c = "ToLower U (TrimSpace capability)"
  let ?st = "foldl (eval_policy U ?p ?c) eval_init policies"
  note f = eval_policies_facts [of U ?p ?c policies]
  have "ev_deniedPolicies ?st = [] \<longleftrightarrow> denials U policies ?p = {}"
    and "ev_allowedPolicies ?st = [] \<longleftrightarrow> winners U policies ?p ?c = {}"
    using f(1,2) by (simp_all add: set_empty_image)
  then show ?thesis
    by (auto simp: rbac_Evaluate_def Let_def f sorted_keys_of_set)
qed

lemma rbac_Evaluate_Denied:
  "dec_Denied (rbac_Evaluate U policies path capability)
     \<longleftrightarrow> (\<exists>(pid, r)\<in>set (flat_rules policies). ruleMatches r (NormalizePath path) \<and> r_denies U r)"
  by (auto simp: rbac_Evaluate_eq Let_def denials_def)

lemma rbac_Evaluate_Allowed:
  "dec_Allowed (rbac_Evaluate U policies path capability)
     \<longleftrightarrow> \<not> dec_Denied (rbac_Evaluate U policies path capability)
         \<and> (\<exists>x\<in>set (flat_rules policies). grant_score U (NormalizePath path) (ToLower U (TrimSpace capability)) x \<noteq> None)"
  by (auto simp: rbac_Evaluate_eq Let_def winners_empty_iff)

text \<open>A decision depends on the rules that cover the path only, and neither on their order nor on repetition.\<close>

abbreviation covering :: "policy list \<Rightarrow> string \<Rightarrow> (string \<times> rbac_rule) set" where
  "covering policies path \<equiv> {x \<in> set (flat_rules policies). ruleMatches (snd x) path}"

lemma unbeaten_cong:
  "{x \<in> X. score x \<noteq> None} = {x \<in> Y. score x \<noteq> None} \<Longrightarrow> unbeaten score X = unbeaten score Y"
  by (fastforce simp: unbeaten_def)

lemma winners_covering:
  "winners U policies path capability = unbeaten (grant_score U path capability) (covering policies path)"
  by (rule unbeaten_cong) (auto simp: grant_score_def ruleMatches_def Let_def split: if_splits)

lemma denials_covering: "denials U policies path = {x \<in> covering policies path. r_denies U (snd x)}"
  by (auto simp: denials_def)

lemma rbac_Evaluate_covering:
  "covering ps (NormalizePath path) = covering qs (NormalizePath path) \<Longrightarrow>
   rbac_Evaluate U ps path capability = rbac_Evaluate U qs path capability"
  unfolding rbac_Evaluate_eq Let_def winners_covering denials_covering by (simp only:)

subsection \<open>Subtrees\<close>

text \<open>The path lies at or below the scope, as strings.\<close>

definition at_or_below :: "string \<Rightarrow> string \<Rightarrow> bool" where
  "at_or_below path scope \<longleftrightarrow> path = scope \<or> prefix (scope @ ''/'') path"

lemma at_or_below_split:
  "at_or_below path scope \<Longrightarrow> \<exists>rest. split_byte slash path = split_byte slash scope @ rest"
  by (auto simp: at_or_below_def prefix_def split_byte_snoc_sep)

lemma score_parts_take: "length ps \<le> length ts \<Longrightarrow> score_parts ps (ts @ us) = score_parts ps ts"
  by (induction ps ts rule: score_parts.induct) auto

lemma score_parts_agree: "score_parts ps (ss @ rest) = Some n \<Longrightarrow> shared_agree ps ss"
  by (induction ps ss arbitrary: n rule: shared_agree.induct) (auto split: if_splits)

lemma score_parts_self: "score_parts ps ps \<noteq> None"
  by (induction ps) auto

lemma shared_agree_extend:
  "\<lbrakk>shared_agree ps ss; ''*'' \<notin> set ss; length ss \<le> length ps\<rbrakk> \<Longrightarrow> score_parts ps (ss @ drop (length ss) ps) \<noteq> None"
proof (induction ps arbitrary: ss)
  case (Cons p ps)
  show ?case
  proof (cases ss)
    case Nil
    then show ?thesis using score_parts_self [of "p # ps"] by simp
  next
    case (Cons t ts)
    with Cons.prems Cons.IH [of ts] show ?thesis by auto
  qed
qed simp

lemma shared_agree_score:
  "\<lbrakk>shared_agree ps ss; ''*'' \<notin> set ss; length ps \<le> length ss\<rbrakk> \<Longrightarrow> score_parts ps ss \<noteq> None"
  by (induction ps ss rule: shared_agree.induct) auto

text \<open>A rule whose pattern matches anything at or below the scope reaches it.\<close>

lemma match_reaches: "match_segments rs (ss @ rest) \<noteq> None \<Longrightarrow> denyReachesScope rs ss"
  by (auto simp: match_segments_def denyReachesScope_def Let_def dest: score_parts_agree split: if_splits)

text \<open>Conversely a rule that reaches a scope without wildcards matches something at or below it.\<close>

lemma reaches_match_recursive:
  assumes "last rs = recursive_seg" "denyReachesScope rs ss" and "''*'' \<notin> set ss"
  shows "\<exists>rest. match_segments rs (ss @ rest) \<noteq> None"
proof -
  have ag: "shared_agree (butlast rs) ss"
    using assms by (simp add: denyReachesScope_def split: if_splits)
  show ?thesis
  proof (cases "length ss \<le> length (butlast rs)")
    case True
    from shared_agree_extend [OF ag assms(3) True] True
    have "match_segments rs (ss @ drop (length ss) (butlast rs)) \<noteq> None"
      by (auto simp: match_segments_def assms(1) Let_def)
    then show ?thesis by blast
  next
    case False
    with shared_agree_score [OF ag assms(3)] have "match_segments rs (ss @ []) \<noteq> None"
      by (auto simp: match_segments_def assms(1) Let_def)
    then show ?thesis by blast
  qed
qed

lemma reaches_match:
  assumes "denyReachesScope rs ss" and "''*'' \<notin> set ss"
  shows "\<exists>rest. match_segments rs (ss @ rest) \<noteq> None"
proof (cases "last rs = recursive_seg")
  case True
  from this assms show ?thesis by (rule reaches_match_recursive)
next
  case False
  then have ag: "shared_agree rs ss" and len: "length ss \<le> length rs"
    using assms(1) by (simp_all add: denyReachesScope_def split: if_splits)
  have "match_segments rs (ss @ drop (length ss) rs) \<noteq> None"
    using shared_agree_extend [OF ag assms(2) len] len False by (simp add: match_segments_def)
  then show ?thesis by blast
qed

lemma shared_agree_append: "length ps = length ss \<Longrightarrow> shared_agree (ps @ p # ps') (ss @ s # ss') \<Longrightarrow> p = ''*'' \<or> s = ''*'' \<or> p = s"
  by (induction ps ss rule: list_induct2) auto

lemma match_self: "match_segments ps ps \<noteq> None"
  using score_parts_self [of ps] score_parts_self [of "butlast ps"] score_parts_take [of "butlast ps" "butlast ps" "[last ps]"]
  by (cases ps rule: rev_cases) (auto simp: match_segments_def Let_def)

lemma ruleMatches_reaches:
  assumes "at_or_below path scope" "NormalizePath path = path" "NormalizePath scope = scope" "ruleMatches rule path"
  shows "denyReachesScope (segs (rr_Path rule)) (segs scope)"
proof -
  obtain rest where "split_byte slash path = split_byte slash scope @ rest"
    using at_or_below_split [OF assms(1)] by blast
  with assms(4) have "match_segments (segs (rr_Path rule)) (split_byte slash scope @ rest) \<noteq> None"
    by (simp add: ruleMatches_def rbac_match_def assms(2))
  then show ?thesis unfolding assms(3) by (rule match_reaches)
qed


subsection \<open>Compiled rules\<close>

text \<open>What the compiler of typed rules keeps of the policy rule it was given.\<close>

definition compiled_from :: "unicode_tables \<Rightarrow> string \<times> rbac_rule \<Rightarrow> compiled_rule \<Rightarrow> bool" where
  "compiled_from U pr c \<longleftrightarrow>
     cr_caps c = capabilitySet U (rr_Capabilities (snd pr))
     \<and> set (cr_caps c) \<subseteq> set validCaps
     \<and> (cr_matcher c = None \<longleftrightarrow> rr_FileTypes (snd pr) = None)
     \<and> ftr_Path (cr_rule c) = NormalizePath (rr_Path (snd pr))"

lemma compile_caps_Inr:
  "\<lbrakk>compile_caps U caps vs = Inr cs; distinct caps; set caps \<subseteq> set validCaps\<rbrakk> \<Longrightarrow>
   cs = caps @ map (\<lambda>v. ToLower U (TrimSpace v)) vs \<and> distinct cs \<and> set cs \<subseteq> set validCaps"
proof (induction vs arbitrary: caps)
  case (Cons v vs)
  let ?c = "ToLower U (TrimSpace v)"
  have ok: "?c \<in> set validCaps" "?c \<notin> set caps" and rest: "compile_caps U (caps @ [?c]) vs = Inr cs"
    using Cons.prems(1) by (auto simp: Let_def split: if_splits)
  have "distinct (caps @ [?c])" "set (caps @ [?c]) \<subseteq> set validCaps" using Cons.prems(2,3) ok by auto
  note ih = Cons.IH [OF rest this]
  from ih have "cs = caps @ map (\<lambda>v. ToLower U (TrimSpace v)) (v # vs)" by simp
  with ih show ?case by blast
qed simp

lemma compile_rule_compiled:
  assumes "compile_rule U (to_ft_rule pid rule) = Inr c"
  shows "compiled_from U (pid, rule) c"
proof -
  obtain caps where caps: "compile_caps U [] (rr_Capabilities rule) = Inr caps" "cr_caps c = caps"
    and c: "cr_matcher c = None \<longleftrightarrow> rr_FileTypes rule = None" "ftr_Path (cr_rule c) = NormalizePath (rr_Path rule)"
    using assms
    by (auto simp: compile_rule_def to_ft_rule_def Let_def split: if_splits option.splits)
  from compile_caps_Inr [OF caps(1)]
  have "caps = map (\<lambda>v. ToLower U (TrimSpace v)) (rr_Capabilities rule)" and d: "distinct caps" "set caps \<subseteq> set validCaps"
    by auto
  then have "capabilitySet U (rr_Capabilities rule) = caps"
    unfolding capabilitySet_def by (metis distinct_remdups_id)
  with d c caps(2) show ?thesis by (simp add: compiled_from_def)
qed

lemma compile_rules_compiled:
  "compile_rules U (map (\<lambda>(pid, rule). to_ft_rule pid rule) rs) = Inr f \<Longrightarrow> list_all2 (compiled_from U) rs f"
  by (induction rs arbitrary: f) (auto simp: compile_rule_compiled)

lemma Context_Compile_compiled:
  "Context_Compile U \<lparr>ctx_Version = 1, ctx_Rules = map (\<lambda>(pid, rule). to_ft_rule pid rule) rs\<rparr> = Inr f \<Longrightarrow>
   list_all2 (compiled_from U) rs f"
  by (auto simp: Context_Compile_def compile_rules_compiled split: if_splits)

lemma compiled_covers:
  "\<lbrakk>compiled_from U pr c; NormalizePath path = path\<rbrakk> \<Longrightarrow> rule_covers path c \<longleftrightarrow> ruleMatches (snd pr) path"
  by (simp add: compiled_from_def rule_covers_def ruleMatches_def matchPath_NormalizePath)

lemma compiled_untyped_denies:
  assumes "compiled_from U pr c" "NormalizePath path = path" "rr_FileTypes (snd pr) = None"
  shows "rule_denies U path capability entryType c \<longleftrightarrow> ruleMatches (snd pr) path \<and> r_denies U (snd pr)"
  using assms compiled_covers [OF assms(1,2)]
  by (simp add: rule_denies_def compiled_from_def r_denies_def)

lemma compiled_denies_imp:
  assumes "compiled_from U pr c" "NormalizePath path = path" "rule_denies U path capability entryType c"
  shows "ruleMatches (snd pr) path \<and> r_denies U (snd pr)"
  using assms compiled_covers [OF assms(1,2)]
  by (simp add: rule_denies_def compiled_from_def r_denies_def)

lemma compiled_untyped_allows:
  assumes "compiled_from U pr c" "NormalizePath path = path" "rr_FileTypes (snd pr) = None"
  shows "rule_allows U path capability entryType c \<longleftrightarrow> grant_score U path capability pr \<noteq> None"
  using assms compiled_covers [OF assms(1,2)]
  by (auto simp: rule_allows_def type_selected_def compiled_from_def r_denies_def grant_score_def
      Let_def ft_grants_def rbac_grants_def ruleMatches_def)

lemma list_all2_bex:
  assumes "list_all2 R xs ys" and "\<And>x y. R x y \<Longrightarrow> x \<in> set xs \<Longrightarrow> P x \<longleftrightarrow> Q y"
  shows "(\<exists>y\<in>set ys. Q y) \<longleftrightarrow> (\<exists>x\<in>set xs. P x)"
  using assms by (induction rule: list_all2_induct) auto

lemma list_all2_left: "\<lbrakk>list_all2 R xs ys; x \<in> set xs\<rbrakk> \<Longrightarrow> \<exists>y\<in>set ys. R x y"
  by (induction rule: list_all2_induct) auto

lemma list_all2_right: "\<lbrakk>list_all2 R xs ys; y \<in> set ys\<rbrakk> \<Longrightarrow> \<exists>x\<in>set xs. R x y"
  by (induction rule: list_all2_induct) auto

lemma resource_segment_part: "resource_segment_ok = resource_part_ok"
  by (auto simp: fun_eq_iff resource_segment_ok_def resource_part_ok_def recursive_seg_def resource_rune_ok_def
      list_all_iff)

lemma validResource_ValidResourcePath:
  "NormalizePath v = v \<Longrightarrow> validResource v \<longleftrightarrow> ValidResourcePath v \<and> valid_utf8 v"
  using trim_NormalizePath [of v] by (auto simp: validResource_def ValidResourcePath_def resource_segment_part)

lemma rule_segments_parts: "rule_segments_ok ps = pattern_parts_ok ps"
proof -
  have "rule_rune_ok = pattern_rune_ok" by (auto simp: fun_eq_iff rule_rune_ok_def pattern_rune_ok_def)
  then show ?thesis by (induction ps) (auto simp: recursive_seg_def)
qed

lemma compileTyped_Some:
  assumes "compileTyped U policies path = Some f"
  shows "list_all2 (compiled_from U) (filter (\<lambda>(_, rule). ruleMatches rule path) (flat_rules policies)) f"
    and "ValidResourcePath path"
  using assms Context_Compile_compiled
  by (auto simp: compileTyped_def Let_def split: if_splits sum.splits)

lemma approvalMarked_winners:
  "approvalMarked U policies path capability
     \<longleftrightarrow> (\<exists>x\<in>winners U policies path capability. requiresApproval U (snd x) capability)"
proof -
  let ?sim = "\<lambda>(st :: int \<times> bool) (b :: int \<times> (string \<times> rbac_rule) list).
                fst st = fst b \<and> (snd st \<longleftrightarrow> (\<exists>x\<in>set (snd b). requiresApproval U (snd x) capability))"
  let ?score = "grant_score U path capability"
  have step: "?sim st b \<Longrightarrow> ?sim (mark_rule U path capability st r) (best_step ?score b (pid, r))" for st b r pid
    by (cases "rbac_match (rr_Path r) path")
       (auto simp: mark_rule_def best_step_def grant_score_def r_denies_def Let_def)
  have fold: "?sim st b \<Longrightarrow> ?sim (foldl (mark_rule U path capability) st rs) (foldl (best_step ?score) b (map (Pair pid) rs))"
    for st b rs pid
  proof (induction rs arbitrary: st b)
    case (Cons r rs)
    from Cons.IH [OF step [OF Cons.prems]] show ?case by simp
  qed simp
  have "?sim st b \<Longrightarrow> ?sim (foldl (\<lambda>st p. foldl (mark_rule U path capability) st (pol_Rules p)) st policies)
                          (foldl (best_step ?score) b (flat_rules policies))" for st b
  proof (induction policies arbitrary: st b)
    case (Cons p ps)
    from Cons.IH [OF fold [OF Cons.prems]] show ?case by (simp add: flat_rules_def)
  qed (simp add: flat_rules_def)
  from this [of "(-1, False)" "(-1, [])"] show ?thesis
    by (simp add: approvalMarked_def set_best_of grant_score_nonneg)
qed


subsection \<open>Compatibility rules\<close>

lemma flat_rules_Expand:
  "flat_rules (ExpandCompatibilityRules ps) = concat (map (\<lambda>(pid, rule). map (Pair pid) (expand_rule rule)) (flat_rules ps))"
proof (induction ps)
  case (Cons p ps)
  have "map (Pair i) (concat (map expand_rule rs)) = concat (map (\<lambda>(pid, rule). map (Pair pid) (expand_rule rule)) (map (Pair i) rs))"
    for i rs by (induction rs) auto
  with Cons show ?case by (simp add: flat_rules_def ExpandCompatibilityRules_def)
qed (simp add: flat_rules_def ExpandCompatibilityRules_def)

text \<open>The published form of a mount rule has the same segments and the recursive one after them.\<close>

lemma mount_rule_segs:
  assumes "isMountScopedFileRule path"
  shows "segs (NormalizePath path @ slash # recursive_seg) = segs path @ [recursive_seg]"
proof -
  let ?n = "NormalizePath path" and ?v = "NormalizePath path @ slash # recursive_seg"
  obtain x ps where x: "segs path = x # ps" by (cases "segs path") auto
  with assms have "x = ''nodes''" "length ps = 4" by (auto simp: isMountScopedFileRule_def Let_def)
  with x have ps: "segs path = ''nodes'' # ps" and "ps \<noteq> []" by auto
  have "?n = join_byte slash (''nodes'' # ps)" by (simp flip: ps)
  with \<open>ps \<noteq> []\<close> obtain t where "?n = CHR ''n'' # t" by (cases ps) auto
  then have "NormalizePath ?v = ?v"
    by (intro NormalizePath_fixed) (simp add: recursive_seg_def space_byte_def space_seqs_def)
  then show ?thesis by (simp add: split_byte_snoc_sep recursive_seg_def)
qed

text \<open>It covers exactly the paths whose first five segments the mount rule matches.\<close>

lemma match_recursive:
  "match_segments (ps @ [recursive_seg]) ts \<noteq> None \<longleftrightarrow> length ps \<le> length ts \<and> score_parts ps ts \<noteq> None"
  by (auto simp: match_segments_def Let_def)

lemma mount_rule_covers:
  assumes mount: "isMountScopedFileRule (rr_Path rule)" and last: "last (segs (rr_Path rule)) \<noteq> recursive_seg"
  shows "ruleMatches (rule\<lparr>rr_Path := NormalizePath (rr_Path rule) @ ''/'' @ recursive_seg\<rparr>) path
           \<longleftrightarrow> match_segments (segs (rr_Path rule)) (take 5 (segs path)) \<noteq> None"
proof -
  let ?ps = "segs (rr_Path rule)" and ?ts = "segs path"
  have len: "length ?ps = 5" using mount by (simp add: isMountScopedFileRule_def Let_def)
  have "ruleMatches (rule\<lparr>rr_Path := NormalizePath (rr_Path rule) @ ''/'' @ recursive_seg\<rparr>) path
          \<longleftrightarrow> match_segments (?ps @ [recursive_seg]) ?ts \<noteq> None"
    by (simp add: ruleMatches_def rbac_match_def mount_rule_segs [OF mount])
  also have "\<dots> \<longleftrightarrow> 5 \<le> length ?ts \<and> score_parts ?ps ?ts \<noteq> None"
    by (simp only: match_recursive len)
  also have "\<dots> \<longleftrightarrow> 5 \<le> length ?ts \<and> score_parts ?ps (take 5 ?ts) \<noteq> None"
    using score_parts_take [of ?ps "take 5 ?ts" "drop 5 ?ts"] len by (cases "5 \<le> length ?ts") simp_all
  also have "\<dots> \<longleftrightarrow> match_segments ?ps (take 5 ?ts) \<noteq> None"
    using last len by (auto simp: match_segments_def)
  finally show ?thesis .
qed

text \<open>A five-segment rule that is recursive already covers what its published form covers.\<close>

lemma mount_rule_expanded:
  assumes mount: "isMountScopedFileRule (rr_Path rule)"
  shows "ruleMatches rule path \<or> ruleMatches (rule\<lparr>rr_Path := NormalizePath (rr_Path rule) @ ''/'' @ recursive_seg\<rparr>) path
     \<longleftrightarrow> ruleMatches rule path \<or> match_segments (segs (rr_Path rule)) (take 5 (segs path)) \<noteq> None"
proof (cases "last (segs (rr_Path rule)) = recursive_seg")
  case False
  then show ?thesis by (simp only: mount_rule_covers [OF mount False])
next
  case True
  let ?ps = "segs (rr_Path rule)" and ?ts = "segs path"
  obtain qs where qs: "?ps = qs @ [recursive_seg]" using True by (metis append_butlast_last_id split_byte_nonempty)
  have len: "length qs = 4" using mount qs by (simp add: isMountScopedFileRule_def Let_def)
  have rule: "ruleMatches rule path \<longleftrightarrow> 4 \<le> length ?ts \<and> score_parts qs ?ts \<noteq> None"
    by (simp only: ruleMatches_def rbac_match_def qs match_recursive len)
  have "ruleMatches rule path" if "match_segments ?ps (take 5 ?ts) \<noteq> None"
    using that [unfolded qs match_recursive] score_parts_take [of qs "take 5 ?ts" "drop 5 ?ts"] len
    by (simp add: rule del: not_None_eq)
  moreover have "score_parts (qs @ [recursive_seg]) ts \<noteq> None \<Longrightarrow> score_parts qs ts \<noteq> None" for ts
    by (induction qs ts rule: score_parts.induct) (auto split: if_splits)
  then have "ruleMatches rule path" if "ruleMatches (rule\<lparr>rr_Path := NormalizePath (rr_Path rule) @ ''/'' @ recursive_seg\<rparr>) path"
    using that match_recursive [of ?ps ?ts] unfolding rule
    by (simp add: ruleMatches_def rbac_match_def mount_rule_segs [OF mount] qs len del: not_None_eq)
  ultimately show ?thesis by blast
qed

lemma expand_rule_set:
  "r' \<in> set (expand_rule rule) \<longleftrightarrow> r' = rule
     \<or> isMountScopedFileRule (rr_Path rule) \<and> r' = rule\<lparr>rr_Path := NormalizePath (rr_Path rule) @ ''/'' @ recursive_seg\<rparr>"
  by (auto simp: expand_rule_def)

lemma r_denies_path [simp]: "r_denies U (rule\<lparr>rr_Path := p\<rparr>) = r_denies U rule"
  by (simp add: r_denies_def)

lemma Expand_bex:
  "(\<exists>x\<in>set (flat_rules (ExpandCompatibilityRules ps)). P (fst x) (snd x))
     \<longleftrightarrow> (\<exists>(pid, rule)\<in>set (flat_rules ps). \<exists>r'\<in>set (expand_rule rule). P pid r')"
  by (force simp: flat_rules_Expand)


subsection \<open>Properties of the policy evaluation\<close>

definition untyped :: "string \<Rightarrow> string list \<Rightarrow> rbac_rule" where
  "untyped path caps = \<lparr>rr_Path = path, rr_Capabilities = caps, rr_FileTypes = None, rr_Visibility = [], rr_NeedsApproval = []\<rparr>"

definition policy_a :: policy where
  "policy_a = \<lparr>pol_ID = ''a'', pol_Name = ''A'', pol_Rules = [untyped ''nodes/*/files'' [''read''], untyped ''nodes/n/files'' [''deny'']]\<rparr>"

definition policy_b :: policy where
  "policy_b = \<lparr>pol_ID = ''b'', pol_Name = ''B'', pol_Rules = [untyped ''nodes/n/files'' [''read'']]\<rparr>"

text \<open>
  C2: A deny wins over every grant: the path evaluation denies exactly when some rule with the
  capability deny covers the path, allows exactly when none does and an untyped rule grants the
  capability, asks for approval exactly when one of the most specific grants is marked, and names
  the policies of the denials, or else of the most specific grants, in order and each once. A rule that
  does not grant the capability plays no part in this, also when it is the most specific one.
\<close>

theorem Evaluate_decides:
  "let p = NormalizePath path; c = ToLower U (TrimSpace capability); d = rbac_Evaluate U policies path capability in
     (dec_Denied d \<longleftrightarrow> (\<exists>pid r. (pid, r) \<in> set (flat_rules policies) \<and> ruleMatches r p \<and> r_denies U r))
   \<and> (dec_Allowed d \<longleftrightarrow> \<not> dec_Denied d \<and> (\<exists>x. x \<in> winners U policies p c))
   \<and> (dec_NeedsApproval d \<longleftrightarrow> dec_Allowed d \<and> (\<exists>x. x \<in> winners U policies p c \<and> requiresApproval U (snd x) c))
   \<and> set (dec_PolicyIDs d) = fst ` (if dec_Denied d then denials U policies p else winners U policies p c)
   \<and> sorted (dec_PolicyIDs d) \<and> distinct (dec_PolicyIDs d)"
proof -
  have fin: "finite (denials U policies p)" "finite (winners U policies p c)" for p c
    by (auto simp: unbeaten_def denials_def intro!: rev_finite_subset [OF finite_set [of "flat_rules policies"]])
  have dn: "(\<exists>pid r. (pid, r) \<in> set (flat_rules policies) \<and> ruleMatches r p \<and> r_denies U r) \<longleftrightarrow> denials U policies p \<noteq> {}" for p
    by (auto simp: denials_def)
  show ?thesis
    unfolding dn Let_def rbac_Evaluate_eq by (simp add: fin Bex_def del: split_paired_Ex) blast
qed





text \<open>
  C23: The decision is the same for policies that hold the same rules under the same policy
  identifiers, in whatever order and however often: it depends on the set of the rules that
  cover the path alone.
\<close>

theorem Evaluate_order_irrelevant:
  assumes "{x \<in> set (flat_rules ps). ruleMatches (snd x) (NormalizePath path)}
           = {x \<in> set (flat_rules qs). ruleMatches (snd x) (NormalizePath path)}"
  shows "rbac_Evaluate U ps path capability = rbac_Evaluate U qs path capability"
  by (rule rbac_Evaluate_covering) (rule assms)

theorem Evaluate_order_irrelevant_witness:
  "rbac_Evaluate ascii_tables [policy_a, policy_b] ''nodes/n/files'' ''read''
     = rbac_Evaluate ascii_tables [policy_b, policy_a, policy_b] ''nodes/n/files'' ''read''"
  by (rule Evaluate_order_irrelevant) (auto simp: flat_rules_def)

text \<open>
  C6: A refusal anywhere in a subtree refuses the subtree: if the evaluation denies some path at
  or below a scope, for any capability, then DeniesWithin reports the scope. Both names are in
  normal form.
\<close>

theorem DeniesWithin_complete:
  assumes "at_or_below path scope" "NormalizePath path = path" "NormalizePath scope = scope"
    and "dec_Denied (rbac_Evaluate U policies path capability)"
  shows "DeniesWithin U policies scope"
  using assms(4) ruleMatches_reaches [OF assms(1-3)]
  by (force simp: rbac_Evaluate_Denied DeniesWithin_def list_ex_iff r_denies_def assms(2))

theorem DeniesWithin_complete_witness:
  "DeniesWithin ascii_tables [policy_a] ''nodes/n''"
  by (rule DeniesWithin_complete [where path = "''nodes/n/files''" and capability = "''read''"]) code_simp+

text \<open>
  C24: The subtree test refuses nothing else: on a scope without a wildcard segment it reports a
  scope exactly when a rule with the capability deny matches some segments at or below the scope.
\<close>

theorem DeniesWithin_exact:
  assumes "''*'' \<notin> set (segs scope)"
  shows "DeniesWithin U policies scope \<longleftrightarrow>
     (\<exists>pid r rest. (pid, r) \<in> set (flat_rules policies) \<and> r_denies U r
        \<and> match_segments (segs (rr_Path r)) (segs scope @ rest) \<noteq> None)"
  using reaches_match [OF _ assms] match_reaches
  by (fastforce simp: DeniesWithin_def list_ex_iff r_denies_def)

theorem DeniesWithin_exact_witness:
  "\<not> (\<exists>pid r rest. (pid, r) \<in> set (flat_rules [policy_a]) \<and> r_denies ascii_tables r
        \<and> match_segments (segs (rr_Path r)) (segs ''nodes/m'' @ rest) \<noteq> None)"
proof -
  have "''*'' \<notin> set (segs ''nodes/m'')" by code_simp
  moreover have "\<not> DeniesWithin ascii_tables [policy_a] ''nodes/m''" by code_simp
  ultimately show ?thesis by (simp only: DeniesWithin_exact not_False_eq_True)
qed

definition policy_elsewhere :: policy where
  "policy_elsewhere = \<lparr>pol_ID = ''e'', pol_Name = ''E'', pol_Rules = [untyped ''nodes/m/**'' [''deny'']]\<rparr>"

text \<open>The rules that \<open>buildMountAccessContext\<close> keeps.\<close>

definition narrow :: "string \<Rightarrow> policy list \<Rightarrow> policy list" where
  "narrow scope policies = map (\<lambda>p. p\<lparr>pol_Rules := filter (\<lambda>r. RuleTouchesScope (rr_Path r) scope) (pol_Rules p)\<rparr>) policies"

lemma flat_rules_narrow:
  "flat_rules (narrow scope ps) = filter (\<lambda>(_, r). RuleTouchesScope (rr_Path r) scope) (flat_rules ps)"
proof (induction ps)
  case (Cons p ps)
  have "map (Pair i) (filter P rs) = filter (\<lambda>(_, r). P r) (map (Pair i) rs)" for i P and rs :: "rbac_rule list"
    by (induction rs) auto
  with Cons show ?case by (simp add: flat_rules_def narrow_def)
qed (simp add: flat_rules_def narrow_def)

text \<open>
  C20: Rules kept out of a narrowed security context are rules that decide nothing in it: dropping
  every rule that RuleTouchesScope clears leaves the decision on each path at or below the scope
  unchanged. Path and scope are in normal form.
\<close>

theorem RuleTouchesScope_narrowing:
  assumes "at_or_below path scope" "NormalizePath path = path" "NormalizePath scope = scope"
  shows "rbac_Evaluate U (narrow scope policies) path capability = rbac_Evaluate U policies path capability"
proof (rule rbac_Evaluate_covering)
  have "RuleTouchesScope (rr_Path r) scope" if "ruleMatches r path" for r
    using ruleMatches_reaches [OF assms that] by (simp add: RuleTouchesScope_def)
  then show "covering (narrow scope policies) (NormalizePath path) = covering policies (NormalizePath path)"
    by (auto simp: flat_rules_narrow assms(2))
qed

theorem RuleTouchesScope_narrowing_witness:
  "length (flat_rules (narrow ''nodes/n'' [policy_b, policy_elsewhere])) = 1
   \<and> rbac_Evaluate ascii_tables (narrow ''nodes/n'' [policy_b, policy_elsewhere]) ''nodes/n/files'' ''read''
     = rbac_Evaluate ascii_tables [policy_b, policy_elsewhere] ''nodes/n/files'' ''read''"
proof (rule conjI)
  show "rbac_Evaluate ascii_tables (narrow ''nodes/n'' [policy_b, policy_elsewhere]) ''nodes/n/files'' ''read''
     = rbac_Evaluate ascii_tables [policy_b, policy_elsewhere] ''nodes/n/files'' ''read''"
    by (rule RuleTouchesScope_narrowing) code_simp+
qed code_simp

text \<open>
  C21: Publishing a rule that stops at a mount in its recursive form as well never loosens a
  denial, whatever the policies: a path is denied under the expanded policies exactly when it was
  denied before or a five-segment mount rule with the capability deny matches its first five segments.
\<close>

theorem ExpandCompatibilityRules_denies:
  "dec_Denied (rbac_Evaluate U (ExpandCompatibilityRules policies) path capability) \<longleftrightarrow>
     dec_Denied (rbac_Evaluate U policies path capability)
     \<or> list_ex (\<lambda>(_, r). r_denies U r \<and> isMountScopedFileRule (rr_Path r)
          \<and> match_segments (segs (rr_Path r)) (take 5 (segs (NormalizePath path))) \<noteq> None) (flat_rules policies)"
proof -
  let ?P = "\<lambda>r. ruleMatches r (NormalizePath path) \<and> r_denies U r"
  have "dec_Denied (rbac_Evaluate U (ExpandCompatibilityRules policies) path capability)
          \<longleftrightarrow> (\<exists>x\<in>set (flat_rules (ExpandCompatibilityRules policies)). ?P (snd x))"
    by (force simp: rbac_Evaluate_Denied)
  also have "\<dots> \<longleftrightarrow> (\<exists>(pid, rule)\<in>set (flat_rules policies). \<exists>r'\<in>set (expand_rule rule). ?P r')"
    by (rule Expand_bex)
  also have "\<dots> \<longleftrightarrow> dec_Denied (rbac_Evaluate U policies path capability)
     \<or> list_ex (\<lambda>(_, r). r_denies U r \<and> isMountScopedFileRule (rr_Path r)
          \<and> match_segments (segs (rr_Path r)) (take 5 (segs (NormalizePath path))) \<noteq> None) (flat_rules policies)"
    unfolding rbac_Evaluate_Denied Bex_def expand_rule_set list_ex_iff
    using mount_rule_expanded [of _ "NormalizePath path"] by (fastforce simp del: not_None_eq)
  finally show ?thesis .
qed

definition policy_mount :: policy where
  "policy_mount = \<lparr>pol_ID = ''m'', pol_Name = ''M'', pol_Rules =
     [untyped ''nodes/n/files/mounts/m'' [''deny''], untyped ''nodes/**'' [''read'']]\<rparr>"

text \<open>
  C19: The two evaluators agree on the type question: with EveryEntry a path is allowed exactly
  when the entry it names would be allowed whether it is a file or a directory and denied when
  either would be; with NodeFiltered it is allowed when one of them would be and denied only when
  both would be.
\<close>

theorem EvaluateTyped_entries:
  "let file = ed_Decision (EvaluateEntry U policies path capability ''file'');
       directory = ed_Decision (EvaluateEntry U policies path capability ''directory'');
       every = EvaluateTyped U policies path capability EveryEntry;
       filtered = EvaluateTyped U policies path capability NodeFiltered in
   (dec_Allowed every \<longleftrightarrow> dec_Allowed file \<and> dec_Allowed directory)
   \<and> (dec_Denied every \<longleftrightarrow> dec_Denied file \<or> dec_Denied directory)
   \<and> (dec_Allowed filtered \<longleftrightarrow> dec_Allowed file \<or> dec_Allowed directory)
   \<and> (dec_Denied filtered \<longleftrightarrow> dec_Denied file \<and> dec_Denied directory)"
proof -
  have "ftd_Allowed (Filter_Evaluate U f p c t) \<Longrightarrow> \<not> ftd_Denied (Filter_Evaluate U f p c t)" for f p c t
    by (auto simp: Filter_Evaluate_def Let_def split: option.splits if_splits)
  then show ?thesis
    by (auto simp: EvaluateTyped_def EvaluateEntry_def Let_def split: option.splits)
qed

lemma compiled_grant_valid:
  assumes "compiled_from U pr c" "grant_score U path capability pr \<noteq> None"
  shows "capability \<in> set validCaps \<and> capability \<noteq> ''deny''"
proof -
  have "''create'' \<in> set validCaps" "''update'' \<in> set validCaps" by (simp_all add: validCaps_def)
  moreover have "rbac_grants (cr_caps c) capability" "''deny'' \<notin> set (cr_caps c)" "set (cr_caps c) \<subseteq> set validCaps"
    using assms by (simp_all add: compiled_from_def grant_score_def r_denies_def Let_def split: if_splits)
  ultimately show ?thesis by (auto simp: rbac_grants_def)
qed

lemma typed_conservative:
  assumes f: "compileTyped U policies path = Some f" and path: "NormalizePath path = path" "valid_utf8 path"
    and allowed: "dec_Allowed (rbac_Evaluate U policies path capability)"
    and t: "entryType = ''file'' \<or> entryType = ''directory''"
  shows "ftd_Allowed (Filter_Evaluate U (Some f) path capability entryType)
       \<and> \<not> ftd_Denied (Filter_Evaluate U (Some f) path capability entryType)"
proof -
  let ?c = "ToLower U (TrimSpace capability)"
  let ?rs = "filter (\<lambda>(_, rule). ruleMatches rule path) (flat_rules policies)"
  note cf = compileTyped_Some [OF f]
  have nodeny: "\<not> r_denies U (snd pr)" if "pr \<in> set ?rs" for pr
    using allowed that unfolding rbac_Evaluate_Allowed rbac_Evaluate_Denied path(1) by auto
  have "\<exists>pr\<in>set (flat_rules policies). grant_score U path ?c pr \<noteq> None"
    using allowed unfolding rbac_Evaluate_Allowed path(1) by (rule conjunct2)
  then obtain pr where pr: "pr \<in> set (flat_rules policies)" "grant_score U path ?c pr \<noteq> None" by (rule bexE)
  then have "pr \<in> set ?rs" and untyped: "rr_FileTypes (snd pr) = None"
    by (auto simp: grant_score_def ruleMatches_def Let_def split: if_splits)
  then obtain c where c: "c \<in> set f" "compiled_from U pr c" using list_all2_left [OF cf(1)] by blast
  have ev: "evaluable U path capability entryType"
    using t compiled_grant_valid [OF c(2) pr(2)] cf(2) path
    by (simp add: evaluable_def validResource_ValidResourcePath)
  have "rule_allows U path ?c entryType c"
    using compiled_untyped_allows [OF c(2) path(1) untyped] pr(2) by simp
  moreover have "\<not> rule_denies U path ?c entryType c" if mem: "c \<in> set f" for c
  proof
    assume d: "rule_denies U path ?c entryType c"
    obtain pr where "pr \<in> set ?rs" "compiled_from U pr c" using list_all2_right [OF cf(1) mem] by blast
    with compiled_denies_imp [OF this(2) path(1) d] nodeny show False by blast
  qed
  ultimately show ?thesis using c(1) unfolding Filter_Evaluate_Allowed [OF ev] Filter_Evaluate_Denied [OF ev] by blast
qed

text \<open>
  C16: The path-only evaluation, which typed evaluation falls back to, is the stricter of the two:
  what it allows on a well-formed path, typed evaluation allows for files and directories alike.
\<close>

theorem Evaluate_conservative:
  assumes "NormalizePath path = path" "valid_utf8 path"
    and "dec_Allowed (rbac_Evaluate U policies path capability)"
    and "entryType = ''file'' \<or> entryType = ''directory''"
  shows "dec_Allowed (ed_Decision (EvaluateEntry U policies path capability entryType))
       \<and> dec_Allowed (EvaluateTyped U policies path capability mode)"
proof -
  have "ftd_Allowed (Filter_Evaluate U (Some f) path capability t) \<and> \<not> ftd_Denied (Filter_Evaluate U (Some f) path capability t)"
    if "compileTyped U policies path = Some f" "t = ''file'' \<or> t = ''directory''" for f t
    by (rule typed_conservative [OF that(1) assms(1-3) that(2)])
  with assms show ?thesis
    by (auto simp: EvaluateEntry_def EvaluateTyped_def Let_def split: option.splits)
qed

definition policy_typed :: policy where
  "policy_typed = \<lparr>pol_ID = ''t'', pol_Name = ''T'', pol_Rules =
     [untyped ''nodes/n/files/**'' [''read''],
      (untyped ''nodes/n/files/**'' [''write''])\<lparr>rr_FileTypes := Some \<lparr>sel_Classes = [''image''], sel_Extensions = [], sel_Names = []\<rparr>\<rparr>]\<rparr>"

theorem Evaluate_conservative_witness:
  "dec_Allowed (ed_Decision (EvaluateEntry ascii_tables [policy_typed] ''nodes/n/files/a.txt'' ''read'' ''file''))
   \<and> dec_Allowed (EvaluateTyped ascii_tables [policy_typed] ''nodes/n/files/a.txt'' ''read'' EveryEntry)"
  by (rule Evaluate_conservative) code_simp+

text \<open>
  C9: A context compiled from path rules alone decides on the node exactly as the path evaluation
  does in the control plane: for a well-formed path, a capability of the list other than deny and
  either entry type, both allow the same requests and both deny the same requests.
\<close>

theorem node_agrees_on_path_rules:
  assumes rules: "list_all (\<lambda>(_, r). rr_FileTypes r = None) (flat_rules policies)"
    and compiled: "Context_Compile U \<lparr>ctx_Version = 1, ctx_Rules = map (\<lambda>(pid, r). to_ft_rule pid r) (flat_rules policies)\<rparr> = Inr f"
    and path: "NormalizePath path = path" and ev: "evaluable U path capability entryType"
  shows "ftd_Allowed (Filter_Evaluate U (Some f) path capability entryType)
           = dec_Allowed (rbac_Evaluate U policies path capability)
       \<and> ftd_Denied (Filter_Evaluate U (Some f) path capability entryType)
           = dec_Denied (rbac_Evaluate U policies path capability)"
proof -
  let ?c = "ToLower U (TrimSpace capability)"
  note cf = Context_Compile_compiled [OF compiled]
  have untyped: "rr_FileTypes (snd pr) = None" if "pr \<in> set (flat_rules policies)" for pr
    using rules that by (auto simp: list_all_iff)
  have D: "(\<exists>c\<in>set f. rule_denies U path ?c entryType c)
             \<longleftrightarrow> (\<exists>pr\<in>set (flat_rules policies). ruleMatches (snd pr) path \<and> r_denies U (snd pr))"
    by (rule list_all2_bex [OF cf]) (use compiled_untyped_denies [OF _ path untyped] in blast)
  have A: "(\<exists>c\<in>set f. rule_allows U path ?c entryType c)
             \<longleftrightarrow> (\<exists>pr\<in>set (flat_rules policies). grant_score U path ?c pr \<noteq> None)"
    by (rule list_all2_bex [OF cf]) (use compiled_untyped_allows [OF _ path untyped] in blast)
  have E: "dec_Denied (rbac_Evaluate U policies path capability)
             \<longleftrightarrow> (\<exists>pr\<in>set (flat_rules policies). ruleMatches (snd pr) path \<and> r_denies U (snd pr))"
    unfolding rbac_Evaluate_Denied path by (simp add: case_prod_beta)
  show ?thesis
    unfolding Filter_Evaluate_Allowed [OF ev] Filter_Evaluate_Denied [OF ev] A D rbac_Evaluate_Allowed E path by blast
qed

theorem node_agrees_on_path_rules_witness:
  "\<exists>f. Context_Compile ascii_tables \<lparr>ctx_Version = 1, ctx_Rules = map (\<lambda>(pid, r). to_ft_rule pid r) (flat_rules [policy_mount])\<rparr> = Inr f
     \<and> ftd_Denied (Filter_Evaluate ascii_tables (Some f) ''nodes/n/files/mounts/m'' ''read'' ''file'')
         = dec_Denied (rbac_Evaluate ascii_tables [policy_mount] ''nodes/n/files/mounts/m'' ''read'')"
proof -
  have "case Context_Compile ascii_tables \<lparr>ctx_Version = 1, ctx_Rules = map (\<lambda>(pid, r). to_ft_rule pid r) (flat_rules [policy_mount])\<rparr>
        of Inl _ \<Rightarrow> False | Inr _ \<Rightarrow> True" by code_simp
  then obtain f where f: "Context_Compile ascii_tables \<lparr>ctx_Version = 1, ctx_Rules = map (\<lambda>(pid, r). to_ft_rule pid r) (flat_rules [policy_mount])\<rparr> = Inr f"
    by (auto split: sum.splits)
  have "list_all (\<lambda>(_, r). rr_FileTypes r = None) (flat_rules [policy_mount])"
    and "NormalizePath ''nodes/n/files/mounts/m'' = ''nodes/n/files/mounts/m''"
    and "evaluable ascii_tables ''nodes/n/files/mounts/m'' ''read'' ''file''" by code_simp+
  from node_agrees_on_path_rules [OF this(1) f this(2,3)] f show ?thesis by blast
qed

text \<open>The typed evaluator decides, and not the path-only one it falls back to.\<close>

definition typed_evaluation :: "unicode_tables \<Rightarrow> policy list \<Rightarrow> string \<Rightarrow> bool" where
  "typed_evaluation U policies path \<longleftrightarrow> HasTypedRules policies path \<and> compileTyped U policies path \<noteq> None"

text \<open>
  C22: An entry or typed decision on a path in normal form asks for approval exactly when it allows and one
  of the most specific path grants is marked. Where the typed evaluator decides, grants and marks are
  those of the capability as it is spelled in the request; otherwise those of its trimmed lower case.
\<close>

theorem typed_needs_approval:
  assumes "NormalizePath path = path"
  shows "let c = (if typed_evaluation U policies path then capability else ToLower U (TrimSpace capability));
             marked = (\<exists>x. x \<in> winners U policies path c \<and> requiresApproval U (snd x) c);
             e = ed_Decision (EvaluateEntry U policies path capability entryType);
             t = EvaluateTyped U policies path capability mode in
         (dec_NeedsApproval e \<longleftrightarrow> dec_Allowed e \<and> marked) \<and> (dec_NeedsApproval t \<longleftrightarrow> dec_Allowed t \<and> marked)"
proof -
  let ?n = "ToLower U (TrimSpace capability)"
  have "dec_NeedsApproval (rbac_Evaluate U policies path capability)
          \<longleftrightarrow> dec_Allowed (rbac_Evaluate U policies path capability) \<and> (\<exists>x\<in>winners U policies path ?n. requiresApproval U (snd x) ?n)"
    unfolding rbac_Evaluate_eq assms Let_def by auto
  then show ?thesis
    by (cases "compileTyped U policies path")
       (simp_all add: typed_evaluation_def EvaluateEntry_def EvaluateTyped_def Let_def approvalMarked_winners assms Bex_def del: split_paired_Ex)
qed

definition policy_marked :: policy where
  "policy_marked = \<lparr>pol_ID = ''t'', pol_Name = ''T'', pol_Rules =
     [(untyped ''nodes/n/files/**'' [''delete''])\<lparr>rr_NeedsApproval := [''delete'']\<rparr>,
      (untyped ''nodes/n/files/**'' [''read''])\<lparr>rr_FileTypes := Some \<lparr>sel_Classes = [''image''], sel_Extensions = [], sel_Names = []\<rparr>\<rparr>]\<rparr>"

lemma policy_marked_typed: "typed_evaluation ascii_tables [policy_marked] ''nodes/n/files/a.txt''"
  by code_simp

theorem typed_needs_approval_witness:
  "dec_NeedsApproval (EvaluateTyped ascii_tables [policy_marked] ''nodes/n/files/a.txt'' ''delete'' EveryEntry)
   \<and> (\<exists>x. x \<in> winners ascii_tables [policy_marked] ''nodes/n/files/a.txt'' ''delete'' \<and> requiresApproval ascii_tables (snd x) ''delete'')"
proof -
  have n: "NormalizePath ''nodes/n/files/a.txt'' = ''nodes/n/files/a.txt''" by code_simp
  have "dec_NeedsApproval (EvaluateTyped ascii_tables [policy_marked] ''nodes/n/files/a.txt'' ''delete'' EveryEntry)" by code_simp
  then show ?thesis
    using typed_needs_approval [OF n, of ascii_tables "[policy_marked]" "''delete''" "''file''" EveryEntry] policy_marked_typed
    unfolding Let_def by (simp del: split_paired_Ex)
qed

lemma valid_marks: "approval_values_ok U caps seen vs \<Longrightarrow> v \<in> set vs \<Longrightarrow> ToLower U (TrimSpace v) = v"
  by (induction U caps seen vs rule: approval_values_ok.induct) (auto split: if_split_asm)

text \<open>
  C40: A spelling drops the approval mark: where the typed evaluator decides and all marks are well formed, a
  capability that is not its own trimmed lower case is allowed and denied as that lower case is,
  but never asks for approval, whatever is marked. The path and the lower case are in normal form.
\<close>

theorem approval_mark_dropped:
  assumes "NormalizePath path = path" "typed_evaluation U policies path"
    and "list_all (\<lambda>(_, r). ValidNeedsApproval U r) (flat_rules policies)"
    and "ToLower U (TrimSpace capability) = c" "ToLower U (TrimSpace c) = c" "capability \<noteq> c"
  shows "let t = EvaluateTyped U policies path capability mode; n = EvaluateTyped U policies path c mode in
     dec_Allowed t = dec_Allowed n \<and> dec_Denied t = dec_Denied n \<and> \<not> dec_NeedsApproval t"
proof -
  obtain f where f: "HasTypedRules policies path" "compileTyped U policies path = Some f"
    using assms(2) by (auto simp: typed_evaluation_def)
  have "Filter_Evaluate U (Some f) path capability ty = Filter_Evaluate U (Some f) path c ty" for ty
    by (simp add: Filter_Evaluate_def assms(4,5))
  moreover have "\<not> requiresApproval U r capability" if "(pid, r) \<in> set (flat_rules policies)" for pid r
  proof
    assume "requiresApproval U r capability"
    then obtain v where "v \<in> set (rr_NeedsApproval r)" "ToLower U (TrimSpace v) = capability"
      by (auto simp: requiresApproval_def list_ex_iff)
    moreover have "ValidNeedsApproval U r" using assms(3) that by (auto simp: list_all_iff)
    ultimately have "ToLower U (TrimSpace capability) = capability"
      by (auto simp: ValidNeedsApproval_def Let_def dest: valid_marks split: if_split_asm)
    then show False using assms(4,6) by simp
  qed
  then have "\<not> approvalMarked U policies path capability"
    unfolding approvalMarked_winners by (auto simp: unbeaten_def)
  ultimately show ?thesis using f by (simp add: EvaluateTyped_def assms(1) Let_def)
qed

theorem approval_mark_dropped_witness:
  "dec_Allowed (EvaluateTyped ascii_tables [policy_marked] ''nodes/n/files/a.txt'' ''Delete'' EveryEntry)
   \<and> \<not> dec_NeedsApproval (EvaluateTyped ascii_tables [policy_marked] ''nodes/n/files/a.txt'' ''Delete'' EveryEntry)
   \<and> dec_NeedsApproval (EvaluateTyped ascii_tables [policy_marked] ''nodes/n/files/a.txt'' ''delete'' EveryEntry)"
proof -
  have "NormalizePath ''nodes/n/files/a.txt'' = ''nodes/n/files/a.txt''"
    "list_all (\<lambda>(_, r). ValidNeedsApproval ascii_tables r) (flat_rules [policy_marked])"
    "ToLower ascii_tables (TrimSpace ''Delete'') = ''delete''" "ToLower ascii_tables (TrimSpace ''delete'') = ''delete''"
    "''Delete'' \<noteq> ''delete''"
    "dec_Allowed (EvaluateTyped ascii_tables [policy_marked] ''nodes/n/files/a.txt'' ''delete'' EveryEntry)"
    "dec_NeedsApproval (EvaluateTyped ascii_tables [policy_marked] ''nodes/n/files/a.txt'' ''delete'' EveryEntry)"
    by code_simp+
  note f = this
  show ?thesis
    using approval_mark_dropped [OF f(1) policy_marked_typed f(2-5), of EveryEntry] f(6,7) unfolding Let_def by blast
qed

text \<open>
  C25: A path the policy editor accepts is a path the node accepts: the normal form of a rule path
  is a valid pattern of a signed context exactly when ValidPath holds and the bytes are UTF-8.
\<close>

theorem ValidPath_validPattern:
  "validPattern (NormalizePath v) \<longleftrightarrow> ValidPath v \<and> valid_utf8 (NormalizePath v)"
  by (auto simp: validPattern_def ValidPath_def rule_segments_parts Let_def)

text \<open>
  C26: The subtree test misses denials below a directory whose name ends in a blank. When every denial is
  for a path below the directory \<open>dir\<close> with a blank after it, DeniesWithin reports nothing for that
  directory, because the scope is normalised to \<open>dir\<close>, although the path evaluation denies each of those
  paths. \<open>dir\<close> and the rules are in normal form, and the last segment of \<open>dir\<close> is not the wildcard.
\<close>

theorem DeniesWithin_trailing_space:
  assumes "NormalizePath dir = dir" "last (segs dir) \<noteq> ''*''"
    and below: "\<And>pid r. (pid, r) \<in> set (flat_rules policies) \<Longrightarrow> r_denies U r \<Longrightarrow>
        NormalizePath (rr_Path r) = rr_Path r \<and> (\<exists>name. rr_Path r = dir @ '' /'' @ name)"
  shows "\<not> DeniesWithin U policies (dir @ '' '')
    \<and> (\<forall>(pid, r) \<in> set (flat_rules policies). r_denies U r \<longrightarrow> dec_Denied (rbac_Evaluate U policies (rr_Path r) capability))"
proof
  have "NormalizePath (dir @ '' '') = dir" using assms(1) by (simp add: NormalizePath_def TrimSpace_snoc)
  moreover have "\<not> denyReachesScope (segs (rr_Path r)) (split_byte slash dir)" if h: "(pid, r) \<in> set (flat_rules policies)" "r_denies U r" for pid r
  proof -
    let ?ds = "split_byte slash dir"
    obtain name where n: "NormalizePath (rr_Path r) = dir @ '' /'' @ name" using below [OF h] by metis
    have "segs (rr_Path r) = split_byte slash (dir @ '' '') @ split_byte slash name"
      unfolding n using split_byte_snoc_sep [of slash "dir @ '' ''" name] by simp
    then have "segs (rr_Path r) = butlast ?ds @ (last ?ds @ '' '') # split_byte slash name"
      by (simp add: split_byte_snoc)
    moreover have "?ds = butlast ?ds @ [last ?ds]" by simp
    moreover have "last ?ds \<noteq> ''*''" using assms(1,2) by simp
    ultimately show ?thesis
      using shared_agree_append [of "butlast ?ds" "butlast ?ds" "last ?ds @ '' ''" _ "last ?ds" "[]"]
      unfolding denyReachesScope_def Let_def by (auto simp: butlast_append append_eq_Cons_conv split: if_split_asm)
  qed
  ultimately show "\<not> DeniesWithin U policies (dir @ '' '')"
    by (auto simp: DeniesWithin_def list_ex_iff r_denies_def)
  show "\<forall>(pid, r) \<in> set (flat_rules policies). r_denies U r \<longrightarrow> dec_Denied (rbac_Evaluate U policies (rr_Path r) capability)"
  proof (clarify)
    fix pid r
    assume h: "(pid, r) \<in> set (flat_rules policies)" "r_denies U r"
    have "ruleMatches r (NormalizePath (rr_Path r))"
      using below [OF h] match_self [of "segs (rr_Path r)"] by (simp add: ruleMatches_def rbac_match_def)
    then show "dec_Denied (rbac_Evaluate U policies (rr_Path r) capability)"
      using h unfolding rbac_Evaluate_Denied by blast
  qed
qed

theorem DeniesWithin_trailing_space_witness:
  "\<not> DeniesWithin ascii_tables [\<lparr>pol_ID = ''p'', pol_Name = ''P'', pol_Rules = [untyped ''nodes/n/files/mounts/m/d /secret'' [''deny'']]\<rparr>]
       ''nodes/n/files/mounts/m/d ''
   \<and> dec_Denied (rbac_Evaluate ascii_tables [\<lparr>pol_ID = ''p'', pol_Name = ''P'', pol_Rules = [untyped ''nodes/n/files/mounts/m/d /secret'' [''deny'']]\<rparr>]
       ''nodes/n/files/mounts/m/d /secret'' ''read'')"
proof -
  let ?ps = "[\<lparr>pol_ID = ''p'', pol_Name = ''P'', pol_Rules = [untyped ''nodes/n/files/mounts/m/d /secret'' [''deny'']]\<rparr>]"
  have n: "NormalizePath ''nodes/n/files/mounts/m/d'' = ''nodes/n/files/mounts/m/d''"
    "last (segs ''nodes/n/files/mounts/m/d'') \<noteq> ''*''"
    "NormalizePath ''nodes/n/files/mounts/m/d /secret'' = ''nodes/n/files/mounts/m/d /secret''"
    "r_denies ascii_tables (untyped ''nodes/n/files/mounts/m/d /secret'' [''deny''])" by code_simp+
  have "\<not> DeniesWithin ascii_tables ?ps (''nodes/n/files/mounts/m/d'' @ '' '')
    \<and> (\<forall>(pid, r) \<in> set (flat_rules ?ps). r_denies ascii_tables r \<longrightarrow> dec_Denied (rbac_Evaluate ascii_tables ?ps (rr_Path r) ''read''))"
    by (rule DeniesWithin_trailing_space [OF n(1,2)]) (use n(3) in \<open>auto simp: flat_rules_def untyped_def\<close>)
  then show ?thesis using n(4) by (simp add: flat_rules_def) (simp add: untyped_def)
qed

end
