(* ===== verification/Access_Context.thy ===== *)
theory Access_Context
  imports Rbac
begin

text \<open>
  The policy context that is signed for a mount (\<open>control/internal/httpapi/access_context.go\<close>): the rules
  that can matter below the mount, in their published form. The main fact is that a node that is given
  this context decides on an entry exactly as \<open>EvaluateEntry\<close> says in the control plane.
\<close>

subsection \<open>access_context.go\<close>

fun context_rules :: "string \<Rightarrow> ft_rule list \<Rightarrow> (string \<times> rbac_rule) list \<Rightarrow> string + ft_rule list" where
  "context_rules mountScope acc [] = Inr acc"
| "context_rules mountScope acc ((pid, rule) # rest) =
     (if \<not> ValidPath (rr_Path rule) then Inl ''invalid policy rule path''
      else if \<not> RuleTouchesScope (rr_Path rule) mountScope then context_rules mountScope acc rest
      else if length acc = MaxContextRules then Inl ''authorization context has too many rules''
      else context_rules mountScope (acc @ [to_ft_rule pid rule]) rest)"

definition buildMountAccessContext :: "unicode_tables \<Rightarrow> policy list \<Rightarrow> string \<Rightarrow> string + ft_context" where
  "buildMountAccessContext U policies mountScope0 =
     (let mountScope = NormalizePath mountScope0; parts = split_byte slash mountScope in
      if length parts \<noteq> 5 \<or> parts ! 0 \<noteq> ''nodes'' \<or> parts ! 2 \<noteq> ''files'' \<or> parts ! 3 \<noteq> ''mounts'' \<or> \<not> ValidResourcePath mountScope
      then Inl ''invalid mount authorization scope''
      else bind_result (context_rules mountScope [] (flat_rules (ExpandCompatibilityRules policies))) (\<lambda>rules.
             let context = \<lparr>ctx_Version = 1, ctx_Rules = rules\<rparr> in
             bind_result (Context_Compile U context) (\<lambda>_. Inr context)))"

subsection \<open>The rules of the context\<close>

abbreviation touching :: "string \<Rightarrow> policy list \<Rightarrow> (string \<times> rbac_rule) list" where
  "touching scope policies \<equiv> filter (\<lambda>(_, r). RuleTouchesScope (rr_Path r) scope) (flat_rules policies)"

abbreviation ft_rules :: "(string \<times> rbac_rule) list \<Rightarrow> ft_rule list" where
  "ft_rules rs \<equiv> map (\<lambda>(pid, r). to_ft_rule pid r) rs"

lemma context_rules_Inr:
  "context_rules scope acc rs = Inr out \<Longrightarrow>
     out = acc @ ft_rules (filter (\<lambda>(_, r). RuleTouchesScope (rr_Path r) scope) rs) \<and> list_all (\<lambda>(_, r). ValidPath (rr_Path r)) rs"
  by (induction scope acc rs rule: context_rules.induct) (auto split: if_split_asm)

lemma buildMountAccessContext_Inr:
  assumes "buildMountAccessContext U policies scope = Inr ctx"
  shows "ctx = \<lparr>ctx_Version = 1, ctx_Rules = ft_rules (touching (NormalizePath scope) (ExpandCompatibilityRules policies))\<rparr>"
    and "list_all (\<lambda>(_, r). ValidPath (rr_Path r)) (flat_rules (ExpandCompatibilityRules policies))"
  using assms by (auto simp: buildMountAccessContext_def Let_def dest!: context_rules_Inr split: if_split_asm sum.splits)

subsection \<open>A part of a context\<close>

lemma joined_Cons: "json_sep (x # xs) = x @ (if xs = [] then [] else CHR '','' # json_sep xs)"
  by (cases xs) simp_all

lemma json_sep_filter: "length (json_sep (map f (filter P xs))) \<le> length (json_sep (map f xs))"
  by (induction xs) (auto simp: joined_Cons filter_empty_conv)

lemma marshal_context_filter:
  "length (marshal_context \<lparr>ctx_Version = v, ctx_Rules = ft_rules (filter P rs)\<rparr>)
     \<le> length (marshal_context \<lparr>ctx_Version = v, ctx_Rules = ft_rules rs\<rparr>)"
  using json_sep_filter [of "\<lambda>(pid, r). marshal_rule (to_ft_rule pid r)" P rs]
  by (simp add: marshal_context_def json_object_def json_array_def comp_def case_prod_unfold)

lemma compile_rules_filter:
  assumes "compile_rules U (ft_rules rs) = Inr f" and "\<And>pr c. compiled_from U pr c \<Longrightarrow> P pr \<longleftrightarrow> Q c"
  shows "compile_rules U (ft_rules (filter P rs)) = Inr (filter Q f)"
  using assms(1)
proof (induction rs arbitrary: f)
  case (Cons pr rs)
  obtain pid r where pr: "pr = (pid, r)" by (cases pr)
  obtain c cs where c: "compile_rule U (to_ft_rule pid r) = Inr c" "compile_rules U (ft_rules rs) = Inr cs" "f = c # cs"
    using Cons.prems by (auto simp: pr)
  then show ?case
    using Cons.IH [OF c(2)] assms(2) [OF compile_rule_compiled [OF c(1)]] by (auto simp: pr)
qed simp

lemma Context_Compile_filter:
  assumes "Context_Compile U \<lparr>ctx_Version = 1, ctx_Rules = ft_rules rs\<rparr> = Inr f" and "\<And>pr c. compiled_from U pr c \<Longrightarrow> P pr \<longleftrightarrow> Q c"
  shows "Context_Compile U \<lparr>ctx_Version = 1, ctx_Rules = ft_rules (filter P rs)\<rparr> = Inr (filter Q f)"
proof -
  have c: "compile_rules U (ft_rules rs) = Inr f" "length rs \<le> MaxContextRules"
    "length (marshal_context \<lparr>ctx_Version = 1, ctx_Rules = ft_rules rs\<rparr>) \<le> MaxContextBytes"
    using assms(1) by (auto simp: Context_Compile_def split: if_split_asm)
  have "compile_rules U (ft_rules (filter P rs)) = Inr (filter Q f)" by (rule compile_rules_filter [OF c(1)]) (rule assms(2))
  moreover have "length (filter P rs) \<le> MaxContextRules" using c(2) length_filter_le [of P rs] by linarith
  moreover have "length (marshal_context \<lparr>ctx_Version = 1, ctx_Rules = ft_rules (filter P rs)\<rparr>) \<le> MaxContextBytes"
    using c(3) marshal_context_filter [of 1 P rs] by linarith
  ultimately show ?thesis by (simp add: Context_Compile_def not_less)
qed

lemma scan_filter:
  "foldl (scan_rule U resource capability ty) st (filter (rule_covers resource) f) = foldl (scan_rule U resource capability ty) st f"
  by (induction f arbitrary: st) (auto simp: scan_rule_def rule_covers_def)

lemma Filter_Evaluate_covering:
  "Filter_Evaluate U (Some (filter (rule_covers resource) f)) resource capability ty = Filter_Evaluate U (Some f) resource capability ty"
  by (simp add: Filter_Evaluate_def Let_def scan_filter)

subsection \<open>The node and the diagnosis\<close>

lemma covering_touching:
  assumes "at_or_below path scope" "NormalizePath path = path" "NormalizePath scope = scope"
  shows "filter (\<lambda>(_, r). ruleMatches r path) (touching scope policies) = filter (\<lambda>(_, r). ruleMatches r path) (flat_rules policies)"
proof -
  have "RuleTouchesScope (rr_Path r) scope" if "ruleMatches r path" for r
    using ruleMatches_reaches [OF assms that] by (simp add: RuleTouchesScope_def)
  then show ?thesis by (auto intro!: filter_cong)
qed

lemma untyped_agrees:
  assumes cf: "list_all2 (compiled_from U) rs f" and path: "NormalizePath path = path" and ev: "evaluable U path capability ty"
    and cover: "filter (\<lambda>(_, r). ruleMatches r path) rs = filter (\<lambda>(_, r). ruleMatches r path) (flat_rules policies)"
    and untyped: "\<And>pid r. (pid, r) \<in> set (flat_rules policies) \<Longrightarrow> ruleMatches r path \<Longrightarrow> rr_FileTypes r = None"
  shows "ftd_Allowed (Filter_Evaluate U (Some f) path capability ty) = dec_Allowed (rbac_Evaluate U policies path capability)
    \<and> ftd_Denied (Filter_Evaluate U (Some f) path capability ty) = dec_Denied (rbac_Evaluate U policies path capability)"
proof -
  let ?c = "ToLower U (TrimSpace capability)" and ?R = "filter (\<lambda>(_, r). ruleMatches r path) (flat_rules policies)"
  have cover': "x \<in> set rs \<and> ruleMatches (snd x) path \<longleftrightarrow> x \<in> set (flat_rules policies) \<and> ruleMatches (snd x) path" for x
    using arg_cong [OF cover, of "\<lambda>l. x \<in> set l"] by (auto simp: case_prod_beta)
  have plain: "rr_FileTypes (snd pr) = None" if "pr \<in> set rs" "ruleMatches (snd pr) path" for pr
    using cover' [of pr] untyped [of "fst pr" "snd pr"] that by simp
  have D: "(\<exists>c\<in>set f. rule_denies U path ?c ty c) \<longleftrightarrow> (\<exists>pr\<in>set rs. ruleMatches (snd pr) path \<and> r_denies U (snd pr))"
  proof (rule list_all2_bex [OF cf])
    fix pr c assume h: "compiled_from U pr c" "pr \<in> set rs"
    show "ruleMatches (snd pr) path \<and> r_denies U (snd pr) \<longleftrightarrow> rule_denies U path ?c ty c"
      using compiled_denies_imp [OF h(1) path] compiled_untyped_denies [OF h(1) path plain [OF h(2)]] by blast
  qed
  have A: "(\<exists>c\<in>set f. rule_allows U path ?c ty c) \<longleftrightarrow> (\<exists>pr\<in>set rs. grant_score U path ?c pr \<noteq> None)"
  proof (rule list_all2_bex [OF cf])
    fix pr c assume h: "compiled_from U pr c" "pr \<in> set rs"
    show "grant_score U path ?c pr \<noteq> None \<longleftrightarrow> rule_allows U path ?c ty c"
    proof (cases "ruleMatches (snd pr) path")
      case True
      then show ?thesis using compiled_untyped_allows [OF h(1) path plain [OF h(2) True]] by blast
    next
      case False
      then show ?thesis using compiled_covers [OF h(1) path] by (auto simp: rule_allows_def grant_score_def ruleMatches_def Let_def)
    qed
  qed
  have G: "(\<exists>pr\<in>set rs. grant_score U path ?c pr \<noteq> None) \<longleftrightarrow> (\<exists>pr\<in>set (flat_rules policies). grant_score U path ?c pr \<noteq> None)"
  proof -
    have "ruleMatches (snd pr) path" if "grant_score U path ?c pr \<noteq> None" for pr
      using that by (auto simp: grant_score_def ruleMatches_def Let_def split: if_split_asm)
    then show ?thesis using cover' by blast
  qed
  have E: "dec_Denied (rbac_Evaluate U policies path capability)
             \<longleftrightarrow> (\<exists>pr\<in>set rs. ruleMatches (snd pr) path \<and> r_denies U (snd pr))"
    unfolding rbac_Evaluate_Denied path using cover' by (force simp: case_prod_beta)
  show ?thesis
    unfolding Filter_Evaluate_Allowed [OF ev] Filter_Evaluate_Denied [OF ev] A D G rbac_Evaluate_Allowed E path by blast
qed

text \<open>
  C37: The control plane's diagnosis of an entry is what the node decides: for a path in normal form at or
  below a mount, and a node that is given the context the control plane builds for the mount, EvaluateEntry
  on the published policies allows and denies exactly what the compiled context allows and denies for a
  file or directory there, typed rules included, and a visibility it reports is that of the node. The
  request is one that the node evaluates at all: a valid resource and a known capability other than deny.
\<close>

theorem EvaluateEntry_is_node_decision:
  assumes build: "buildMountAccessContext U policies scope = Inr ctx" and compiled: "Context_Compile U ctx = Inr f"
    and path: "NormalizePath path = path" and scope: "NormalizePath scope = scope" and below: "at_or_below path scope"
    and ev: "evaluable U path capability entryType"
  shows "let e = EvaluateEntry U (ExpandCompatibilityRules policies) path capability entryType;
             d = Filter_Evaluate U (Some f) path capability entryType in
         dec_Allowed (ed_Decision e) = ftd_Allowed d \<and> dec_Denied (ed_Decision e) = ftd_Denied d
         \<and> (ed_Visibility e \<noteq> [] \<longrightarrow> ed_Visibility e = ftd_Visibility d)"
proof -
  let ?ps = "ExpandCompatibilityRules policies" and ?m = "\<lambda>(_ :: string, r). ruleMatches r path"
  note b = buildMountAccessContext_Inr [OF build, unfolded scope]
  have comp: "Context_Compile U \<lparr>ctx_Version = 1, ctx_Rules = ft_rules (touching scope ?ps)\<rparr> = Inr f"
    using compiled b(1) by simp
  note cover = covering_touching [OF below path scope, of ?ps]
  show ?thesis
  proof (cases "HasTypedRules ?ps path")
    case False
    then have "rr_FileTypes r = None" if "(pid, r) \<in> set (flat_rules ?ps)" "ruleMatches r path" for pid r
      using that by (auto simp: HasTypedRules_def list_ex_iff path)
    from untyped_agrees [OF Context_Compile_compiled [OF comp] path ev cover this] False
    show ?thesis by (simp add: EvaluateEntry_def path Let_def)
  next
    case True
    have "Context_Compile U \<lparr>ctx_Version = 1, ctx_Rules = ft_rules (filter ?m (touching scope ?ps))\<rparr> = Inr (filter (rule_covers path) f)"
      by (rule Context_Compile_filter [OF comp]) (use compiled_covers [OF _ path] in \<open>auto simp: case_prod_beta\<close>)
    moreover have "ValidResourcePath path" using ev validResource_ValidResourcePath [OF path] by (simp add: evaluable_def)
    moreover have "\<not> list_ex (\<lambda>(_, r). \<not> ValidPath (rr_Path r)) (filter ?m (flat_rules ?ps))"
      using b(2) by (auto simp: list_all_iff list_ex_iff)
    ultimately have "compileTyped U ?ps path = Some (filter (rule_covers path) f)"
      unfolding compileTyped_def Let_def cover by simp
    then show ?thesis
      using True by (auto simp: EvaluateEntry_def path Let_def Filter_Evaluate_covering Filter_Evaluate_Allowed [OF ev] Filter_Evaluate_Denied [OF ev])
  qed
qed

definition policy_images :: policy where
  "policy_images = \<lparr>pol_ID = ''i'', pol_Name = ''I'', pol_Rules =
     [untyped ''nodes/n/**'' [''read''],
      (untyped ''nodes/n/**'' [''deny''])\<lparr>rr_FileTypes := Some \<lparr>sel_Classes = [''image''], sel_Extensions = [], sel_Names = []\<rparr>\<rparr>,
      untyped ''nodes/k/**'' [''read'']]\<rparr>"

theorem EvaluateEntry_is_node_decision_witness:
  "\<exists>ctx f. buildMountAccessContext ascii_tables [policy_images] ''nodes/n/files/mounts/m'' = Inr ctx \<and> Context_Compile ascii_tables ctx = Inr f
     \<and> ftd_Denied (Filter_Evaluate ascii_tables (Some f) ''nodes/n/files/mounts/m/a.png'' ''read'' ''file'')"
proof -
  let ?scope = "''nodes/n/files/mounts/m''" and ?path = "''nodes/n/files/mounts/m/a.png''"
  have "case buildMountAccessContext ascii_tables [policy_images] ?scope of Inl _ \<Rightarrow> False
      | Inr ctx \<Rightarrow> (case Context_Compile ascii_tables ctx of Inl _ \<Rightarrow> False | Inr _ \<Rightarrow> True)" by code_simp
  then obtain ctx f where c: "buildMountAccessContext ascii_tables [policy_images] ?scope = Inr ctx" "Context_Compile ascii_tables ctx = Inr f"
    by (auto split: sum.splits)
  have f: "NormalizePath ?path = ?path" "NormalizePath ?scope = ?scope" "at_or_below ?path ?scope" "evaluable ascii_tables ?path ''read'' ''file''"
    "dec_Denied (ed_Decision (EvaluateEntry ascii_tables (ExpandCompatibilityRules [policy_images]) ?path ''read'' ''file''))" by code_simp+
  note d = EvaluateEntry_is_node_decision [OF c f(1-4), unfolded Let_def]
  have "ftd_Denied (Filter_Evaluate ascii_tables (Some f) ?path ''read'' ''file'')"
    using f(5) unfolding conjunct1 [OF conjunct2 [OF d]] .
  with c show ?thesis by (intro exI conjI)
qed

end
