(* ===== verification/Go_Json_Decode.thy ===== *)
theory Go_Json_Decode
  imports Go_Json
begin

text \<open>
  Decoding by \<open>encoding/json\<close>: the grammar, the unquoting of strings (an invalid byte or a lone
  surrogate becomes U+FFFD), and the matching of object keys with field names. A value of an object
  member is kept together with its text, which is what a \<open>json.RawMessage\<close> field receives.

  The parser takes a bound on its recursion, one more than the length of the text at the top; the
  last part shows that whatever \<^const>\<open>json_object\<close> and its companions print is read back within it.
\<close>

datatype json =
    JNull
  | JBool bool
  | JNum string   \<comment> \<open>the literal\<close>
  | JStr string
  | JArr "json list"
  | JObj "(string \<times> string \<times> json) list"  \<comment> \<open>key, text of the value, value\<close>

definition json_ws :: "char \<Rightarrow> bool" where
  "json_ws c \<longleftrightarrow> c = CHR 0x20 \<or> c = CHR 0x09 \<or> c = CHR 0x0A \<or> c = CHR 0x0D"

definition skip_ws :: "string \<Rightarrow> string" where
  "skip_ws s = dropWhile json_ws s"

subsection \<open>Strings\<close>

definition hex_value :: "char \<Rightarrow> int option" where
  "hex_value c =
     (let b = byte c in
      if 48 \<le> b \<and> b \<le> 57 then Some (b - 48)
      else if 97 \<le> b \<and> b \<le> 102 then Some (b - 87)
      else if 65 \<le> b \<and> b \<le> 70 then Some (b - 55)
      else None)"

fun hex4_value :: "string \<Rightarrow> (int \<times> string) option" where
  "hex4_value (a # b # c # d # s) =
     (case (hex_value a, hex_value b, hex_value c, hex_value d) of
        (Some x, Some y, Some z, Some w) \<Rightarrow> Some (x * 4096 + y * 256 + z * 16 + w, s)
      | _ \<Rightarrow> None)"
| "hex4_value _ = None"

definition is_surrogate :: "int \<Rightarrow> bool" where
  "is_surrogate r \<longleftrightarrow> 55296 \<le> r \<and> r \<le> 57343"

text \<open>A second \<open>\u\<close> escape that completes a surrogate pair, with the text after it.\<close>

definition low_surrogate :: "int \<Rightarrow> string \<Rightarrow> (int \<times> string) option" where
  "low_surrogate r s =
     (if r < 56320 \<and> 2 \<le> length s \<and> s ! 0 = bslash \<and> s ! 1 = CHR ''u''
      then (case hex4_value (drop 2 s) of
              Some (r2, s2) \<Rightarrow> if 56320 \<le> r2 \<and> r2 \<le> 57343
                 then Some ((r - 55296) * 1024 + (r2 - 56320) + 65536, s2) else None
            | None \<Rightarrow> None)
      else None)"

lemma hex4_value_length: "hex4_value s = Some (r, t) \<Longrightarrow> length t < length s"
  by (cases s rule: hex4_value.cases) (auto split: option.splits)

lemma low_surrogate_length: "low_surrogate r s = Some (x, t) \<Longrightarrow> length t < length s"
  by (auto simp: low_surrogate_def split: if_splits option.splits dest!: hex4_value_length)

definition escape_char :: "char \<Rightarrow> char option" where
  "escape_char e =
     (if e = dquote \<or> e = bslash \<or> e = slash then Some e
      else if e = CHR ''b'' then Some (CHR 0x08) else if e = CHR ''f'' then Some (CHR 0x0C)
      else if e = CHR ''n'' then Some (CHR 0x0A) else if e = CHR ''r'' then Some (CHR 0x0D)
      else if e = CHR ''t'' then Some (CHR 0x09) else None)"

definition prepend :: "string \<Rightarrow> (string \<times> string) option \<Rightarrow> (string \<times> string) option" where
  "prepend p r = map_option (\<lambda>(v, s). (p @ v, s)) r"

text \<open>The text after an opening quote: the value and the text after the closing quote.\<close>

function json_unquote :: "string \<Rightarrow> (string \<times> string) option" where
  "json_unquote [] = None"
| "json_unquote (c # cs) =
     (if c = dquote then Some ([], cs)
      else if c = bslash then
        (case cs of
           [] \<Rightarrow> None
         | e # es \<Rightarrow>
             if e = CHR ''u'' then
               (case hex4_value es of
                  None \<Rightarrow> None
                | Some (r, t) \<Rightarrow>
                    if is_surrogate r then
                      (case low_surrogate r t of
                         Some (r2, t2) \<Rightarrow> prepend (encode_rune r2) (json_unquote t2)
                       | None \<Rightarrow> prepend (encode_rune RuneError) (json_unquote t))
                    else prepend (encode_rune r) (json_unquote t))
             else (case escape_char e of None \<Rightarrow> None | Some x \<Rightarrow> prepend [x] (json_unquote es)))
      else if byte c < 32 then None
      else if ascii c then prepend [c] (json_unquote cs)
      else (case decode_rune (c # cs) of
              None \<Rightarrow> prepend (encode_rune RuneError) (json_unquote cs)
            | Some (r, n) \<Rightarrow> prepend (take n (c # cs)) (json_unquote (drop (n - 1) cs))))"
  by pat_completeness auto
termination
  by (relation "measure length") (auto dest!: hex4_value_length low_surrogate_length)

subsection \<open>Numbers\<close>

definition is_digit_char :: "char \<Rightarrow> bool" where
  "is_digit_char c \<longleftrightarrow> 48 \<le> byte c \<and> byte c \<le> 57"

definition span_digits :: "string \<Rightarrow> string \<times> string" where
  "span_digits s = (takeWhile is_digit_char s, dropWhile is_digit_char s)"

text \<open>\<open>-? (0 | [1-9][0-9]*) (. [0-9]+)? ([eE] [+-]? [0-9]+)?\<close>: the literal and the text after it.\<close>

definition num_int :: "string \<Rightarrow> (string \<times> string) option" where
  "num_int s =
     (case s of
        [] \<Rightarrow> None
      | c # cs \<Rightarrow> if c = CHR ''0'' then Some ([c], cs)
                 else if is_digit_char c then Some (span_digits s) else None)"

definition num_frac :: "string \<Rightarrow> (string \<times> string) option" where
  "num_frac s =
     (case s of
        c # cs \<Rightarrow> if c = CHR ''.'' then (let (d, r) = span_digits cs in if d = [] then None else Some (c # d, r))
                 else Some ([], s)
      | [] \<Rightarrow> Some ([], s))"

definition num_exp :: "string \<Rightarrow> (string \<times> string) option" where
  "num_exp s =
     (case s of
        c # cs \<Rightarrow>
          if c = CHR ''e'' \<or> c = CHR ''E'' then
            (let sign = (case cs of x # _ \<Rightarrow> if x = CHR ''+'' \<or> x = CHR ''-'' then [x] else [] | [] \<Rightarrow> []);
                 (d, r) = span_digits (drop (length sign) cs)
             in if d = [] then None else Some (c # sign @ d, r))
          else Some ([], s)
      | [] \<Rightarrow> Some ([], s))"

definition json_number :: "string \<Rightarrow> (string \<times> string) option" where
  "json_number s =
     (let sign = (case s of c # _ \<Rightarrow> if c = CHR ''-'' then [c] else [] | [] \<Rightarrow> []) in
      case num_int (drop (length sign) s) of
        None \<Rightarrow> None
      | Some (i, r) \<Rightarrow>
          (case num_frac r of
             None \<Rightarrow> None
           | Some (f, r2) \<Rightarrow> (case num_exp r2 of None \<Rightarrow> None | Some (e, r3) \<Rightarrow> Some (sign @ i @ f @ e, r3))))"

text \<open>\<open>strconv.ParseInt\<close> of a literal for a 64-bit field.\<close>

fun digits_value :: "int \<Rightarrow> string \<Rightarrow> int option" where
  "digits_value acc [] = Some acc"
| "digits_value acc (c # cs) = (if is_digit_char c then digits_value (acc * 10 + (byte c - 48)) cs else None)"

definition parse_int64 :: "string \<Rightarrow> int option" where
  "parse_int64 s =
     (let neg = (s \<noteq> [] \<and> hd s = CHR ''-''); ds = (if neg then tl s else s) in
      if ds = [] then None
      else (case digits_value 0 ds of
              None \<Rightarrow> None
            | Some v \<Rightarrow> (let n = (if neg then - v else v) in
                if - (2 ^ 63) \<le> n \<and> n < 2 ^ 63 then Some n else None)))"

subsection \<open>Values\<close>

text \<open>
  \<open>parse_value\<close> skips leading white space; \<open>parse_members\<close> and \<open>parse_elements\<close> start at the first
  byte of a member or element and read up to and including the closing bracket.
\<close>

definition json_literal :: "string \<Rightarrow> (json \<times> string) option" where
  "json_literal s =
     (if prefix ''null'' s then Some (JNull, drop 4 s)
      else if prefix ''true'' s then Some (JBool True, drop 4 s)
      else if prefix ''false'' s then Some (JBool False, drop 5 s)
      else map_option (\<lambda>(n, r). (JNum n, r)) (json_number s))"

fun parse_value :: "nat \<Rightarrow> string \<Rightarrow> (json \<times> string) option"
and parse_members :: "nat \<Rightarrow> string \<Rightarrow> ((string \<times> string \<times> json) list \<times> string) option"
and parse_elements :: "nat \<Rightarrow> string \<Rightarrow> (json list \<times> string) option" where
  "parse_value 0 s = None"
| "parse_value (Suc n) s =
     (case skip_ws s of
        [] \<Rightarrow> None
      | c # cs \<Rightarrow>
          if c = CHR ''{'' then
            (case skip_ws cs of
               [] \<Rightarrow> None
             | d # ds \<Rightarrow> if d = CHR ''}'' then Some (JObj [], ds)
                        else map_option (\<lambda>(ms, r). (JObj ms, r)) (parse_members n (d # ds)))
          else if c = CHR ''['' then
            (case skip_ws cs of
               [] \<Rightarrow> None
             | d # ds \<Rightarrow> if d = CHR '']'' then Some (JArr [], ds)
                        else map_option (\<lambda>(es, r). (JArr es, r)) (parse_elements n (d # ds)))
          else if c = dquote then map_option (\<lambda>(v, r). (JStr v, r)) (json_unquote cs)
          else json_literal (c # cs))"
| "parse_members 0 s = None"
| "parse_members (Suc n) s =
     (case s of
        [] \<Rightarrow> None
      | q # qs \<Rightarrow>
          if q \<noteq> dquote then None
          else (case json_unquote qs of
                  None \<Rightarrow> None
                | Some (k, r) \<Rightarrow>
                    (case skip_ws r of
                       [] \<Rightarrow> None
                     | c # r1 \<Rightarrow>
                         if c \<noteq> CHR '':'' then None
                         else (case parse_value n r1 of
                                 None \<Rightarrow> None
                               | Some (v, r2) \<Rightarrow>
                                   (let m = (k, take (length (skip_ws r1) - length r2) (skip_ws r1), v) in
                                    case skip_ws r2 of
                                      [] \<Rightarrow> None
                                    | d # r3 \<Rightarrow>
                                        if d = CHR ''}'' then Some ([m], r3)
                                        else if d = CHR '','' then map_option (\<lambda>(ms, t). (m # ms, t)) (parse_members n (skip_ws r3))
                                        else None)))))"
| "parse_elements 0 s = None"
| "parse_elements (Suc n) s =
     (case parse_value n s of
        None \<Rightarrow> None
      | Some (v, r) \<Rightarrow>
          (case skip_ws r of
             [] \<Rightarrow> None
           | d # r1 \<Rightarrow>
               if d = CHR '']'' then Some ([v], r1)
               else if d = CHR '','' then map_option (\<lambda>(es, t). (v # es, t)) (parse_elements n (skip_ws r1))
               else None))"

text \<open>One value with nothing but white space after it, as two \<open>Decode\<close> calls up to \<open>io.EOF\<close> require.\<close>

definition parse_json :: "string \<Rightarrow> json option" where
  "parse_json s =
     (case parse_value (2 * length s + 2) s of
        Some (j, r) \<Rightarrow> if skip_ws r = [] then Some j else None
      | None \<Rightarrow> None)"

subsection \<open>Fields\<close>

text \<open>
  Keys match a field by name, or else after folding. The field names of the program are ASCII, and the
  only code points above ASCII whose fold class has an ASCII member are U+017F and U+212A.
\<close>

definition fold_rune :: "int \<Rightarrow> int" where
  "fold_rune r = (if 97 \<le> r \<and> r \<le> 122 then r - 32 else if r = 383 then 83 else if r = 8490 then 75 else r)"

definition fold_name :: "string \<Rightarrow> int list" where
  "fold_name s = map fold_rune (runes s)"

definition field_of :: "string list \<Rightarrow> string \<Rightarrow> string option" where
  "field_of names key =
     (if key \<in> set names then Some key else find (\<lambda>n. fold_name n = fold_name key) names)"

definition dec_string :: "string \<Rightarrow> json \<Rightarrow> string option" where
  "dec_string old j = (case j of JNull \<Rightarrow> Some old | JStr s \<Rightarrow> Some s | _ \<Rightarrow> None)"

definition dec_int :: "int \<Rightarrow> json \<Rightarrow> int option" where
  "dec_int old j = (case j of JNull \<Rightarrow> Some old | JNum n \<Rightarrow> parse_int64 n | _ \<Rightarrow> None)"

fun dec_list :: "(json \<Rightarrow> 'a option) \<Rightarrow> json list \<Rightarrow> 'a list option" where
  "dec_list f [] = Some []"
| "dec_list f (j # js) =
     (case f j of None \<Rightarrow> None | Some x \<Rightarrow> (case dec_list f js of None \<Rightarrow> None | Some xs \<Rightarrow> Some (x # xs)))"

definition dec_strings :: "json \<Rightarrow> string list option" where
  "dec_strings j = (case j of JNull \<Rightarrow> Some [] | JArr js \<Rightarrow> dec_list (dec_string []) js | _ \<Rightarrow> None)"

text \<open>A struct: each member is stored by the setter of its field, an unknown member is an error.\<close>

fun dec_members :: "('a \<Rightarrow> string \<Rightarrow> string \<Rightarrow> json \<Rightarrow> 'a option) \<Rightarrow> string list \<Rightarrow> 'a \<Rightarrow> (string \<times> string \<times> json) list \<Rightarrow> 'a option" where
  "dec_members setter names x [] = Some x"
| "dec_members setter names x ((k, raw, v) # ms) =
     (case field_of names k of
        None \<Rightarrow> None
      | Some n \<Rightarrow> (case setter x n raw v of None \<Rightarrow> None | Some y \<Rightarrow> dec_members setter names y ms))"

definition dec_struct :: "('a \<Rightarrow> string \<Rightarrow> string \<Rightarrow> json \<Rightarrow> 'a option) \<Rightarrow> string list \<Rightarrow> 'a \<Rightarrow> json \<Rightarrow> 'a option" where
  "dec_struct setter names old j =
     (case j of JNull \<Rightarrow> Some old | JObj ms \<Rightarrow> dec_members setter names old ms | _ \<Rightarrow> None)"

subsection \<open>Runes read back\<close>

lemma byte_of_byte_id: "0 \<le> n \<Longrightarrow> n < 256 \<Longrightarrow> byte (of_byte n) = n"
  by (simp add: byte_of_byte)

lemma of_byte_eqI: "n = byte c \<Longrightarrow> of_byte n = c"
  by simp

lemma cont_split:
  assumes "0 \<le> y" "y < (64::int)"
  shows "(x * 64 + y) div 64 = x" "(x * 64 + y) mod 64 = y"
  using assms by (simp_all add: div_add1_eq)

lemma encode_decode_rune: "decode_rune s = Some (r, n) \<Longrightarrow> encode_rune r = take n s"
proof (cases s)
  case (Cons c0 cs)
  assume d: "decode_rune s = Some (r, n)"
  let ?b0 = "byte c0"
  consider (one) "?b0 < 128" | (two) "194 \<le> ?b0" "?b0 \<le> 223" | (three) "224 \<le> ?b0" "?b0 \<le> 239" | (four) "240 \<le> ?b0" "?b0 \<le> 244"
    using d Cons by (force simp: decode_rune.simps Let_def split: if_splits)
  then show ?thesis
  proof cases
    case one
    with d Cons show ?thesis by (auto simp: decode_rune.simps Let_def encode_rune_def)
  next
    case two
    with d Cons obtain c1 t where cs: "cs = c1 # t" "cont_byte c1" "r = (?b0 - 192) * 64 + (byte c1 - 128)" "n = 2"
      by (auto simp: decode_rune.simps Let_def split: if_splits list.splits)
    have y: "0 \<le> byte c1 - 128" "byte c1 - 128 < 64" using cs(2) by (auto simp: cont_byte_def)
    note sp = cont_split [OF y, of "?b0 - 192"]
    have "128 \<le> r" "r < 2048" using two y cs(3) by auto
    then show ?thesis
      using Cons cs(1,4) sp by (simp add: encode_rune_def Let_def cs(3))
  next
    case three
    with d Cons obtain c1 c2 t where cs: "cs = c1 # c2 # t" "128 \<le> byte c1" "byte c1 \<le> 191" "cont_byte c2"
        "r = (?b0 - 224) * 4096 + (byte c1 - 128) * 64 + (byte c2 - 128)" "n = 3"
        "?b0 = 224 \<longrightarrow> 160 \<le> byte c1" "?b0 = 237 \<longrightarrow> byte c1 \<le> 159"
      by (auto simp: decode_rune.simps Let_def split: if_splits list.splits)
    have y: "0 \<le> byte c2 - 128" "byte c2 - 128 < 64" "0 \<le> byte c1 - 128" "byte c1 - 128 < 64"
      using cs(2-4) by (auto simp: cont_byte_def)
    have r: "r = ((?b0 - 224) * 64 + (byte c1 - 128)) * 64 + (byte c2 - 128)" using cs(5) by simp
    have d64: "r div 64 = (?b0 - 224) * 64 + (byte c1 - 128)" "r mod 64 = byte c2 - 128"
      unfolding r by (rule cont_split [OF y(1,2)])+
    have d4096: "r div 4096 = ?b0 - 224" "r div 64 mod 64 = byte c1 - 128"
      using cont_split [OF y(3,4), of "?b0 - 224"] d64 zdiv_zmult2_eq [of 64 r 64] by auto
    have "2048 \<le> r" "r < 65536" "\<not> (55296 \<le> r \<and> r \<le> 57343)"
      using three y cs(5,7,8) by (cases "?b0 = 224"; cases "?b0 = 237"; auto)+
    then have "encode_rune r = [of_byte (224 + r div 4096), of_byte (128 + r div 64 mod 64), of_byte (128 + r mod 64)]"
      unfolding encode_rune_def Let_def by auto
    also have "\<dots> = [c0, c1, c2]" unfolding d4096 d64(2) by simp
    finally show ?thesis using Cons cs(1,6) by simp
  next
    case four
    with d Cons obtain c1 c2 c3 t where cs: "cs = c1 # c2 # c3 # t" "128 \<le> byte c1" "byte c1 \<le> 191" "cont_byte c2" "cont_byte c3"
        "r = (?b0 - 240) * 262144 + (byte c1 - 128) * 4096 + (byte c2 - 128) * 64 + (byte c3 - 128)" "n = 4"
        "?b0 = 240 \<longrightarrow> 144 \<le> byte c1" "?b0 = 244 \<longrightarrow> byte c1 \<le> 143"
      by (auto simp: decode_rune.simps Let_def split: if_splits list.splits)
    have y: "0 \<le> byte c3 - 128" "byte c3 - 128 < 64" "0 \<le> byte c2 - 128" "byte c2 - 128 < 64" "0 \<le> byte c1 - 128" "byte c1 - 128 < 64"
      using cs(2-5) by (auto simp: cont_byte_def)
    have r: "r = (((?b0 - 240) * 64 + (byte c1 - 128)) * 64 + (byte c2 - 128)) * 64 + (byte c3 - 128)" using cs(6) by simp
    have d64: "r div 64 = ((?b0 - 240) * 64 + (byte c1 - 128)) * 64 + (byte c2 - 128)" "r mod 64 = byte c3 - 128"
      unfolding r by (rule cont_split [OF y(1,2)])+
    have d4096: "r div 4096 = (?b0 - 240) * 64 + (byte c1 - 128)" "r div 64 mod 64 = byte c2 - 128"
      using cont_split [OF y(3,4), of "(?b0 - 240) * 64 + (byte c1 - 128)"] d64 zdiv_zmult2_eq [of 64 r 64] by auto
    have d262144: "r div 262144 = ?b0 - 240" "r div 4096 mod 64 = byte c1 - 128"
      using cont_split [OF y(5,6), of "?b0 - 240"] d4096 zdiv_zmult2_eq [of 64 r 4096] by auto
    have "65536 \<le> r" "r \<le> 1114111"
      using four y cs(6,8,9) by (cases "?b0 = 240"; cases "?b0 = 244"; auto)+
    then have "encode_rune r = [of_byte (240 + r div 262144), of_byte (128 + r div 4096 mod 64),
                  of_byte (128 + r div 64 mod 64), of_byte (128 + r mod 64)]"
      unfolding encode_rune_def Let_def by auto
    also have "\<dots> = [c0, c1, c2, c3]" unfolding d4096(2) d64(2) d262144 by simp
    finally show ?thesis using Cons cs(1,7) by simp
  qed
qed simp

lemma decode_rune_prefix: "decode_rune s = Some (r, n) \<Longrightarrow> decode_rune (take n s @ t) = Some (r, n)"
  by (cases s) (auto simp: decode_rune.simps Let_def split: if_splits list.splits)

lemma decode_rune_nonascii: "decode_rune (c # cs) = Some (r, n) \<Longrightarrow> \<not> ascii c \<Longrightarrow> 128 \<le> r"
  by (auto simp: decode_rune.simps Let_def ascii_def cont_byte_def split: if_splits list.splits)

subsection \<open>Strings read back\<close>

declare json_unquote.simps(2) [simp del]

lemma unquote_end [simp]: "json_unquote (dquote # t) = Some ([], t)"
  by (simp add: json_unquote.simps)

lemma unquote_escape:
  "escape_char e = Some x \<Longrightarrow> e \<noteq> CHR ''u'' \<Longrightarrow> json_unquote (bslash # e # es) = prepend [x] (json_unquote es)"
  by (simp add: json_unquote.simps)

lemma unquote_plain:
  "c \<noteq> dquote \<Longrightarrow> c \<noteq> bslash \<Longrightarrow> \<not> byte c < 32 \<Longrightarrow> ascii c \<Longrightarrow> json_unquote (c # t) = prepend [c] (json_unquote t)"
  by (simp add: json_unquote.simps)

lemma unquote_u:
  "hex4_value es = Some (r, t) \<Longrightarrow> \<not> is_surrogate r \<Longrightarrow>
   json_unquote (bslash # CHR ''u'' # es) = prepend (encode_rune r) (json_unquote t)"
  by (simp add: json_unquote.simps)

lemma hex_value_digit: "0 \<le> k \<Longrightarrow> k < 16 \<Longrightarrow> hex_value (hex_digit k) = Some k"
  by (auto simp: hex_value_def hex_digit_def Let_def byte_of_byte_id)

lemma hex4_value_print:
  assumes "0 \<le> r" "r < 65536"
  shows "hex4_value (drop 2 (json_hex4 r) @ t) = Some (r, t)"
proof -
  have q: "r div 16 div 16 = r div 256" "r div 256 div 16 = r div 4096"
    by (simp_all flip: zdiv_zmult2_eq)
  have hi: "0 \<le> r div 4096" "r div 4096 < 16" using assms by (auto simp: div_less_iff_less_mult)
  then have hi': "r div 4096 mod 16 = r div 4096" by simp
  have sum: "r div 4096 * 4096 + r div 256 mod 16 * 256 + r div 16 mod 16 * 16 + r mod 16 = r"
    using div_mult_mod_eq [of r 16] div_mult_mod_eq [of "r div 16" 16] div_mult_mod_eq [of "r div 256" 16]
    unfolding q by linarith
  have hv: "hex_value (hex_digit (x mod 16)) = Some (x mod 16)" for x by (rule hex_value_digit) simp_all
  show ?thesis
    by (simp only: json_hex4_def drop_Suc_Cons drop_0 numeral_2_eq_2 append.simps hex4_value.simps hv hex_value_digit [OF hi] prod.case option.case hi' sum)
qed

lemma unquote_hex4:
  assumes "0 \<le> r" "r < 65536" "\<not> is_surrogate r"
  shows "json_unquote (json_hex4 r @ t) = prepend (encode_rune r) (json_unquote t)"
proof -
  have eq: "json_hex4 r @ t = bslash # CHR ''u'' # drop 2 (json_hex4 r) @ t" by (simp add: json_hex4_def)
  show ?thesis unfolding eq by (rule unquote_u [OF hex4_value_print [OF assms(1,2)] assms(3)])
qed

lemma unquote_ascii:
  assumes "ascii c"
  shows "json_unquote (json_ascii c @ t) = prepend [c] (json_unquote t)"
proof -
  have e: "encode_rune (byte c) = [c]" using assms by (auto simp: encode_rune_def Let_def ascii_def)
  have h: "json_unquote (json_hex4 (byte c) @ t) = prepend [c] (json_unquote t)"
    using unquote_hex4 [of "byte c" t] assms e by (simp add: is_surrogate_def ascii_def)
  show ?thesis
    using h assms by (auto simp: json_ascii_def unquote_escape escape_char_def unquote_plain)
qed

lemma prepend_Some [simp]: "prepend p (Some (v, s)) = Some (p @ v, s)"
  by (simp add: prepend_def)

lemma unquote_rune:
  assumes d: "decode_rune (c # cs) = Some (r, n)" and na: "\<not> ascii c"
  shows "json_unquote (take n (c # cs) @ t) = prepend (take n (c # cs)) (json_unquote t)"
proof -
  have n: "0 < n" "n \<le> length (c # cs)" using decode_rune_width [OF d] by auto
  then obtain m where m: "n = Suc m" by (cases n) auto
  have dr: "decode_rune (c # take m cs @ t) = Some (r, Suc m)" using decode_rune_prefix [OF d, of t] m by simp
  have "c \<noteq> dquote" "c \<noteq> bslash" "\<not> byte c < 32" using na by (auto simp: ascii_def byte_def)
  then have "json_unquote (c # take m cs @ t) = prepend (take (Suc m) (c # take m cs @ t)) (json_unquote (drop m (take m cs @ t)))"
    using na dr by (simp add: json_unquote.simps)
  then show ?thesis using n m by (simp add: min_def)
qed

lemma unquote_body: "valid_utf8 s \<Longrightarrow> json_unquote (json_body s @ dquote # t) = Some (s, t)"
proof (induction s rule: json_body.induct)
  case (2 c cs)
  show ?case
  proof (cases "ascii c")
    case True
    with 2 show ?thesis by (simp add: unquote_ascii)
  next
    case False
    with "2.prems" obtain r n where d: "decode_rune (c # cs) = Some (r, n)" by (auto split: option.splits)
    then have ih: "json_unquote (json_body (drop (n - 1) cs) @ dquote # t) = Some (drop (n - 1) cs, t)"
      using "2.IH"(3) [OF False d refl] "2.prems" by simp
    have w: "0 < n" "n \<le> length (c # cs)" using decode_rune_width [OF d] by auto
    then have whole: "take n (c # cs) @ drop (n - 1) cs = c # cs" by (cases n) auto
    show ?thesis
    proof (cases "r = 8232 \<or> r = 8233")
      case True
      then have "json_unquote (json_hex4 r @ json_body (drop (n - 1) cs) @ dquote # t) = Some (encode_rune r @ drop (n - 1) cs, t)"
        using unquote_hex4 [of r] ih by (auto simp: is_surrogate_def)
      then show ?thesis using False d True whole encode_decode_rune [OF d] by (simp)
    next
      case no: False
      then show ?thesis using False d ih whole unquote_rune [OF d False, of "json_body (drop (n - 1) cs) @ dquote # t"]
        by (simp)
    qed
  qed
qed simp

subsection \<open>Numbers read back\<close>

lemma digit_char_digit: "0 \<le> k \<Longrightarrow> k < 10 \<Longrightarrow> is_digit_char (of_byte (48 + k)) \<and> byte (of_byte (48 + k)) = 48 + k"
  by (simp add: is_digit_char_def byte_of_byte_id)

lemma decimal_digits: "0 \<le> n \<Longrightarrow> decimal n \<noteq> [] \<and> list_all is_digit_char (decimal n)"
proof (induction n rule: decimal.induct)
  case (1 n)
  then show ?case
    by (subst (1 2) decimal.simps) (auto simp: digit_char_digit pos_imp_zdiv_nonneg_iff)
qed

lemma decimal_hd: "0 < n \<Longrightarrow> hd (decimal n) \<noteq> CHR ''0''"
proof (induction n rule: decimal.induct)
  case (1 n)
  show ?case
  proof (cases "n < 10")
    case True
    have "byte (of_byte (48 + n)) = 48 + n" using True "1.prems" by (simp add: byte_of_byte_id)
    moreover have "byte (CHR ''0'') = 48" by (simp add: byte_def)
    ultimately have "byte (of_byte (48 + n)) \<noteq> byte (CHR ''0'')" using "1.prems" by simp
    then have "of_byte (48 + n) \<noteq> CHR ''0''" by (metis byte_inject)
    with True show ?thesis by (subst decimal.simps) simp
  next
    case False
    then have "0 < n div 10" by (simp add: pos_imp_zdiv_pos_iff)
    moreover have "decimal (n div 10) \<noteq> []" using decimal_digits calculation by auto
    ultimately show ?thesis using "1.IH" False by (subst decimal.simps) simp
  qed
qed

lemma digits_value_append:
  "list_all is_digit_char xs \<Longrightarrow> \<exists>v. digits_value acc xs = Some v \<and> digits_value acc (xs @ ys) = digits_value v ys"
  by (induction xs arbitrary: acc) auto

lemma digits_value_decimal: "0 \<le> n \<Longrightarrow> digits_value 0 (decimal n) = Some n"
proof (induction n rule: decimal.induct)
  case (1 n)
  show ?case
  proof (cases "n < 10")
    case True
    with "1.prems" digit_char_digit [of n] show ?thesis by (subst decimal.simps) simp
  next
    case False
    then have d: "0 \<le> n div 10" "digits_value 0 (decimal (n div 10)) = Some (n div 10)"
      using "1.IH" "1.prems" by (simp_all add: pos_imp_zdiv_nonneg_iff)
    obtain v where v: "digits_value 0 (decimal (n div 10)) = Some v"
        "digits_value 0 (decimal (n div 10) @ [of_byte (48 + n mod 10)]) = digits_value v [of_byte (48 + n mod 10)]"
      using digits_value_append decimal_digits [OF d(1)] by blast
    have "digits_value v [of_byte (48 + n mod 10)] = Some (v * 10 + n mod 10)"
      using digit_char_digit [of "n mod 10"] by simp
    also have "v * 10 + n mod 10 = n" using v(1) d(2) div_mult_mod_eq [of n 10] by auto
    finally show ?thesis using False v(2) by (subst decimal.simps) simp
  qed
qed

definition int64_range :: "int \<Rightarrow> bool" where
  "int64_range n \<longleftrightarrow> - (2 ^ 63) \<le> n \<and> n < 2 ^ 63"

lemma parse_int64_json_int: "int64_range n \<Longrightarrow> parse_int64 (json_int n) = Some n"
proof -
  assume r: "int64_range n"
  have nn: "0 \<le> n \<Longrightarrow> hd (decimal n) \<noteq> CHR ''-''"
    using decimal_digits [of n] by (cases "decimal n") (auto simp: is_digit_char_def byte_def)
  show ?thesis
    using r nn decimal_digits [of n] decimal_digits [of "- n"] digits_value_decimal [of n] digits_value_decimal [of "- n"]
    by (simp add: parse_int64_def json_int_def Let_def int64_range_def)
qed

text \<open>What follows a value in compact text.\<close>

definition value_end :: "string \<Rightarrow> bool" where
  "value_end t \<longleftrightarrow> t = [] \<or> hd t \<in> {CHR '','', CHR ''}'', CHR '']''}"

lemma value_end_digits:
  assumes "list_all is_digit_char ds" "value_end t"
  shows "span_digits (ds @ t) = (ds, t)"
proof -
  have "t = [] \<or> \<not> is_digit_char (hd t)" using assms(2) by (auto simp: value_end_def is_digit_char_def byte_def)
  then have "takeWhile is_digit_char t = [] \<and> dropWhile is_digit_char t = t" by (cases t) auto
  with assms(1) show ?thesis by (simp add: span_digits_def list_all_iff takeWhile_append dropWhile_append)
qed

lemma value_end_frac: "value_end t \<Longrightarrow> num_frac t = Some ([], t) \<and> num_exp t = Some ([], t)"
  by (cases t) (auto simp: num_frac_def num_exp_def value_end_def)

lemma num_int_decimal:
  assumes "0 \<le> n" "value_end t"
  shows "num_int (decimal n @ t) = Some (decimal n, t)"
proof -
  obtain d ds where d: "decimal n = d # ds" "is_digit_char d" "list_all is_digit_char (decimal n)"
    using decimal_digits [OF assms(1)] by (cases "decimal n") auto
  show ?thesis
  proof (cases "n = 0")
    case True
    have "of_byte 48 = CHR ''0''" by (rule of_byte_eqI) (simp add: byte_def)
    then have "decimal 0 = ''0''" by (subst decimal.simps) simp
    with True show ?thesis by (simp add: num_int_def)
  next
    case False
    then have "d \<noteq> CHR ''0''" using decimal_hd [of n] d(1) assms(1) by simp
    with d value_end_digits [OF d(3) assms(2)] show ?thesis by (simp add: num_int_def)
  qed
qed

lemma json_number_int: "value_end t \<Longrightarrow> json_number (json_int n @ t) = Some (json_int n, t)"
proof -
  assume t: "value_end t"
  have nn: "0 \<le> n \<Longrightarrow> decimal n @ t = d # ds \<Longrightarrow> d \<noteq> CHR ''-''" for d ds
    using decimal_digits [of n] by (cases "decimal n") (auto simp: is_digit_char_def byte_def)
  show ?thesis
  proof (cases "n < 0")
    case True
    then show ?thesis using num_int_decimal [of "- n" t] t value_end_frac [OF t] by (simp add: json_number_def json_int_def)
  next
    case False
    then have "(case decimal n @ t of c # _ \<Rightarrow> if c = CHR ''-'' then [c] else [] | [] \<Rightarrow> []) = []"
      using nn by (auto split: list.splits)
    then show ?thesis using False num_int_decimal [of n t] t value_end_frac [OF t] by (simp add: json_number_def json_int_def Let_def)
  qed
qed

subsection \<open>Values read back\<close>

text \<open>The compact text \<open>s\<close> reads as \<open>j\<close>, whatever end of a value follows it, within a bound of its length.\<close>

definition reads :: "string \<Rightarrow> json \<Rightarrow> bool" where
  "reads s j \<longleftrightarrow> s \<noteq> [] \<and> \<not> json_ws (hd s) \<and> hd s \<noteq> CHR '']'' \<and> hd s \<noteq> CHR ''}''
     \<and> (\<forall>n t. length s \<le> n \<and> value_end t \<longrightarrow> parse_value n (s @ t) = Some (j, t))"

lemma skip_ws_start: "s \<noteq> [] \<Longrightarrow> \<not> json_ws (hd s) \<Longrightarrow> skip_ws (s @ t) = s @ t"
  by (cases s) (simp_all add: skip_ws_def)

lemma skip_ws_Cons [simp]: "\<not> json_ws c \<Longrightarrow> skip_ws (c # t) = c # t"
  by (simp add: skip_ws_def)

lemma json_ws_simps [simp]:
  "\<not> json_ws dquote" "\<not> json_ws (CHR ''{'')" "\<not> json_ws (CHR ''}'')" "\<not> json_ws (CHR ''['')" "\<not> json_ws (CHR '']'')"
  "\<not> json_ws (CHR '','')" "\<not> json_ws (CHR '':'')"
  by (simp_all add: json_ws_def)

lemma readsI:
  assumes "s \<noteq> []" "\<not> json_ws (hd s)" "hd s \<noteq> CHR '']''" "hd s \<noteq> CHR ''}''"
    and "\<And>n t. length s \<le> Suc n \<Longrightarrow> value_end t \<Longrightarrow> parse_value (Suc n) (s @ t) = Some (j, t)"
  shows "reads s j"
proof -
  have "parse_value n (s @ t) = Some (j, t)" if "length s \<le> n" "value_end t" for n t
    using that assms(1,5) by (cases n) auto
  with assms(1-4) show ?thesis by (simp add: reads_def)
qed

lemma reads_string: "valid_utf8 v \<Longrightarrow> reads (json_string v) (JStr v)"
  by (rule readsI) (simp_all add: json_string_def unquote_body)

lemma reads_int: "reads (json_int n) (JNum (json_int n))"
proof (rule readsI)
  obtain c cs where c: "json_int n = c # cs" "c = CHR ''-'' \<or> is_digit_char c"
  proof (cases "n < 0")
    case True
    with that show ?thesis by (simp add: json_int_def)
  next
    case False
    with that decimal_digits [of n] show ?thesis by (cases "decimal n") (simp_all add: json_int_def)
  qed
  have nc: "c \<notin> {CHR ''{'', CHR ''['', dquote, CHR ''n'', CHR ''t'', CHR ''f'', CHR '']'', CHR ''}''}" "\<not> json_ws c"
    using c(2) by (auto simp: is_digit_char_def byte_def json_ws_def)
  then show "json_int n \<noteq> []" "\<not> json_ws (hd (json_int n))" "hd (json_int n) \<noteq> CHR '']''" "hd (json_int n) \<noteq> CHR ''}''"
    by (simp_all add: c(1))
  fix m t assume "value_end t"
  with nc json_number_int [OF this, of n] show "parse_value (Suc m) (json_int n @ t) = Some (JNum (json_int n), t)"
    by (auto simp: c(1) json_literal_def)
qed

lemma reads_literal:
  "reads ''null'' JNull" "reads (json_bool b) (JBool b)"
  by (rule readsI; cases b; simp add: json_literal_def json_bool_def json_ws_def)+

lemma json_sep_Cons: "json_sep (x # xs) = x @ concat (map (\<lambda>y. CHR '','' # y) xs)"
  by (induction xs arbitrary: x) auto

lemma parse_elements_sep:
  "list_all2 reads (s # ss) (j # js) \<Longrightarrow> length (json_sep (s # ss)) < n \<Longrightarrow>
   parse_elements n (json_sep (s # ss) @ CHR '']'' # t) = Some (j # js, t)"
proof (induction ss arbitrary: s j js n)
  case Nil
  then obtain m where m: "n = Suc m" by (cases n) auto
  with Nil show ?case by (auto simp: reads_def value_end_def)
next
  case (Cons s' ss)
  then obtain m j' js' where m: "n = Suc m" and js: "js = j' # js'" by (cases n; cases js) auto
  have r: "reads s j" "reads s' j'" and rs: "list_all2 reads (s' # ss) (j' # js')" using Cons.prems(1) js by auto
  have v: "parse_value m (s @ CHR '','' # json_sep (s' # ss) @ CHR '']'' # t) = Some (j, CHR '','' # json_sep (s' # ss) @ CHR '']'' # t)"
    using r(1) Cons.prems(2) m by (simp add: reads_def value_end_def)
  have st: "json_sep (s' # ss) \<noteq> []" "\<not> json_ws (hd (json_sep (s' # ss)))"
    using r(2) by (auto simp: json_sep_Cons reads_def)
  have "parse_elements m (json_sep (s' # ss) @ CHR '']'' # t) = Some (j' # js', t)"
    using Cons.IH [OF rs, of m] Cons.prems(2) m by simp
  with v st m js show ?case by (simp add: skip_ws_start)
qed

lemma reads_array: "list_all2 reads ss js \<Longrightarrow> reads (json_array ss) (JArr js)"
proof (rule readsI)
  fix n t assume l: "list_all2 reads ss js" and n: "length (json_array ss) \<le> Suc n" and "value_end t"
  show "parse_value (Suc n) (json_array ss @ t) = Some (JArr js, t)"
  proof (cases ss)
    case Nil
    with l show ?thesis by (simp add: json_array_def)
  next
    case (Cons s ss')
    with l obtain j js' where js: "js = j # js'" by (cases js) auto
    have r: "reads s j" using l Cons js by simp
    then obtain c cs where c: "s = c # cs" "\<not> json_ws c" "c \<noteq> CHR '']''" by (cases s) (auto simp: reads_def)
    have "parse_elements n (json_sep (s # ss') @ CHR '']'' # t) = Some (j # js', t)"
      using parse_elements_sep [of s ss' j js' n t] l Cons js n by (simp add: json_array_def)
    with c Cons js show ?thesis by (simp add: json_array_def json_sep_Cons)
  qed
qed (simp_all add: json_array_def)

text \<open>Members of an object, as printed and as read.\<close>

definition reads_member :: "string \<times> string \<Rightarrow> string \<times> string \<times> json \<Rightarrow> bool" where
  "reads_member f m \<longleftrightarrow> valid_utf8 (fst f) \<and> fst m = fst f \<and> fst (snd m) = snd f \<and> reads (snd f) (snd (snd m))"

abbreviation member_text :: "string \<times> string \<Rightarrow> string" where
  "member_text f \<equiv> json_string (fst f) @ CHR '':'' # snd f"

lemma parse_members_sep:
  "list_all2 reads_member (f # fs) (m # ms) \<Longrightarrow> length (json_sep (map member_text (f # fs))) < n \<Longrightarrow>
   parse_members n (json_sep (map member_text (f # fs)) @ CHR ''}'' # t) = Some (m # ms, t)"
proof (induction fs arbitrary: f m ms n)
  case Nil
  then obtain i where i: "n = Suc i" by (cases n) auto
  with Nil show ?case
    by (cases m) (auto simp: reads_member_def reads_def json_string_def unquote_body value_end_def skip_ws_start)
next
  case (Cons f' fs)
  then obtain i m' ms' where i: "n = Suc i" and ms: "ms = m' # ms'" by (cases n; cases ms) auto
  have r: "reads_member f m" and rs: "list_all2 reads_member (f' # fs) (m' # ms')" using Cons.prems(1) ms by auto
  let ?rest = "json_sep (map member_text (f' # fs)) @ CHR ''}'' # t"
  have v: "parse_value i (snd f @ CHR '','' # ?rest) = Some (snd (snd m), CHR '','' # ?rest)"
    using r Cons.prems(2) i by (simp add: reads_member_def reads_def value_end_def json_string_def)
  have sk: "skip_ws (snd f @ CHR '','' # ?rest) = snd f @ CHR '','' # ?rest"
    using r by (simp add: reads_member_def reads_def skip_ws_start)
  have st: "skip_ws ?rest = ?rest" by (cases fs) (simp_all add: json_string_def)
  have "parse_members i ?rest = Some (m' # ms', t)"
    using Cons.IH [OF rs, of i] Cons.prems(2) i by simp
  with v sk st i ms r show ?case
    by (cases m) (simp add: json_string_def unquote_body reads_member_def)
qed

lemma json_object_text: "json_object fs = CHR ''{'' # json_sep (map member_text fs) @ ''}''"
proof -
  have "(\<lambda>(k, v). json_string k @ CHR '':'' # v) = member_text" by (simp add: fun_eq_iff)
  then show ?thesis by (simp only: json_object_def)
qed

lemma reads_object: "list_all2 reads_member fs ms \<Longrightarrow> reads (json_object fs) (JObj ms)"
proof (rule readsI)
  fix n t assume l: "list_all2 reads_member fs ms" and n: "length (json_object fs) \<le> Suc n" and "value_end t"
  show "parse_value (Suc n) (json_object fs @ t) = Some (JObj ms, t)"
  proof (cases fs)
    case Nil
    with l show ?thesis by (simp add: json_object_text)
  next
    case (Cons f fs')
    with l obtain m ms' where ms: "ms = m # ms'" by (cases ms) auto
    let ?text = "json_sep (map member_text (f # fs'))"
    have p: "parse_members n (?text @ CHR ''}'' # t) = Some (m # ms', t)"
      using parse_members_sep [of f fs' m ms' n t] l Cons ms n by (simp add: json_object_text)
    obtain u where u: "?text = dquote # u" by (cases fs') (simp_all add: json_string_def)
    have "json_object fs @ t = CHR ''{'' # dquote # u @ CHR ''}'' # t" by (simp only: json_object_text Cons u) simp
    with p ms u show ?thesis by simp
  qed
qed (simp_all add: json_object_text)

lemma reads_parse: "reads s j \<Longrightarrow> parse_json s = Some j"
proof -
  assume "reads s j"
  then have "length s \<le> 2 * length s + 2 \<and> value_end [] \<longrightarrow> parse_value (2 * length s + 2) (s @ []) = Some (j, [])"
    unfolding reads_def by blast
  moreover have "length s \<le> 2 * length s + 2" "value_end []" by (simp_all add: value_end_def)
  ultimately have p: "parse_value (2 * length s + 2) s = Some (j, [])" by (simp only: append_Nil2 simp_thms)
  show ?thesis unfolding parse_json_def p by (simp add: skip_ws_def)
qed

end
