(* ===== verification/Context_Codec.thy ===== *)
theory Context_Codec
  imports Filetypes Go_Json_Decode
begin

text \<open>
  The strict decoding of a signed policy context (\<open>filetypes/context.go\<close>): the check for repeated
  keys and nesting, the decoding into \<^typ>\<open>ft_context\<close> and its compilation. The main fact is that a
  context read from the text that \<^const>\<open>marshal_context\<close> writes is the context that was written.
\<close>

subsection \<open>Repeated keys\<close>

text \<open>
  \<open>validateUniqueJSON\<close> walks the tokens of the text; on the parsed value this is a depth of at most 64
  and keys that differ after lowering, at every object. A number too large for a \<open>float64\<close>, which
  the token reader refuses, is no integer and is refused by every field it could be stored in.
\<close>

fun unique_value :: "unicode_tables \<Rightarrow> nat \<Rightarrow> json \<Rightarrow> bool" where
  "unique_value U depth (JObj ms) =
     (depth \<le> 64 \<and> distinct (map (\<lambda>m. ToLower U (fst m)) ms) \<and> list_all (\<lambda>m. unique_value U (Suc depth) (snd (snd m))) ms)"
| "unique_value U depth (JArr js) = (depth \<le> 64 \<and> list_all (unique_value U (Suc depth)) js)"
| "unique_value U depth _ = (depth \<le> 64)"

definition ValidateUniqueJSON :: "unicode_tables \<Rightarrow> string \<Rightarrow> bool" where
  "ValidateUniqueJSON U data = (case parse_json data of None \<Rightarrow> False | Some j \<Rightarrow> unique_value U 0 j)"

subsection \<open>Fields\<close>

definition selector_names :: "string list" where
  "selector_names = [''classes'', ''extensions'', ''names'']"

definition set_selector :: "selector \<Rightarrow> string \<Rightarrow> string \<Rightarrow> json \<Rightarrow> selector option" where
  "set_selector s n raw v =
     (if n = ''classes'' then map_option (\<lambda>x. s\<lparr>sel_Classes := x\<rparr>) (dec_strings v)
      else if n = ''extensions'' then map_option (\<lambda>x. s\<lparr>sel_Extensions := x\<rparr>) (dec_strings v)
      else map_option (\<lambda>x. s\<lparr>sel_Names := x\<rparr>) (dec_strings v))"

definition empty_selector :: selector where
  "empty_selector = \<lparr>sel_Classes = [], sel_Extensions = [], sel_Names = []\<rparr>"

definition dec_selector :: "selector option \<Rightarrow> json \<Rightarrow> selector option option" where
  "dec_selector old j =
     (if j = JNull then Some None
      else map_option Some (dec_struct set_selector selector_names (case old of None \<Rightarrow> empty_selector | Some s \<Rightarrow> s) j))"

definition rule_names :: "string list" where
  "rule_names = [''policy_id'', ''path'', ''capabilities'', ''file_types'', ''visibility'']"

definition set_rule :: "ft_rule \<Rightarrow> string \<Rightarrow> string \<Rightarrow> json \<Rightarrow> ft_rule option" where
  "set_rule r n raw v =
     (if n = ''policy_id'' then map_option (\<lambda>x. r\<lparr>ftr_PolicyID := x\<rparr>) (dec_string (ftr_PolicyID r) v)
      else if n = ''path'' then map_option (\<lambda>x. r\<lparr>ftr_Path := x\<rparr>) (dec_string (ftr_Path r) v)
      else if n = ''capabilities'' then map_option (\<lambda>x. r\<lparr>ftr_Capabilities := x\<rparr>) (dec_strings v)
      else if n = ''file_types'' then map_option (\<lambda>x. r\<lparr>ftr_FileTypes := x\<rparr>) (dec_selector (ftr_FileTypes r) v)
      else map_option (\<lambda>x. r\<lparr>ftr_Visibility := x\<rparr>) (dec_string (ftr_Visibility r) v))"

definition empty_rule :: ft_rule where
  "empty_rule = \<lparr>ftr_PolicyID = [], ftr_Path = [], ftr_Capabilities = [], ftr_FileTypes = None, ftr_Visibility = []\<rparr>"

definition dec_rules :: "json \<Rightarrow> ft_rule list option" where
  "dec_rules j = (case j of JNull \<Rightarrow> Some [] | JArr js \<Rightarrow> dec_list (dec_struct set_rule rule_names empty_rule) js | _ \<Rightarrow> None)"

definition context_names :: "string list" where
  "context_names = [''version'', ''rules'']"

definition set_context :: "ft_context \<Rightarrow> string \<Rightarrow> string \<Rightarrow> json \<Rightarrow> ft_context option" where
  "set_context c n raw v =
     (if n = ''version'' then map_option (\<lambda>x. c\<lparr>ctx_Version := x\<rparr>) (dec_int (ctx_Version c) v)
      else map_option (\<lambda>x. c\<lparr>ctx_Rules := x\<rparr>) (dec_rules v))"

definition dec_context :: "json \<Rightarrow> ft_context option" where
  "dec_context j = dec_struct set_context context_names \<lparr>ctx_Version = 0, ctx_Rules = []\<rparr> j"

text \<open>\<open>DecodeContext\<close>.\<close>

definition DecodeContext :: "unicode_tables \<Rightarrow> string \<Rightarrow> string + ft_filter" where
  "DecodeContext U data =
     (if data = [] \<or> MaxContextBytes < length data then Inl ''invalid context size''
      else if \<not> ValidateUniqueJSON U data then Inl ''invalid context''
      else (case parse_json data of
              None \<Rightarrow> Inl ''invalid context''
            | Some j \<Rightarrow> (case dec_context j of None \<Rightarrow> Inl ''invalid context'' | Some c \<Rightarrow> Context_Compile U c)))"

subsection \<open>What is written is read back\<close>

text \<open>The values that the printed texts stand for, with the text of each member.\<close>

abbreviation strings_text :: "string list \<Rightarrow> string" where
  "strings_text xs \<equiv> json_array (map json_string xs)"

abbreviation strings_tree :: "string list \<Rightarrow> json" where
  "strings_tree xs \<equiv> JArr (map JStr xs)"

definition selector_members :: "selector \<Rightarrow> (string \<times> string \<times> json) list" where
  "selector_members s =
     (if sel_Classes s = [] then [] else [(''classes'', strings_text (sel_Classes s), strings_tree (sel_Classes s))])
     @ (if sel_Extensions s = [] then [] else [(''extensions'', strings_text (sel_Extensions s), strings_tree (sel_Extensions s))])
     @ (if sel_Names s = [] then [] else [(''names'', strings_text (sel_Names s), strings_tree (sel_Names s))])"

definition rule_members :: "ft_rule \<Rightarrow> (string \<times> string \<times> json) list" where
  "rule_members r =
     [(''policy_id'', json_string (ftr_PolicyID r), JStr (ftr_PolicyID r)), (''path'', json_string (ftr_Path r), JStr (ftr_Path r)),
      (''capabilities'', strings_text (ftr_Capabilities r), strings_tree (ftr_Capabilities r))]
     @ (case ftr_FileTypes r of None \<Rightarrow> [] | Some s \<Rightarrow> [(''file_types'', marshal_selector s, JObj (selector_members s))])
     @ (if ftr_Visibility r = [] then [] else [(''visibility'', json_string (ftr_Visibility r), JStr (ftr_Visibility r))])"

definition context_members :: "ft_context \<Rightarrow> (string \<times> string \<times> json) list" where
  "context_members c =
     [(''version'', json_int (ctx_Version c), JNum (json_int (ctx_Version c))),
      (''rules'', json_array (map marshal_rule (ctx_Rules c)), JArr (map (\<lambda>r. JObj (rule_members r)) (ctx_Rules c)))]"

text \<open>Every string of a context is UTF-8 and its version fits an integer field.\<close>

definition selector_utf8 :: "selector \<Rightarrow> bool" where
  "selector_utf8 s \<longleftrightarrow> list_all valid_utf8 (sel_Classes s @ sel_Extensions s @ sel_Names s)"

definition rule_utf8 :: "ft_rule \<Rightarrow> bool" where
  "rule_utf8 r \<longleftrightarrow> valid_utf8 (ftr_PolicyID r) \<and> valid_utf8 (ftr_Path r) \<and> list_all valid_utf8 (ftr_Capabilities r)
     \<and> (case ftr_FileTypes r of None \<Rightarrow> True | Some s \<Rightarrow> selector_utf8 s) \<and> valid_utf8 (ftr_Visibility r)"

definition context_utf8 :: "ft_context \<Rightarrow> bool" where
  "context_utf8 c \<longleftrightarrow> int64_range (ctx_Version c) \<and> list_all rule_utf8 (ctx_Rules c)"

lemma reads_members:
  "(\<And>k t v. (k, t, v) \<in> set ms \<Longrightarrow> valid_utf8 k \<and> reads t v) \<Longrightarrow>
   reads (json_object (map (\<lambda>m. (fst m, fst (snd m))) ms)) (JObj ms)"
  by (rule reads_object) (force simp: list_all2_map1 list_all2_same reads_member_def)

lemma reads_strings: "list_all valid_utf8 xs \<Longrightarrow> reads (strings_text xs) (strings_tree xs)"
  by (rule reads_array) (auto simp: list_all2_map1 list_all2_map2 list_all2_same list_all_iff reads_string)

declare valid_utf8.simps(2) [simp del] runes.simps(2) [simp del]

lemma field_names_utf8 [simp]:
  "valid_utf8 ''classes''" "valid_utf8 ''extensions''" "valid_utf8 ''names''"
  "valid_utf8 ''policy_id''" "valid_utf8 ''path''" "valid_utf8 ''capabilities''" "valid_utf8 ''file_types''"
  "valid_utf8 ''visibility''" "valid_utf8 ''version''" "valid_utf8 ''rules''"
  by code_simp+

lemma reads_selector: "selector_utf8 s \<Longrightarrow> reads (marshal_selector s) (JObj (selector_members s))"
proof -
  assume s: "selector_utf8 s"
  have "marshal_selector s = json_object (map (\<lambda>m. (fst m, fst (snd m))) (selector_members s))"
    by (simp add: marshal_selector_def selector_members_def)
  moreover have "valid_utf8 k \<and> reads t v" if "(k, t, v) \<in> set (selector_members s)" for k t v
    using that s by (auto simp: selector_members_def selector_utf8_def reads_strings split: if_splits)
  ultimately show ?thesis by (simp add: reads_members)
qed

lemma reads_rule: "rule_utf8 r \<Longrightarrow> reads (marshal_rule r) (JObj (rule_members r))"
proof -
  assume r: "rule_utf8 r"
  have "marshal_rule r = json_object (map (\<lambda>m. (fst m, fst (snd m))) (rule_members r))"
    by (simp add: marshal_rule_def rule_members_def split: option.split)
  moreover have "valid_utf8 k \<and> reads t v" if "(k, t, v) \<in> set (rule_members r)" for k t v
    using that r
    by (auto simp: rule_members_def rule_utf8_def reads_string reads_strings reads_selector
        split: if_splits option.splits)
  ultimately show ?thesis by (simp add: reads_members)
qed

lemma reads_context: "context_utf8 c \<Longrightarrow> reads (marshal_context c) (JObj (context_members c))"
proof -
  assume c: "context_utf8 c"
  have "reads (json_array (map marshal_rule (ctx_Rules c))) (JArr (map (\<lambda>r. JObj (rule_members r)) (ctx_Rules c)))"
    using c by (intro reads_array) (auto simp: context_utf8_def list_all2_map1 list_all2_map2 list_all2_same list_all_iff reads_rule)
  then have "valid_utf8 k \<and> reads t v" if "(k, t, v) \<in> set (context_members c)" for k t v
    using that by (auto simp: context_members_def reads_int)
  then have "reads (json_object (map (\<lambda>m. (fst m, fst (snd m))) (context_members c))) (JObj (context_members c))"
    by (rule reads_members)
  then show ?thesis by (simp add: marshal_context_def context_members_def)
qed

lemma dec_list_map: "(\<And>x. x \<in> set xs \<Longrightarrow> f (g x) = Some x) \<Longrightarrow> dec_list f (map g xs) = Some xs"
  by (induction xs) auto

lemma dec_strings_tree [simp]: "dec_strings (strings_tree xs) = Some xs"
  by (simp add: dec_strings_def dec_list_map dec_string_def)

lemma field_of_name [simp]: "n \<in> set names \<Longrightarrow> field_of names n = Some n"
  by (simp add: field_of_def)

lemma dec_selector_tree: "dec_selector None (JObj (selector_members s)) = Some (Some s)"
  by (cases s) (auto simp: dec_selector_def dec_struct_def selector_members_def set_selector_def selector_names_def empty_selector_def)

lemma dec_rule_tree: "dec_struct set_rule rule_names empty_rule (JObj (rule_members r)) = Some r"
  by (cases r) (auto simp: dec_struct_def rule_members_def set_rule_def rule_names_def empty_rule_def dec_string_def
      dec_selector_tree split: option.split)

lemma dec_context_tree:
  assumes "int64_range (ctx_Version c)"
  shows "dec_context (JObj (context_members c)) = Some c"
proof -
  have "dec_list (dec_struct set_rule rule_names empty_rule) (map (\<lambda>r. JObj (rule_members r)) rs) = Some rs" for rs
    by (rule dec_list_map) (rule dec_rule_tree)
  with assms show ?thesis
    by (cases c) (simp add: dec_context_def dec_struct_def context_members_def set_context_def context_names_def
        dec_int_def parse_int64_json_int dec_rules_def)
qed

text \<open>Field names are their own lower case, so the written text has no repeated keys.\<close>

lemma ToLower_lower:
  "list_all (\<lambda>c. ascii c \<and> \<not> (65 \<le> byte c \<and> byte c \<le> 90)) s \<Longrightarrow> ToLower U s = s"
  by (induction s) (auto simp: ToLower_def ascii_lower_def list_all_iff)

lemma ToLower_fields [simp]:
  "ToLower U ''classes'' = ''classes''" "ToLower U ''extensions'' = ''extensions''" "ToLower U ''names'' = ''names''"
  "ToLower U ''policy_id'' = ''policy_id''" "ToLower U ''path'' = ''path''" "ToLower U ''capabilities'' = ''capabilities''"
  "ToLower U ''file_types'' = ''file_types''" "ToLower U ''visibility'' = ''visibility''" "ToLower U ''version'' = ''version''"
  "ToLower U ''rules'' = ''rules''"
  by (rule ToLower_lower; code_simp)+

lemma unique_strings: "depth \<le> 63 \<Longrightarrow> unique_value U depth (strings_tree xs)"
  by (auto simp: list_all_iff)

lemma unique_selector: "depth \<le> 62 \<Longrightarrow> unique_value U depth (JObj (selector_members s))"
  by (auto simp: selector_members_def list_all_iff)

lemma unique_rule: "depth \<le> 61 \<Longrightarrow> unique_value U depth (JObj (rule_members r))"
  using unique_selector [of "Suc depth" U]
  by (auto simp: rule_members_def list_all_iff simp del: unique_value.simps(2) intro!: unique_strings split: option.split)

lemma unique_context: "depth \<le> 59 \<Longrightarrow> unique_value U depth (JObj (context_members c))"
proof -
  assume d: "depth \<le> 59"
  then have "unique_value U (Suc (Suc depth)) (JObj (rule_members r))" for r by (intro unique_rule) simp
  with d have "unique_value U (Suc depth) (JArr (map (\<lambda>r. JObj (rule_members r)) (ctx_Rules c)))"
    by (simp add: list_all_iff del: unique_value.simps(1))
  with d show ?thesis unfolding context_members_def by simp
qed

lemma DecodeContext_marshal_text:
  assumes "context_utf8 c" "length (marshal_context c) \<le> MaxContextBytes"
  shows "DecodeContext U (marshal_context c) = Context_Compile U c"
proof -
  note r = reads_context [OF assms(1)]
  then have "marshal_context c \<noteq> []" by (simp add: reads_def)
  moreover have "dec_context (JObj (context_members c)) = Some c"
    using assms(1) by (simp add: dec_context_tree context_utf8_def)
  ultimately show ?thesis
    using reads_parse [OF r] unique_context [of 0 U c] assms(2)
    by (simp add: DecodeContext_def ValidateUniqueJSON_def del: unique_value.simps)
qed

text \<open>
  C13: What the control plane writes the node reads: for a context of UTF-8 strings, decoding the
  text of the context and compiling it is compiling the context itself, errors included.
\<close>

theorem DecodeContext_marshal:
  assumes "context_utf8 c" "length (marshal_context c) \<le> MaxContextBytes"
  shows "DecodeContext U (marshal_context c) = Context_Compile U c"
  using assms by (rule DecodeContext_marshal_text)

definition sample_context :: ft_context where
  "sample_context = \<lparr>ctx_Version = 1, ctx_Rules =
     [\<lparr>ftr_PolicyID = ''p<1>'', ftr_Path = ''nodes/n/files/**'', ftr_Capabilities = [''read'', ''list''],
       ftr_FileTypes = Some \<lparr>sel_Classes = [''image''], sel_Extensions = [], sel_Names = []\<rparr>, ftr_Visibility = ''visible''\<rparr>]\<rparr>"

theorem DecodeContext_marshal_witness:
  "DecodeContext ascii_tables (marshal_context sample_context) = Context_Compile ascii_tables sample_context"
  by (rule DecodeContext_marshal) code_simp+

text \<open>The name of the version with U+017F, the long s, in place of the letter s.\<close>

definition folded_version :: string where
  "folded_version = ''ver'' @ [CHR 0xC5, CHR 0xBF] @ ''ion''"

lemma dec_members_snoc:
  "dec_members setter names x (ms @ [(k, raw, v)]) =
     (case dec_members setter names x ms of None \<Rightarrow> None
      | Some y \<Rightarrow> (case field_of names k of None \<Rightarrow> None | Some n \<Rightarrow> setter y n raw v))"
  by (induction ms arbitrary: x) (auto split: option.splits)

lemma folded_version_field: "field_of context_names folded_version = Some ''version''"
  by code_simp

text \<open>
  C27: The check for repeated keys lowers names, while the decoder folds them, and U+017F folds to the
  letter s but is its own lower case: whatever context an object holds, a member after it that spells the
  version with that letter and has a 64-bit integer as its value passes the check, as long as the object
  alone passes it and lowering keeps the name apart from the others, and replaces the version that is decoded.
\<close>

theorem ValidateUniqueJSON_folded_key:
  assumes "parse_json data = Some (JObj (ms @ [(folded_version, raw, JNum n)]))" "parse_int64 n = Some v"
    and "unique_value U 0 (JObj ms)" "dec_context (JObj ms) = Some c"
    and "ToLower U folded_version \<notin> set (map (\<lambda>m. ToLower U (fst m)) ms)"
  shows "ValidateUniqueJSON U data \<and> Option.bind (parse_json data) dec_context = Some (c\<lparr>ctx_Version := v\<rparr>)"
proof
  show "ValidateUniqueJSON U data"
    using assms(1,3,5) by (simp add: ValidateUniqueJSON_def)
  show "Option.bind (parse_json data) dec_context = Some (c\<lparr>ctx_Version := v\<rparr>)"
    using assms(1,2,4) by (simp add: dec_context_def dec_struct_def dec_members_snoc folded_version_field set_context_def dec_int_def)
qed

definition twice :: string where
  "twice = ''{'' @ json_string ''version'' @ '':7,'' @ json_string ''rules'' @ '':[],'' @ json_string folded_version @ '':1}''"

theorem ValidateUniqueJSON_folded_key_witness:
  "ValidateUniqueJSON ascii_tables twice
   \<and> Option.bind (parse_json twice) dec_context = Some \<lparr>ctx_Version = 1, ctx_Rules = []\<rparr>"
proof -
  let ?ms = "[(''version'', ''7'', JNum ''7''), (''rules'', ''[]'', JArr [])]"
  have "parse_json twice = Some (JObj (?ms @ [(folded_version, ''1'', JNum ''1'')]))" "parse_int64 ''1'' = Some 1"
    "unique_value ascii_tables 0 (JObj ?ms)" "dec_context (JObj ?ms) = Some \<lparr>ctx_Version = 7, ctx_Rules = []\<rparr>"
    "ToLower ascii_tables folded_version \<notin> set (map (\<lambda>m. ToLower ascii_tables (fst m)) ?ms)"
    by code_simp+
  from ValidateUniqueJSON_folded_key [OF this] show ?thesis by simp
qed

end
