(* ===== verification/Go_Json_Compact.thy ===== *)
theory Go_Json_Compact
  imports Go_Json_Decode
begin

text \<open>
  What \<open>json.Marshal\<close> makes of a \<open>json.RawMessage\<close>: the text without the white space between its
  tokens and with HTML escaping. The text the printer of \<open>Go_Json\<close> writes is left as it is.
\<close>

text \<open>Whether the reader is inside a string, and whether the last character there was a backslash.\<close>

function json_compact :: "bool \<Rightarrow> bool \<Rightarrow> string \<Rightarrow> string" where
  "json_compact q e [] = []"
| "json_compact q e (c # s) =
     (if c = CHR ''<'' \<or> c = CHR ''>'' \<or> c = CHR ''&'' then json_hex4 (byte c) @ json_compact q False s
      else if byte c = 226 \<and> take 1 s = [CHR 0x80] \<and> take 2 s \<in> {[CHR 0x80, CHR 0xA8], [CHR 0x80, CHR 0xA9]} then
        json_hex4 (8064 + byte (s ! 1)) @ json_compact q False (drop 2 s)
      else if q then c # json_compact (e \<or> c \<noteq> dquote) (\<not> e \<and> c = bslash) s
      else if json_ws c then json_compact False False s
      else c # json_compact (c = dquote) False s)"
  by pat_completeness auto
termination
  by (relation "measure (\<lambda>(q, e, s). length s)") auto

declare json_compact.simps(2) [simp del]

definition RawMessage :: "string \<Rightarrow> string" where
  "RawMessage s = json_compact False False s"

text \<open>A text that the compaction copies, within a string and between strings.\<close>

definition kept :: "bool \<Rightarrow> string \<Rightarrow> bool" where
  "kept q s \<longleftrightarrow> (\<forall>t. json_compact q False (s @ t) = s @ json_compact q False t)"

lemma kept_Nil [simp]: "kept q []"
  by (simp add: kept_def)

lemma kept_append: "kept q s \<Longrightarrow> kept q t \<Longrightarrow> kept q (s @ t)"
  by (simp add: kept_def)

lemma kept_Cons: "kept q [c] \<Longrightarrow> kept q s \<Longrightarrow> kept q (c # s)"
  using kept_append [of q "[c]" s] by simp

lemma kept_all: "(\<And>c. c \<in> set s \<Longrightarrow> kept q [c]) \<Longrightarrow> kept q s"
  by (induction s) (auto intro: kept_Cons)

lemma kept_concat: "(\<And>s. s \<in> set ss \<Longrightarrow> kept q s) \<Longrightarrow> kept q (concat ss)"
  by (induction ss) (auto intro: kept_append)

lemma kept_RawMessage: "kept False s \<Longrightarrow> RawMessage s = s"
  unfolding kept_def RawMessage_def by (drule spec [of _ "[]"]) simp

text \<open>Inside a string.\<close>

lemma byte_neq:
  "byte c \<noteq> 60 \<Longrightarrow> c \<noteq> CHR ''<''" "byte c \<noteq> 62 \<Longrightarrow> c \<noteq> CHR ''>''" "byte c \<noteq> 38 \<Longrightarrow> c \<noteq> CHR ''&''"
  "byte c \<noteq> 34 \<Longrightarrow> c \<noteq> dquote" "byte c \<noteq> 92 \<Longrightarrow> c \<noteq> bslash" "byte bslash \<noteq> 226" "byte dquote \<noteq> 226"
  by (auto simp: byte_def)

definition string_byte :: "char \<Rightarrow> bool" where
  "string_byte c \<longleftrightarrow> byte c \<notin> {34, 38, 60, 62, 92, 226}"

definition escaped_byte :: "char \<Rightarrow> bool" where
  "escaped_byte c \<longleftrightarrow> byte c \<notin> {38, 60, 62, 226}"

definition token_byte :: "char \<Rightarrow> bool" where
  "token_byte c \<longleftrightarrow> byte c \<notin> {9, 10, 13, 32, 34, 38, 60, 62, 226}"

lemma kept_plain: "string_byte c \<Longrightarrow> kept True [c]"
  by (simp add: string_byte_def kept_def json_compact.simps(2) byte_neq)

lemma kept_escape: "escaped_byte c \<Longrightarrow> kept True [bslash, c]"
  by (simp add: escaped_byte_def kept_def json_compact.simps(2) byte_neq)

lemma kept_hex_digit: "0 \<le> k \<Longrightarrow> k < 16 \<Longrightarrow> kept True [hex_digit k]"
proof (rule kept_plain)
  assume k: "0 \<le> k" "k < 16"
  have "list_all (\<lambda>k. string_byte (hex_digit k)) [0..15]" by code_simp
  moreover have "k \<in> set [0..15]" using k by simp
  ultimately show "string_byte (hex_digit k)" unfolding list_all_iff by (rule bspec)
qed

lemma kept_hex4: "kept True (json_hex4 n)"
proof -
  have "kept True [bslash, CHR ''u'']" by (rule kept_escape) code_simp
  moreover have "kept True [hex_digit (n div 4096 mod 16), hex_digit (n div 256 mod 16), hex_digit (n div 16 mod 16), hex_digit (n mod 16)]"
    by (rule kept_all) (auto simp: kept_hex_digit)
  ultimately have "kept True ([bslash, CHR ''u''] @ [hex_digit (n div 4096 mod 16), hex_digit (n div 256 mod 16), hex_digit (n div 16 mod 16), hex_digit (n mod 16)])"
    by (rule kept_append)
  then show ?thesis by (simp only: json_hex4_def append_Cons append_Nil)
qed

lemma kept_ascii: "ascii c \<Longrightarrow> kept True (json_ascii c)"
proof -
  have "list_all (\<lambda>c. json_ascii c = [c] \<and> string_byte c \<or> json_ascii c = json_hex4 (byte c)
      \<or> length (json_ascii c) = 2 \<and> hd (json_ascii c) = bslash \<and> escaped_byte (last (json_ascii c)))
    (map of_byte [0..127])" by code_simp
  moreover assume "ascii c"
  then have "c \<in> set (map of_byte [0..127])"
    using byte_nonneg [of c] of_byte_byte [of c, symmetric] by (auto simp: ascii_def image_iff intro!: bexI [of _ "byte c"])
  ultimately consider "json_ascii c = [c] \<and> string_byte c" | "json_ascii c = json_hex4 (byte c)"
    | "length (json_ascii c) = 2 \<and> hd (json_ascii c) = bslash \<and> escaped_byte (last (json_ascii c))"
    unfolding list_all_iff by blast
  then show ?thesis
  proof cases
    case 1
    then show ?thesis by (simp add: kept_plain)
  next
    case 2
    then show ?thesis by (simp add: kept_hex4)
  next
    case 3
    then obtain d where "json_ascii c = [bslash, d]" "escaped_byte d"
      by (cases "json_ascii c"; cases "tl (json_ascii c)") auto
    then show ?thesis by (simp add: kept_escape)
  qed
qed

lemma kept_high: "list_all (\<lambda>c. 128 \<le> byte c \<and> byte c \<noteq> 226) s \<Longrightarrow> kept True s"
proof (induction s)
  case (Cons c s)
  then have "kept True [c]" by (intro kept_plain) (auto simp: string_byte_def)
  with Cons show ?case by (auto intro: kept_Cons)
qed simp

lemma decode_rune_rest: "decode_rune (c # cs) = Some (r, n) \<Longrightarrow> list_all (\<lambda>c. 128 \<le> byte c \<and> byte c \<le> 191) (take (n - 1) cs)"
  by (auto simp: decode_rune.simps Let_def cont_byte_def split: if_splits list.splits)

lemma decode_rune_226:
  assumes "decode_rune (c # cs) = Some (r, n)" "byte c = 226"
  obtains c1 c2 t where "cs = c1 # c2 # t" "n = 3" "r = 8192 + (byte c1 - 128) * 64 + (byte c2 - 128)"
  using assms by (auto simp: decode_rune.simps split: if_splits list.splits)

lemma kept_rune:
  assumes d: "decode_rune (c # cs) = Some (r, n)" and na: "\<not> ascii c" and r: "r \<noteq> 8232" "r \<noteq> 8233"
  shows "kept True (take n (c # cs))"
proof -
  have rest: "list_all (\<lambda>c. 128 \<le> byte c \<and> byte c \<noteq> 226) (take (n - 1) cs)"
    using decode_rune_rest [OF d] by (auto simp: list_all_iff)
  obtain m where m: "n = Suc m" using decode_rune_width [OF d] by (cases n) auto
  show ?thesis
  proof (cases "byte c = 226")
    case False
    with rest na show ?thesis by (intro kept_high) (simp add: m ascii_def)
  next
    case True
    with d obtain c1 c2 t where cs: "cs = c1 # c2 # t" "n = 3" "r = 8192 + (byte c1 - 128) * 64 + (byte c2 - 128)"
      by (rule decode_rune_226)
    have "[c1, c2] \<notin> {[CHR 0x80, CHR 0xA8], [CHR 0x80, CHR 0xA9]}"
      using r cs(3) by (auto simp: byte_def)
    moreover have "c \<noteq> CHR ''<''" "c \<noteq> CHR ''>''" "c \<noteq> CHR ''&''" "c \<noteq> dquote" "c \<noteq> bslash"
      using na by (auto simp: ascii_def byte_def)
    moreover have "kept True [c1, c2]" using rest by (intro kept_high) (simp add: cs)
    ultimately show ?thesis by (simp add: kept_def cs json_compact.simps(2) [of _ _ c]) auto
  qed
qed

lemma kept_body: "kept True (json_body s)"
proof (induction s rule: json_body.induct)
  case (2 c cs)
  show ?case
  proof (cases "ascii c")
    case True
    with 2 show ?thesis by (simp add: kept_append kept_ascii)
  next
    case False
    show ?thesis
    proof (cases "decode_rune (c # cs)")
      case None
      with False 2 show ?thesis by (simp add: kept_append kept_hex4)
    next
      case (Some p)
      obtain r n where p: "p = (r, n)" by (cases p)
      have "kept True (json_body (drop (n - 1) cs))" using "2.IH"(3) [OF False Some p [symmetric]] .
      with False Some p show ?thesis
        using kept_rune [of c cs r n] by (auto intro!: kept_append kept_hex4)
    qed
  qed
qed simp

text \<open>Between strings.\<close>

lemma kept_string: "kept False (json_string s)"
proof -
  have "json_compact False False (json_string s @ t) = json_string s @ json_compact False False t" for t
    using kept_body [of s] by (simp add: kept_def json_string_def json_compact.simps(2) [of _ _ dquote] byte_neq)
  then show ?thesis by (simp add: kept_def)
qed

lemma token_byte_ws: "token_byte c \<Longrightarrow> \<not> json_ws c"
proof
  assume "token_byte c" "json_ws c"
  then have "c \<in> {CHR '' '', CHR 0x09, CHR 0x0A, CHR 0x0D}" by (auto simp: json_ws_def)
  moreover have "\<not> token_byte (CHR '' '')" "\<not> token_byte (CHR 0x09)" "\<not> token_byte (CHR 0x0A)" "\<not> token_byte (CHR 0x0D)"
    by code_simp+
  ultimately show False using \<open>token_byte c\<close> by blast
qed

lemma kept_token: "token_byte c \<Longrightarrow> kept False [c]"
  using token_byte_ws [of c] by (simp add: token_byte_def kept_def json_compact.simps(2) byte_neq)

lemma kept_tokens: "list_all token_byte s \<Longrightarrow> kept False s"
  by (rule kept_all, rule kept_token) (simp add: list_all_iff)

lemma kept_digits: "list_all is_digit_char s \<Longrightarrow> kept False s"
  by (rule kept_tokens) (auto simp: list_all_iff is_digit_char_def token_byte_def)

lemma kept_mark:
  "kept False s \<Longrightarrow> kept False (CHR ''-'' # s)" "kept False s \<Longrightarrow> kept False (CHR '','' # s)"
  "kept False s \<Longrightarrow> kept False (CHR '':'' # s)" "kept False s \<Longrightarrow> kept False (CHR ''['' # s)"
  "kept False s \<Longrightarrow> kept False (CHR '']'' # s)" "kept False s \<Longrightarrow> kept False (CHR ''{'' # s)"
  "kept False s \<Longrightarrow> kept False (CHR ''}'' # s)"
proof -
  have "list_all token_byte ''-,:[]{}''" by code_simp
  then have "kept False [c]" if "c \<in> set ''-,:[]{}''" for c using that by (auto simp: list_all_iff kept_token)
  note m = kept_Cons [OF this]
  show "kept False s \<Longrightarrow> kept False (CHR ''-'' # s)" "kept False s \<Longrightarrow> kept False (CHR '','' # s)"
    "kept False s \<Longrightarrow> kept False (CHR '':'' # s)" "kept False s \<Longrightarrow> kept False (CHR ''['' # s)"
    "kept False s \<Longrightarrow> kept False (CHR '']'' # s)" "kept False s \<Longrightarrow> kept False (CHR ''{'' # s)"
    "kept False s \<Longrightarrow> kept False (CHR ''}'' # s)"
    by (rule m; simp)+
qed

lemma kept_int: "kept False (json_int n)"
proof -
  have "kept False (decimal \<bar>n\<bar>)" using decimal_digits [of "\<bar>n\<bar>"] by (intro kept_digits) simp
  then show ?thesis by (auto simp: json_int_def intro: kept_mark)
qed

lemma kept_sep: "(\<And>x. x \<in> set xs \<Longrightarrow> kept False x) \<Longrightarrow> kept False (json_sep xs)"
  by (induction xs rule: json_sep.induct) (auto intro!: kept_append kept_mark)

lemma kept_array: "(\<And>x. x \<in> set xs \<Longrightarrow> kept False x) \<Longrightarrow> kept False (json_array xs)"
  unfolding json_array_def by (intro kept_mark kept_append kept_sep kept_Nil)

lemma kept_object: "(\<And>k v. (k, v) \<in> set fs \<Longrightarrow> kept False v) \<Longrightarrow> kept False (json_object fs)"
  unfolding json_object_def by (intro kept_mark kept_append kept_sep kept_Nil) (auto intro!: kept_append kept_string kept_mark)

end
