(* ===== verification/Go_Base64.thy ===== *)
theory Go_Base64
  imports Go_Strings
begin

text \<open>
  \<open>encoding/base64\<close>'s \<open>RawURLEncoding\<close>: the alphabet with \<open>-\<close> and \<open>_\<close>, no padding, and the strict
  decoder, which refuses trailing bits that are not zero and still ignores line breaks.
\<close>

definition b64_digit :: "int \<Rightarrow> char" where
  "b64_digit n =
     (if n < 26 then of_byte (65 + n)
      else if n < 52 then of_byte (71 + n)
      else if n < 62 then of_byte (n - 4)
      else if n = 62 then CHR ''-''
      else CHR ''_'')"

definition b64_value :: "char \<Rightarrow> int option" where
  "b64_value c =
     (let b = byte c in
      if 65 \<le> b \<and> b \<le> 90 then Some (b - 65)
      else if 97 \<le> b \<and> b \<le> 122 then Some (b - 71)
      else if 48 \<le> b \<and> b \<le> 57 then Some (b + 4)
      else if b = 45 then Some 62
      else if b = 95 then Some 63
      else None)"

fun b64_encode :: "string \<Rightarrow> string" where
  "b64_encode [] = []"
| "b64_encode [a] = [b64_digit (byte a div 4), b64_digit (byte a mod 4 * 16)]"
| "b64_encode [a, b] =
     [b64_digit (byte a div 4), b64_digit (byte a mod 4 * 16 + byte b div 16), b64_digit (byte b mod 16 * 4)]"
| "b64_encode (a # b # c # s) =
     b64_digit (byte a div 4) # b64_digit (byte a mod 4 * 16 + byte b div 16)
       # b64_digit (byte b mod 16 * 4 + byte c div 64) # b64_digit (byte c mod 64) # b64_encode s"

text \<open>A quantum of four, three or two digits; the bits that carry no byte have to be zero.\<close>

fun b64_quanta :: "string \<Rightarrow> string option" where
  "b64_quanta [] = Some []"
| "b64_quanta [w] = None"
| "b64_quanta [w, x] =
     (case (b64_value w, b64_value x) of
        (Some p, Some q) \<Rightarrow> if q mod 16 = 0 then Some [of_byte (p * 4 + q div 16)] else None
      | _ \<Rightarrow> None)"
| "b64_quanta [w, x, y] =
     (case (b64_value w, b64_value x, b64_value y) of
        (Some p, Some q, Some r) \<Rightarrow>
          if r mod 4 = 0 then Some [of_byte (p * 4 + q div 16), of_byte (q mod 16 * 16 + r div 4)] else None
      | _ \<Rightarrow> None)"
| "b64_quanta (w # x # y # z # s) =
     (case (b64_value w, b64_value x, b64_value y, b64_value z) of
        (Some p, Some q, Some r, Some t) \<Rightarrow>
          (case b64_quanta s of
             None \<Rightarrow> None
           | Some bs \<Rightarrow> Some (of_byte (p * 4 + q div 16) # of_byte (q mod 16 * 16 + r div 4)
                              # of_byte (r mod 4 * 64 + t) # bs))
      | _ \<Rightarrow> None)"

definition line_break :: "char \<Rightarrow> bool" where
  "line_break c \<longleftrightarrow> c = CHR 0x0A \<or> c = CHR 0x0D"

definition b64_decode :: "string \<Rightarrow> string option" where
  "b64_decode s = b64_quanta (filter (\<lambda>c. \<not> line_break c) s)"

definition EncodedLen :: "nat \<Rightarrow> nat" where
  "EncodedLen n = n div 3 * 4 + (n mod 3 * 8 + 5) div 6"

lemma length_b64_encode: "length (b64_encode s) = EncodedLen (length s)"
proof (induction s rule: b64_encode.induct)
  case (4 a b c s)
  have "EncodedLen (Suc (Suc (Suc n))) = EncodedLen n + 4" for n
    using div_add_self1 [of 3 n] by (simp add: EncodedLen_def del: div_add_self1)
  with 4 show ?case by simp
qed (simp_all add: EncodedLen_def)

lemma EncodedLen_eq: "EncodedLen n = (4 * n + 2) div 3"
proof -
  have n: "n = 3 * (n div 3) + n mod 3" by simp
  have "(4 * n + 2) div 3 = (3 * (4 * (n div 3)) + (4 * (n mod 3) + 2)) div 3"
    by (subst n) (simp only: distrib_left mult.assoc mult.left_commute [of 4 3] add.assoc)
  also have "\<dots> = 4 * (n div 3) + (4 * (n mod 3) + 2) div 3" by simp
  finally have e: "(4 * n + 2) div 3 = 4 * (n div 3) + (4 * (n mod 3) + 2) div 3" .
  have "n mod 3 < 3" by simp
  then consider "n mod 3 = 0" | "n mod 3 = 1" | "n mod 3 = 2" by linarith
  then show ?thesis unfolding EncodedLen_def e by cases simp_all
qed

lemma EncodedLen_mono: "m \<le> n \<Longrightarrow> EncodedLen m \<le> EncodedLen n"
  unfolding EncodedLen_eq by (rule div_le_mono) simp

subsection \<open>Digits\<close>

lemma b64_value_digit: "0 \<le> n \<Longrightarrow> n < 64 \<Longrightarrow> b64_value (b64_digit n) = Some n"
proof -
  assume n: "0 \<le> n" "n < 64"
  have "list_all (\<lambda>n. b64_value (b64_digit n) = Some n) [0..63]" by code_simp
  with n show ?thesis by (simp add: list_all_iff)
qed

lemma b64_value_range: "b64_value c = Some n \<Longrightarrow> 0 \<le> n \<and> n < 64"
  by (auto simp: b64_value_def Let_def split: if_splits)

lemma b64_digit_value: "b64_value c = Some n \<Longrightarrow> b64_digit n = c"
proof -
  assume "b64_value c = Some n"
  moreover have "byte c = 45 \<Longrightarrow> c = CHR ''-''" "byte c = 95 \<Longrightarrow> c = CHR ''_''"
    using byte_inject [of c "CHR ''-''"] byte_inject [of c "CHR ''_''"] by (simp_all add: byte_def)
  ultimately show ?thesis
    by (auto simp: b64_value_def b64_digit_def Let_def split: if_splits)
qed

lemma b64_digit_plain: "0 \<le> n \<Longrightarrow> n < 64 \<Longrightarrow> \<not> line_break (b64_digit n) \<and> b64_digit n \<noteq> CHR ''.'' \<and> ascii (b64_digit n)"
proof -
  assume n: "0 \<le> n" "n < 64"
  then have v: "b64_value (b64_digit n) = Some n" by (rule b64_value_digit)
  have "b64_value (CHR 0x0A) = None" "b64_value (CHR 0x0D) = None" "b64_value (CHR ''.'') = None" by code_simp+
  with v have "\<not> line_break (b64_digit n)" "b64_digit n \<noteq> CHR ''.''" by (auto simp: line_break_def)
  moreover have "ascii (b64_digit n)" using v by (auto simp: b64_value_def ascii_def Let_def split: if_splits)
  ultimately show ?thesis by simp
qed

subsection \<open>What is written is read back\<close>

lemma byte_parts:
  "0 \<le> byte c div 4" "byte c div 4 < 64" "0 \<le> byte c mod 4" "byte c mod 4 < 4"
  "0 \<le> byte c div 16" "byte c div 16 < 16" "0 \<le> byte c mod 16" "byte c mod 16 < 16"
  "0 \<le> byte c div 64" "byte c div 64 < 4" "0 \<le> byte c mod 64" "byte c mod 64 < 64"
  using byte_less [of c] byte_nonneg [of c] by linarith+

lemma pack16:
  "(x * 16 + byte c div 16) div 16 = x" "(x * 16 + byte c div 16) mod 16 = byte c div 16"
  using byte_parts [of c] by simp_all

lemma pack4:
  "(x * 4 + byte c div 64) div 4 = x" "(x * 4 + byte c div 64) mod 4 = byte c div 64"
  using byte_parts [of c] by simp_all

lemma b64_digits_ranges:
  "0 \<le> byte a mod 4 * 16 + byte b div 16" "byte a mod 4 * 16 + byte b div 16 < 64"
  "0 \<le> byte b mod 16 * 4 + byte c div 64" "byte b mod 16 * 4 + byte c div 64 < 64"
  "0 \<le> byte a mod 4 * 16" "byte a mod 4 * 16 < 64" "0 \<le> byte b mod 16 * 4" "byte b mod 16 * 4 < 64"
  using byte_parts [of a] byte_parts [of b] byte_parts [of c] by linarith+

lemmas b64_values = b64_value_digit byte_parts b64_digits_ranges

lemma byte_join:
  "of_byte (byte a div 4 * 4 + (byte a mod 4 * 16 + byte b div 16) div 16) = a"
  "of_byte ((byte a mod 4 * 16 + byte b div 16) mod 16 * 16 + (byte b mod 16 * 4 + byte c div 64) div 4) = b"
  "of_byte ((byte b mod 16 * 4 + byte c div 64) mod 4 * 64 + byte c mod 64) = c"
  by (simp_all only: pack16 pack4 div_mult_mod_eq of_byte_byte)

lemma byte_join_short:
  "of_byte (byte a div 4 * 4 + byte a mod 4 * 16 div 16) = a"
  "of_byte ((byte a mod 4 * 16 + byte b div 16) mod 16 * 16 + byte b mod 16 * 4 div 4) = b"
  "byte a mod 4 * 16 mod 16 = 0" "byte a mod 16 * 4 mod 4 = 0"
proof -
  have "byte a mod 4 * 16 div 16 = byte a mod 4" "byte b mod 16 * 4 div 4 = byte b mod 16"
    by (rule nonzero_mult_div_cancel_right; simp)+
  then show "of_byte (byte a div 4 * 4 + byte a mod 4 * 16 div 16) = a"
    "of_byte ((byte a mod 4 * 16 + byte b div 16) mod 16 * 16 + byte b mod 16 * 4 div 4) = b"
    by (simp_all only: pack16 div_mult_mod_eq of_byte_byte)
qed (rule mod_mult_self2_is_0)+

lemma b64_quanta_encode: "b64_quanta (b64_encode s) = Some s"
proof (induction s rule: b64_encode.induct)
  case (4 a b c s)
  then show ?case
    by (simp only: b64_encode.simps b64_quanta.simps b64_values case_prod_conv option.case byte_join)
qed (simp_all only: b64_encode.simps b64_quanta.simps b64_values case_prod_conv option.case byte_join byte_join_short simp_thms if_True)

lemma byte_split:
  assumes "0 \<le> p" "p < 64" "0 \<le> q" "q < 64"
  shows "byte (of_byte (p * 4 + q div 16)) div 4 = p" "byte (of_byte (p * 4 + q div 16)) mod 4 = q div 16"
    "byte (of_byte (p mod 16 * 16 + q div 4)) div 16 = p mod 16" "byte (of_byte (p mod 16 * 16 + q div 4)) mod 16 = q div 4"
    "byte (of_byte (p mod 4 * 64 + q)) div 64 = p mod 4" "byte (of_byte (p mod 4 * 64 + q)) mod 64 = q"
proof -
  have q: "0 \<le> q div 16" "q div 16 < 4" "0 \<le> q div 4" "q div 4 < 16" using assms by linarith+
  have p: "0 \<le> p mod 16" "p mod 16 < 16" "0 \<le> p mod 4" "p mod 4 < 4" by simp_all
  have *: "byte (of_byte n) = n" if "0 \<le> n" "n < 256" for n using that by (simp add: byte_of_byte)
  have b: "byte (of_byte (p * 4 + q div 16)) = p * 4 + q div 16"
    "byte (of_byte (p mod 16 * 16 + q div 4)) = p mod 16 * 16 + q div 4"
    "byte (of_byte (p mod 4 * 64 + q)) = p mod 4 * 64 + q"
    using assms p q by (auto intro!: *)
  show "byte (of_byte (p * 4 + q div 16)) div 4 = p" "byte (of_byte (p * 4 + q div 16)) mod 4 = q div 16"
    unfolding b using q by simp_all
  show "byte (of_byte (p mod 16 * 16 + q div 4)) div 16 = p mod 16" "byte (of_byte (p mod 16 * 16 + q div 4)) mod 16 = q div 4"
    unfolding b using q by simp_all
  show "byte (of_byte (p mod 4 * 64 + q)) div 64 = p mod 4" "byte (of_byte (p mod 4 * 64 + q)) mod 64 = q"
    unfolding b using assms by simp_all
qed

lemma b64_encode_quanta: "b64_quanta s = Some t \<Longrightarrow> b64_encode t = s"
proof (induction s arbitrary: t rule: b64_quanta.induct)
  case (3 w x)
  then obtain p q where v: "b64_value w = Some p" "b64_value x = Some q" "q mod 16 = 0" "t = [of_byte (p * 4 + q div 16)]"
    by (auto split: option.splits if_splits)
  have "q div 16 * 16 = q" using v(3) div_mult_mod_eq [of q 16] by simp
  then show ?case using b64_value_range [OF v(1)] b64_value_range [OF v(2)]
    by (simp add: v(4) byte_split b64_digit_value [OF v(1)] b64_digit_value [OF v(2)])
next
  case (4 w x y)
  then obtain p q r where v: "b64_value w = Some p" "b64_value x = Some q" "b64_value y = Some r" "r mod 4 = 0"
      "t = [of_byte (p * 4 + q div 16), of_byte (q mod 16 * 16 + r div 4)]"
    by (auto split: option.splits if_splits)
  have "r div 4 * 4 = r" using v(4) div_mult_mod_eq [of r 4] by simp
  moreover have "q div 16 * 16 + q mod 16 = q" by simp
  ultimately show ?case using b64_value_range [OF v(1)] b64_value_range [OF v(2)] b64_value_range [OF v(3)]
    by (simp add: v(5) byte_split b64_digit_value [OF v(1)] b64_digit_value [OF v(2)] b64_digit_value [OF v(3)])
next
  case (5 w x y z s)
  then obtain p q r k bs where v: "b64_value w = Some p" "b64_value x = Some q" "b64_value y = Some r" "b64_value z = Some k"
      "b64_quanta s = Some bs"
      "t = of_byte (p * 4 + q div 16) # of_byte (q mod 16 * 16 + r div 4) # of_byte (r mod 4 * 64 + k) # bs"
    by (auto split: option.splits if_splits)
  then have "b64_encode bs = s" using 5 by simp
  moreover have "q div 16 * 16 + q mod 16 = q" "r div 4 * 4 + r mod 4 = r" by simp_all
  ultimately show ?case
    using b64_value_range [OF v(1)] b64_value_range [OF v(2)] b64_value_range [OF v(3)] b64_value_range [OF v(4)]
    by (simp add: v(6) byte_split b64_digit_value [OF v(1)] b64_digit_value [OF v(2)] b64_digit_value [OF v(3)]
        b64_digit_value [OF v(4)])
qed simp_all

text \<open>Encoded text is made of digits: it has no line break and no dot.\<close>

definition b64_char :: "char \<Rightarrow> bool" where
  "b64_char c \<longleftrightarrow> b64_value c \<noteq> None"

lemma b64_encode_chars: "list_all b64_char (b64_encode s)"
  by (induction s rule: b64_encode.induct) (simp_all only: b64_encode.simps list.pred_inject b64_char_def b64_values option.distinct simp_thms)

lemma b64_char_plain: "b64_char c \<Longrightarrow> \<not> line_break c \<and> c \<noteq> CHR ''.'' \<and> ascii c"
  using b64_value_range b64_digit_value b64_digit_plain by (fastforce simp: b64_char_def)

lemma b64_encode_plain: "c \<in> set (b64_encode s) \<Longrightarrow> \<not> line_break c \<and> c \<noteq> CHR ''.'' \<and> ascii c"
  using b64_encode_chars [of s] b64_char_plain by (simp add: list_all_iff)

lemma b64_decode_encode [simp]: "b64_decode (b64_encode s) = Some s"
proof -
  have "filter (\<lambda>c. \<not> line_break c) (b64_encode s) = b64_encode s"
    by (rule filter_True) (simp add: b64_encode_plain)
  then show ?thesis by (simp add: b64_decode_def b64_quanta_encode)
qed

text \<open>Up to line breaks there is one text for every byte string.\<close>

lemma b64_decode_unique: "b64_decode s = Some t \<Longrightarrow> filter (\<lambda>c. \<not> line_break c) s = b64_encode t"
  unfolding b64_decode_def by (rule b64_encode_quanta [symmetric])

lemma b64_encode_inject: "b64_encode s = b64_encode t \<longleftrightarrow> s = t"
  by (metis b64_decode_encode option.inject)

lemma b64_encode_no_dot: "CHR ''.'' \<notin> set (b64_encode s)"
  using b64_encode_plain by blast

end
