(* ===== verification/Signedauth.thy ===== *)
theory Signedauth
  imports Context_Codec Go_Json_Compact Go_Base64 "HOL-Library.Word"
begin

text \<open>
  Signed authorizations (\<open>signedauth\<close>, the same code in the control plane and in the node): a short-lived
  envelope that binds an actor, an operation, the two ends and a policy context, signed by the
  control plane and verified by the node; the leases of jobs; the digest of job options.

  Ed25519 and SHA-256 are parameters, gathered in \<open>crypto\<close>. Every refusal of the source is \<open>ErrInvalid\<close>,
  here \<^const>\<open>None\<close>. Times are \<^typ>\<open>gotime\<close>.
\<close>

record crypto =
  ed_sign :: "string \<Rightarrow> string \<Rightarrow> string"
  ed_verify :: "string \<Rightarrow> string \<Rightarrow> string \<Rightarrow> bool"
  sha256 :: "string \<Rightarrow> string"

definition sa_Version :: int where
  "sa_Version = 1"

definition MaxLifetime :: gotime where
  "MaxLifetime = 30 * 1000000000"

definition maxPayloadBytes :: nat where
  "maxPayloadBytes = MaxContextBytes + 8192"

definition domain :: string where
  "domain = ''jolt-signed-authorization-v1'' @ [CHR 0x00]"

abbreviation (input) PrivateKeySize :: nat where "PrivateKeySize \<equiv> 64"
abbreviation (input) PublicKeySize :: nat where "PublicKeySize \<equiv> 32"
abbreviation (input) SignatureSize :: nat where "SignatureSize \<equiv> 64"

record binding =
  b_ActorID :: string
  b_CredentialID :: string
  b_Operation :: string
  b_RequestID :: string
  b_SourceNodeID :: string
  b_SourceGrantID :: string
  b_SourceMountID :: string
  b_SourceRoot :: string
  b_DestinationNodeID :: string
  b_DestinationGrantID :: string
  b_DestinationMountID :: string
  b_DestinationRoot :: string
  b_PlanID :: string
  b_JobOptionsDigest :: string

record claims =
  c_Version :: int
  c_KeyID :: string
  c_Binding :: binding
  c_IssuedAt :: int
  c_ExpiresAt :: int
  c_Context :: string

subsection \<open>Validation\<close>

definition identifier_rune_ok :: "int \<Rightarrow> bool" where
  "identifier_rune_ok r \<longleftrightarrow> \<not> (r < 33 \<or> r = 127 \<or> r \<in> byte ` set [slash, bslash, bslash, CHR ''?'', CHR ''#''])"

definition sa_identifier :: "string \<Rightarrow> bool \<Rightarrow> bool" where
  "sa_identifier v required \<longleftrightarrow>
     (if v = [] then \<not> required
      else if 128 < length v \<or> \<not> valid_utf8 v \<or> TrimSpace v \<noteq> v then False
      else list_all identifier_rune_ok (runes v))"

definition ValidKeyID :: "string \<Rightarrow> bool" where
  "ValidKeyID v \<longleftrightarrow> sa_identifier v True"

definition endpoint :: "string \<Rightarrow> string \<Rightarrow> string \<Rightarrow> string \<Rightarrow> bool" where
  "endpoint node grant mount root \<longleftrightarrow>
     (if node = [] then grant = [] \<and> mount = [] \<and> root = []
      else if mount = [] \<or> root = [] \<or> TrimSpace root \<noteq> root \<or> 2048 < length root \<or> \<not> valid_utf8 root
           \<or> list_ex (\<lambda>c. c = bslash \<or> c = CHR 0x00) root \<or> hd root = slash then False
      else if root = ''.'' then True
      else if Clean root \<noteq> root then False
      else list_all (\<lambda>part. \<not> (part = [] \<or> part = ''.'' \<or> part = ''..'')) (split_byte slash root))"

definition validJobOptionsDigest :: "string \<Rightarrow> bool" where
  "validJobOptionsDigest digest \<longleftrightarrow>
     (if digest = [] then True
      else (case b64_decode digest of
              None \<Rightarrow> False
            | Some decoded \<Rightarrow> length decoded = 32 \<and> b64_encode decoded = digest))"

definition job_operations :: "string list" where
  "job_operations = [''delete'', ''copy_local'', ''move_local'', ''transfer_pull'', ''transfer_pull_directory'',
     ''transfer_pull_batch'', ''transfer_move_batch'']"

definition sa_validate :: "claims \<Rightarrow> bool" where
  "sa_validate c \<longleftrightarrow>
     (let b = c_Binding c in
      if c_Version c \<noteq> sa_Version \<or> \<not> sa_identifier (c_KeyID c) True \<or> c_IssuedAt c \<le> 0
         \<or> c_ExpiresAt c \<le> c_IssuedAt c \<or> MaxLifetime div 1000000000 < c_ExpiresAt c - c_IssuedAt c then False
      else if \<not> validJobOptionsDigest (b_JobOptionsDigest b)
         \<or> b_JobOptionsDigest b \<noteq> [] \<and> b_Operation b \<notin> set job_operations then False
      else if \<not> list_all (\<lambda>v. sa_identifier v True) [b_ActorID b, b_CredentialID b, b_Operation b, b_RequestID b] then False
      else if \<not> list_all (\<lambda>v. sa_identifier v False) [b_SourceNodeID b, b_SourceGrantID b, b_SourceMountID b, b_DestinationNodeID b,
           b_DestinationGrantID b, b_DestinationMountID b, b_PlanID b] then False
      else if b_SourceNodeID b = [] \<and> b_DestinationNodeID b = [] then False
      else if \<not> endpoint (b_SourceNodeID b) (b_SourceGrantID b) (b_SourceMountID b) (b_SourceRoot b)
         \<or> \<not> endpoint (b_DestinationNodeID b) (b_DestinationGrantID b) (b_DestinationMountID b) (b_DestinationRoot b) then False
      else \<not> (c_Context c = [] \<or> MaxContextBytes < length (c_Context c)))"

subsection \<open>The text of the claims\<close>

definition marshal_binding :: "binding \<Rightarrow> string" where
  "marshal_binding b = json_object
     ([(''actor_id'', json_string (b_ActorID b)), (''credential_id'', json_string (b_CredentialID b)),
       (''operation'', json_string (b_Operation b)), (''request_id'', json_string (b_RequestID b)),
       (''source_node_id'', json_string (b_SourceNodeID b)), (''source_grant_id'', json_string (b_SourceGrantID b)),
       (''source_mount_id'', json_string (b_SourceMountID b)), (''source_root'', json_string (b_SourceRoot b)),
       (''destination_node_id'', json_string (b_DestinationNodeID b)), (''destination_grant_id'', json_string (b_DestinationGrantID b)),
       (''destination_mount_id'', json_string (b_DestinationMountID b)), (''destination_root'', json_string (b_DestinationRoot b)),
       (''plan_id'', json_string (b_PlanID b))]
      @ (if b_JobOptionsDigest b = [] then [] else [(''job_options_digest'', json_string (b_JobOptionsDigest b))]))"

definition marshal_claims :: "claims \<Rightarrow> string" where
  "marshal_claims c = json_object
     [(''version'', json_int (c_Version c)), (''key_id'', json_string (c_KeyID c)), (''binding'', marshal_binding (c_Binding c)),
      (''issued_at'', json_int (c_IssuedAt c)), (''expires_at'', json_int (c_ExpiresAt c)), (''context'', RawMessage (c_Context c))]"

definition empty_binding :: binding where
  "empty_binding = \<lparr>b_ActorID = [], b_CredentialID = [], b_Operation = [], b_RequestID = [], b_SourceNodeID = [],
     b_SourceGrantID = [], b_SourceMountID = [], b_SourceRoot = [], b_DestinationNodeID = [], b_DestinationGrantID = [],
     b_DestinationMountID = [], b_DestinationRoot = [], b_PlanID = [], b_JobOptionsDigest = []\<rparr>"

definition binding_names :: "string list" where
  "binding_names = [''actor_id'', ''credential_id'', ''operation'', ''request_id'', ''source_node_id'', ''source_grant_id'',
     ''source_mount_id'', ''source_root'', ''destination_node_id'', ''destination_grant_id'', ''destination_mount_id'',
     ''destination_root'', ''plan_id'', ''job_options_digest'']"

definition set_binding :: "binding \<Rightarrow> string \<Rightarrow> string \<Rightarrow> json \<Rightarrow> binding option" where
  "set_binding b n raw v =
     (let str = (\<lambda>old upd. map_option upd (dec_string old v)) in
      if n = ''actor_id'' then str (b_ActorID b) (\<lambda>x. b\<lparr>b_ActorID := x\<rparr>)
      else if n = ''credential_id'' then str (b_CredentialID b) (\<lambda>x. b\<lparr>b_CredentialID := x\<rparr>)
      else if n = ''operation'' then str (b_Operation b) (\<lambda>x. b\<lparr>b_Operation := x\<rparr>)
      else if n = ''request_id'' then str (b_RequestID b) (\<lambda>x. b\<lparr>b_RequestID := x\<rparr>)
      else if n = ''source_node_id'' then str (b_SourceNodeID b) (\<lambda>x. b\<lparr>b_SourceNodeID := x\<rparr>)
      else if n = ''source_grant_id'' then str (b_SourceGrantID b) (\<lambda>x. b\<lparr>b_SourceGrantID := x\<rparr>)
      else if n = ''source_mount_id'' then str (b_SourceMountID b) (\<lambda>x. b\<lparr>b_SourceMountID := x\<rparr>)
      else if n = ''source_root'' then str (b_SourceRoot b) (\<lambda>x. b\<lparr>b_SourceRoot := x\<rparr>)
      else if n = ''destination_node_id'' then str (b_DestinationNodeID b) (\<lambda>x. b\<lparr>b_DestinationNodeID := x\<rparr>)
      else if n = ''destination_grant_id'' then str (b_DestinationGrantID b) (\<lambda>x. b\<lparr>b_DestinationGrantID := x\<rparr>)
      else if n = ''destination_mount_id'' then str (b_DestinationMountID b) (\<lambda>x. b\<lparr>b_DestinationMountID := x\<rparr>)
      else if n = ''destination_root'' then str (b_DestinationRoot b) (\<lambda>x. b\<lparr>b_DestinationRoot := x\<rparr>)
      else if n = ''plan_id'' then str (b_PlanID b) (\<lambda>x. b\<lparr>b_PlanID := x\<rparr>)
      else str (b_JobOptionsDigest b) (\<lambda>x. b\<lparr>b_JobOptionsDigest := x\<rparr>))"

definition empty_claims :: claims where
  "empty_claims = \<lparr>c_Version = 0, c_KeyID = [], c_Binding = empty_binding, c_IssuedAt = 0, c_ExpiresAt = 0, c_Context = []\<rparr>"

definition claims_names :: "string list" where
  "claims_names = [''version'', ''key_id'', ''binding'', ''issued_at'', ''expires_at'', ''context'']"

definition set_claims :: "claims \<Rightarrow> string \<Rightarrow> string \<Rightarrow> json \<Rightarrow> claims option" where
  "set_claims c n raw v =
     (if n = ''version'' then map_option (\<lambda>x. c\<lparr>c_Version := x\<rparr>) (dec_int (c_Version c) v)
      else if n = ''key_id'' then map_option (\<lambda>x. c\<lparr>c_KeyID := x\<rparr>) (dec_string (c_KeyID c) v)
      else if n = ''binding'' then map_option (\<lambda>x. c\<lparr>c_Binding := x\<rparr>) (dec_struct set_binding binding_names (c_Binding c) v)
      else if n = ''issued_at'' then map_option (\<lambda>x. c\<lparr>c_IssuedAt := x\<rparr>) (dec_int (c_IssuedAt c) v)
      else if n = ''expires_at'' then map_option (\<lambda>x. c\<lparr>c_ExpiresAt := x\<rparr>) (dec_int (c_ExpiresAt c) v)
      else Some (c\<lparr>c_Context := raw\<rparr>))"

definition dec_claims :: "json \<Rightarrow> claims option" where
  "dec_claims j = dec_struct set_claims claims_names empty_claims j"

subsection \<open>Signing and verifying\<close>

definition Sign :: "unicode_tables \<Rightarrow> crypto \<Rightarrow> claims \<Rightarrow> string \<Rightarrow> string option" where
  "Sign U C cl key =
     (if length key \<noteq> PrivateKeySize \<or> \<not> sa_validate cl then None
      else (case DecodeContext U (c_Context cl) of
              Inl _ \<Rightarrow> None
            | Inr _ \<Rightarrow>
                let payload = marshal_claims cl in
                if maxPayloadBytes < length payload then None
                else Some (b64_encode payload @ ''.'' @ b64_encode (ed_sign C key (domain @ payload)))))"

text \<open>\<open>verifySigned\<close>: the keys are a Go map, whose missing entries read as the empty key.\<close>

definition verifySigned :: "unicode_tables \<Rightarrow> crypto \<Rightarrow> string \<Rightarrow> (string \<rightharpoonup> string) \<Rightarrow> gotime \<Rightarrow> (claims \<times> ft_filter) option" where
  "verifySigned U C token keys now =
     (if EncodedLen maxPayloadBytes + 1 + EncodedLen SignatureSize < length token then None
      else (case split_byte (CHR ''.'') token of
              [p0, p1] \<Rightarrow>
                (case b64_decode p0 of
                   None \<Rightarrow> None
                 | Some payload \<Rightarrow>
                     if payload = [] \<or> maxPayloadBytes < length payload \<or> \<not> ValidateUniqueJSON U payload then None
                     else (case parse_json payload of
                             None \<Rightarrow> None
                           | Some j \<Rightarrow>
                               (case dec_claims j of
                                  None \<Rightarrow> None
                                | Some cl \<Rightarrow>
                                    if \<not> sa_validate cl then None
                                    else
                                      let key = (case keys (c_KeyID cl) of None \<Rightarrow> [] | Some k \<Rightarrow> k) in
                                      (case b64_decode p1 of
                                         None \<Rightarrow> None
                                       | Some sig \<Rightarrow>
                                           if length key \<noteq> PublicKeySize \<or> length sig \<noteq> SignatureSize
                                              \<or> \<not> ed_verify C key (domain @ payload) sig then None
                                           else if Unix now < c_IssuedAt cl \<or> c_ExpiresAt cl \<le> Unix now then None
                                           else (case DecodeContext U (c_Context cl) of
                                                   Inl _ \<Rightarrow> None
                                                 | Inr flt \<Rightarrow> Some (cl, flt))))))
            | _ \<Rightarrow> None))"

definition Verify :: "unicode_tables \<Rightarrow> crypto \<Rightarrow> string \<Rightarrow> (string \<rightharpoonup> string) \<Rightarrow> binding \<Rightarrow> string \<Rightarrow> gotime \<Rightarrow> (claims \<times> ft_filter) option" where
  "Verify U C token keys expected receivingNode now =
     (case verifySigned U C token keys now of
        None \<Rightarrow> None
      | Some (cl, flt) \<Rightarrow>
          if c_Binding cl \<noteq> expected \<or> receivingNode = []
             \<or> (receivingNode \<noteq> b_SourceNodeID expected \<and> receivingNode \<noteq> b_DestinationNodeID expected) then None
          else Some (cl, flt))"

definition read_operations :: "string list" where
  "read_operations = [''list'', ''metadata'', ''content'', ''archive'', ''archive_plan'', ''search'', ''disk_usage'']"

definition VerifyLocalRead :: "unicode_tables \<Rightarrow> crypto \<Rightarrow> string \<Rightarrow> (string \<rightharpoonup> string) \<Rightarrow> string \<Rightarrow> string \<Rightarrow> string \<Rightarrow> string \<Rightarrow> gotime
    \<Rightarrow> (claims \<times> ft_filter) option" where
  "VerifyLocalRead U C token keys receivingNode operation mountID root now =
     (case verifySigned U C token keys now of
        None \<Rightarrow> None
      | Some (cl, flt) \<Rightarrow>
          let b = c_Binding cl in
          if operation \<notin> set read_operations then None
          else if receivingNode = [] \<or> b_SourceNodeID b \<noteq> receivingNode \<or> b_SourceMountID b \<noteq> mountID \<or> b_SourceRoot b \<noteq> root
             \<or> b_Operation b \<noteq> operation \<or> b_SourceGrantID b \<noteq> [] \<or> b_DestinationNodeID b \<noteq> [] \<or> b_DestinationGrantID b \<noteq> []
             \<or> b_DestinationMountID b \<noteq> [] \<or> b_DestinationRoot b \<noteq> [] \<or> b_PlanID b \<noteq> [] then None
          else Some (cl, flt))"

definition upload_operations :: "string list" where
  "upload_operations = [''upload_chunk'', ''upload_complete'', ''upload_abort'']"

definition VerifyLocalUpload :: "unicode_tables \<Rightarrow> crypto \<Rightarrow> string \<Rightarrow> (string \<rightharpoonup> string) \<Rightarrow> string \<Rightarrow> string \<Rightarrow> string \<Rightarrow> string \<Rightarrow> string
    \<Rightarrow> string \<Rightarrow> string \<Rightarrow> gotime \<Rightarrow> (claims \<times> ft_filter) option" where
  "VerifyLocalUpload U C token keys actorID credentialID receivingNode operation mountID destination sessionID now =
     (case verifySigned U C token keys now of
        None \<Rightarrow> None
      | Some (cl, flt) \<Rightarrow>
          let b = c_Binding cl in
          if operation \<notin> set upload_operations then None
          else if actorID = [] \<or> credentialID = [] \<or> b_ActorID b \<noteq> actorID \<or> b_CredentialID b \<noteq> credentialID \<or> receivingNode = []
             \<or> sessionID = [] \<or> b_Operation b \<noteq> operation \<or> b_PlanID b \<noteq> sessionID \<or> b_DestinationNodeID b \<noteq> receivingNode
             \<or> b_DestinationMountID b \<noteq> mountID \<or> b_DestinationRoot b \<noteq> destination \<or> b_DestinationGrantID b \<noteq> []
             \<or> b_SourceNodeID b \<noteq> [] \<or> b_SourceGrantID b \<noteq> [] \<or> b_SourceMountID b \<noteq> [] \<or> b_SourceRoot b \<noteq> [] then None
          else Some (cl, flt))"

definition UploadAdmissionBodyID :: "crypto \<Rightarrow> string \<Rightarrow> string" where
  "UploadAdmissionBodyID C body = ''sha256-'' @ hex_encode (sha256 C body)"

definition VerifyUploadAdmission :: "unicode_tables \<Rightarrow> crypto \<Rightarrow> string \<Rightarrow> (string \<rightharpoonup> string) \<Rightarrow> string \<Rightarrow> string \<Rightarrow> string \<Rightarrow> string \<Rightarrow> gotime
    \<Rightarrow> (claims \<times> ft_filter) option" where
  "VerifyUploadAdmission U C token keys receivingNode mountID destination body now =
     (case verifySigned U C token keys now of
        None \<Rightarrow> None
      | Some (cl, flt) \<Rightarrow>
          let b = c_Binding cl in
          if receivingNode = [] \<or> destination = [] \<or> destination = ''.'' \<or> body = [] \<or> b_Operation b \<noteq> ''upload_create''
             \<or> b_PlanID b \<noteq> UploadAdmissionBodyID C body \<or> b_DestinationNodeID b \<noteq> receivingNode \<or> b_DestinationMountID b \<noteq> mountID
             \<or> b_DestinationRoot b \<noteq> destination \<or> b_DestinationGrantID b \<noteq> []
             \<or> b_SourceNodeID b \<noteq> [] \<or> b_SourceGrantID b \<noteq> [] \<or> b_SourceMountID b \<noteq> [] \<or> b_SourceRoot b \<noteq> [] then None
          else Some (cl, flt))"

definition upload_plan_text :: "string \<Rightarrow> string \<Rightarrow> string" where
  "upload_plan_text rawQuery idempotencyKey =
     decimal (int (length rawQuery)) @ '':'' @ rawQuery @ decimal (int (length idempotencyKey)) @ '':'' @ idempotencyKey"

definition SimpleUploadPlanID :: "crypto \<Rightarrow> string \<Rightarrow> string \<Rightarrow> string" where
  "SimpleUploadPlanID C rawQuery idempotencyKey = ''upload-'' @ hex_encode (sha256 C (upload_plan_text rawQuery idempotencyKey))"

definition VerifySimpleUpload :: "unicode_tables \<Rightarrow> crypto \<Rightarrow> string \<Rightarrow> (string \<rightharpoonup> string) \<Rightarrow> string \<Rightarrow> string \<Rightarrow> string \<Rightarrow> string \<Rightarrow> string \<Rightarrow> gotime
    \<Rightarrow> (claims \<times> ft_filter) option" where
  "VerifySimpleUpload U C token keys receivingNode mountID destination rawQuery idempotencyKey now =
     (case verifySigned U C token keys now of
        None \<Rightarrow> None
      | Some (cl, flt) \<Rightarrow>
          let b = c_Binding cl in
          if receivingNode = [] \<or> destination = [] \<or> destination = ''.'' \<or> b_Operation b \<noteq> ''upload_simple''
             \<or> b_PlanID b \<noteq> SimpleUploadPlanID C rawQuery idempotencyKey \<or> b_DestinationNodeID b \<noteq> receivingNode
             \<or> b_DestinationMountID b \<noteq> mountID \<or> b_DestinationRoot b \<noteq> destination \<or> b_DestinationGrantID b \<noteq> []
             \<or> b_SourceNodeID b \<noteq> [] \<or> b_SourceGrantID b \<noteq> [] \<or> b_SourceMountID b \<noteq> [] \<or> b_SourceRoot b \<noteq> [] then None
          else Some (cl, flt))"

definition UploadReauthorizationRequestID :: "crypto \<Rightarrow> string \<Rightarrow> string \<Rightarrow> 64 word \<Rightarrow> string" where
  "UploadReauthorizationRequestID C sessionID previousCredential revision =
     ''previous-'' @ hex_encode (sha256 C (sessionID @ [CHR 0x00] @ previousCredential @ [CHR 0x00] @ decimal (uint revision)))"

definition VerifyUploadReauthorization :: "unicode_tables \<Rightarrow> crypto \<Rightarrow> string \<Rightarrow> (string \<rightharpoonup> string) \<Rightarrow> string \<Rightarrow> string \<Rightarrow> string \<Rightarrow> string \<Rightarrow> string
    \<Rightarrow> string \<Rightarrow> 64 word \<Rightarrow> gotime \<Rightarrow> (claims \<times> ft_filter) option" where
  "VerifyUploadReauthorization U C token keys previousActor previousCredential receivingNode mountID destination sessionID revision now =
     (case verifySigned U C token keys now of
        None \<Rightarrow> None
      | Some (cl, flt) \<Rightarrow>
          let b = c_Binding cl in
          if receivingNode = [] \<or> sessionID = [] \<or> (previousActor = []) \<noteq> (previousCredential = [])
             \<or> previousActor \<noteq> [] \<and> b_ActorID b \<noteq> previousActor
             \<or> b_RequestID b \<noteq> UploadReauthorizationRequestID C sessionID previousCredential revision
             \<or> b_Operation b \<noteq> ''upload_reauthorize'' \<or> b_PlanID b \<noteq> sessionID \<or> b_DestinationNodeID b \<noteq> receivingNode
             \<or> b_DestinationMountID b \<noteq> mountID \<or> b_DestinationRoot b \<noteq> destination \<or> b_DestinationGrantID b \<noteq> []
             \<or> b_SourceNodeID b \<noteq> [] \<or> b_SourceGrantID b \<noteq> [] \<or> b_SourceMountID b \<noteq> [] \<or> b_SourceRoot b \<noteq> [] then None
          else Some (cl, flt))"

subsection \<open>Leases of jobs\<close>

definition lease_text :: "string \<Rightarrow> 64 word \<Rightarrow> string" where
  "lease_text jobID revision = ''jolt-job-lease-v1'' @ [CHR 0x00] @ jobID @ [CHR 0x00] @ decimal (uint revision)"

definition JobLeaseRequestID :: "crypto \<Rightarrow> string \<Rightarrow> 64 word \<Rightarrow> string" where
  "JobLeaseRequestID C jobID revision =
     (if \<not> sa_identifier jobID True \<or> revision = 0 then []
      else ''job-'' @ hex_encode (sha256 C (lease_text jobID revision)))"

definition lease_topology :: "binding \<Rightarrow> bool" where
  "lease_topology b \<longleftrightarrow>
     (if b_Operation b = ''delete'' then \<not> (b_SourceGrantID b \<noteq> [] \<or> b_DestinationNodeID b \<noteq> [])
      else if b_Operation b \<in> {''copy_local'', ''move_local''} then
        \<not> (b_SourceGrantID b \<noteq> [] \<or> b_DestinationGrantID b \<noteq> [] \<or> b_DestinationNodeID b \<noteq> b_SourceNodeID b
           \<or> b_DestinationMountID b \<noteq> b_SourceMountID b)
      else if b_Operation b \<in> {''transfer_pull'', ''transfer_pull_directory'', ''transfer_pull_batch'', ''transfer_move_batch''} then
        \<not> (b_SourceGrantID b = [] \<or> b_DestinationGrantID b = [] \<or> b_DestinationNodeID b = []
           \<or> b_DestinationNodeID b = b_SourceNodeID b)
      else False)"

definition JobLeaseBinding :: "crypto \<Rightarrow> binding \<Rightarrow> 64 word \<Rightarrow> binding option" where
  "JobLeaseBinding C b revision =
     (let requestID = JobLeaseRequestID C (b_PlanID b) revision in
      if requestID = [] \<or> \<not> validJobOptionsDigest (b_JobOptionsDigest b) \<or> b_RequestID b \<noteq> [] \<and> b_RequestID b \<noteq> requestID
         \<or> \<not> sa_identifier (b_ActorID b) True \<or> \<not> sa_identifier (b_CredentialID b) True
         \<or> \<not> sa_identifier (b_SourceNodeID b) True \<or> \<not> sa_identifier (b_SourceMountID b) True
         \<or> \<not> sa_identifier (b_SourceGrantID b) False \<or> \<not> sa_identifier (b_DestinationNodeID b) False
         \<or> \<not> sa_identifier (b_DestinationGrantID b) False \<or> \<not> sa_identifier (b_DestinationMountID b) False
         \<or> \<not> endpoint (b_SourceNodeID b) (b_SourceGrantID b) (b_SourceMountID b) (b_SourceRoot b)
         \<or> \<not> endpoint (b_DestinationNodeID b) (b_DestinationGrantID b) (b_DestinationMountID b) (b_DestinationRoot b) then None
      else if \<not> lease_topology b then None
      else Some (b\<lparr>b_RequestID := requestID\<rparr>))"

definition VerifyJobLease :: "unicode_tables \<Rightarrow> crypto \<Rightarrow> string \<Rightarrow> (string \<rightharpoonup> string) \<Rightarrow> binding \<Rightarrow> string \<Rightarrow> 64 word \<Rightarrow> gotime
    \<Rightarrow> (claims \<times> ft_filter) option" where
  "VerifyJobLease U C token keys expected receivingNode revision now =
     (case JobLeaseBinding C expected revision of
        None \<Rightarrow> None
      | Some b \<Rightarrow> Verify U C token keys b receivingNode now)"

definition VerifiedJobLeaseBinding :: "unicode_tables \<Rightarrow> crypto \<Rightarrow> string \<Rightarrow> (string \<rightharpoonup> string) \<Rightarrow> string \<Rightarrow> gotime \<Rightarrow> binding option" where
  "VerifiedJobLeaseBinding U C token keys receivingNode now =
     (case verifySigned U C token keys now of
        None \<Rightarrow> None
      | Some (cl, _) \<Rightarrow>
          if receivingNode = []
             \<or> receivingNode \<noteq> b_SourceNodeID (c_Binding cl) \<and> receivingNode \<noteq> b_DestinationNodeID (c_Binding cl) then None
          else
            let b = (c_Binding cl)\<lparr>b_RequestID := []\<rparr> in
            (case JobLeaseBinding C b 1 of None \<Rightarrow> None | Some _ \<Rightarrow> Some b))"

subsection \<open>Job options\<close>

record job_options =
  jo_Overwrite :: bool
  jo_Recursive :: bool
  jo_ConflictPolicy :: string
  jo_SourceChangePolicy :: string
  jo_VerifyChecksum :: bool
  jo_BandwidthLimit :: int
  jo_MaxParallelFiles :: int
  jo_MaxParallelChunks :: int
  jo_MaxAttempts :: int

definition marshal_job_options :: "job_options \<Rightarrow> string" where
  "marshal_job_options opts = json_object
     [(''overwrite'', json_bool (jo_Overwrite opts)), (''recursive'', json_bool (jo_Recursive opts)),
      (''conflict_policy'', json_string (jo_ConflictPolicy opts)), (''source_change_policy'', json_string (jo_SourceChangePolicy opts)),
      (''verify_checksum'', json_bool (jo_VerifyChecksum opts)), (''bandwidth_limit_bytes_per_second'', json_int (jo_BandwidthLimit opts)),
      (''max_parallel_files'', json_int (jo_MaxParallelFiles opts)), (''max_parallel_chunks'', json_int (jo_MaxParallelChunks opts)),
      (''max_attempts'', json_int (jo_MaxAttempts opts))]"

definition JobOptionsDigest :: "crypto \<Rightarrow> job_options \<Rightarrow> string" where
  "JobOptionsDigest C opts = b64_encode (sha256 C (''jolt-job-options-v1'' @ [CHR 0x00] @ marshal_job_options opts))"

subsection \<open>What is signed is read back\<close>

definition binding_fields :: "binding \<Rightarrow> (string \<times> string) list" where
  "binding_fields b =
     [(''actor_id'', b_ActorID b), (''credential_id'', b_CredentialID b), (''operation'', b_Operation b), (''request_id'', b_RequestID b),
      (''source_node_id'', b_SourceNodeID b), (''source_grant_id'', b_SourceGrantID b), (''source_mount_id'', b_SourceMountID b),
      (''source_root'', b_SourceRoot b), (''destination_node_id'', b_DestinationNodeID b), (''destination_grant_id'', b_DestinationGrantID b),
      (''destination_mount_id'', b_DestinationMountID b), (''destination_root'', b_DestinationRoot b), (''plan_id'', b_PlanID b)]
     @ (if b_JobOptionsDigest b = [] then [] else [(''job_options_digest'', b_JobOptionsDigest b)])"

abbreviation string_member :: "string \<times> string \<Rightarrow> string \<times> string \<times> json" where
  "string_member f \<equiv> (fst f, json_string (snd f), JStr (snd f))"

definition binding_members :: "binding \<Rightarrow> (string \<times> string \<times> json) list" where
  "binding_members b = map string_member (binding_fields b)"

definition claims_members :: "claims \<Rightarrow> json \<Rightarrow> (string \<times> string \<times> json) list" where
  "claims_members c j =
     [(''version'', json_int (c_Version c), JNum (json_int (c_Version c))), (''key_id'', json_string (c_KeyID c), JStr (c_KeyID c)),
      (''binding'', marshal_binding (c_Binding c), JObj (binding_members (c_Binding c))),
      (''issued_at'', json_int (c_IssuedAt c), JNum (json_int (c_IssuedAt c))),
      (''expires_at'', json_int (c_ExpiresAt c), JNum (json_int (c_ExpiresAt c))), (''context'', c_Context c, j)]"

lemma marshal_binding_members: "marshal_binding b = json_object (map (\<lambda>m. (fst m, fst (snd m))) (binding_members b))"
  by (simp add: marshal_binding_def binding_members_def binding_fields_def)

lemma binding_fields_names: "set (map fst (binding_fields b)) \<subseteq> set binding_names" "distinct (map fst (binding_fields b))"
  by (simp_all add: binding_fields_def binding_names_def)

definition field_name :: "string \<Rightarrow> bool" where
  "field_name n \<longleftrightarrow> valid_utf8 n \<and> list_all (\<lambda>c. ascii c \<and> \<not> (65 \<le> byte c \<and> byte c \<le> 90)) n"

lemma field_name_plain: "field_name n \<Longrightarrow> valid_utf8 n \<and> ToLower U n = n"
  unfolding field_name_def by (blast intro: ToLower_lower)

lemma field_names: "list_all field_name (binding_names @ claims_names)"
  by code_simp

lemma field_names_plain:
  "n \<in> set binding_names \<Longrightarrow> valid_utf8 n \<and> ToLower U n = n" "n \<in> set claims_names \<Longrightarrow> valid_utf8 n \<and> ToLower U n = n"
  using field_names field_name_plain [of n U] by (simp_all add: list_all_iff)

lemma reads_binding:
  assumes "list_all valid_utf8 (map snd (binding_fields b))"
  shows "reads (marshal_binding b) (JObj (binding_members b))"
proof -
  have "valid_utf8 k \<and> reads t v" if "(k, t, v) \<in> set (binding_members b)" for k t v
    using that assms binding_fields_names(1) [of b] field_names_plain(1) [of k]
    by (auto simp: binding_members_def list_all_iff intro!: reads_string)
  then show ?thesis unfolding marshal_binding_members by (rule reads_members)
qed

lemma unique_binding: "depth \<le> 63 \<Longrightarrow> unique_value U depth (JObj (binding_members b))"
proof -
  assume d: "depth \<le> 63"
  have "map (\<lambda>m. ToLower U (fst m)) (binding_members b) = map fst (binding_fields b)"
    using binding_fields_names(1) [of b] field_names_plain(1) by (auto simp: binding_members_def)
  with d binding_fields_names(2) [of b] show ?thesis by (simp add: list_all_iff) (simp add: binding_members_def)
qed

lemma dec_binding: "dec_struct set_binding binding_names empty_binding (JObj (binding_members b)) = Some b"
  by (cases b) (simp add: dec_struct_def binding_members_def binding_fields_def set_binding_def binding_names_def
      empty_binding_def dec_string_def)

text \<open>Validation leaves UTF-8 strings only.\<close>

lemma identifier_utf8: "sa_identifier v req \<Longrightarrow> valid_utf8 v"
  by (auto simp: sa_identifier_def split: if_splits)

lemma endpoint_utf8: "endpoint n g m r \<Longrightarrow> valid_utf8 r"
  by (auto simp: endpoint_def split: if_splits)

lemma digest_utf8: "validJobOptionsDigest d \<Longrightarrow> valid_utf8 d"
proof (cases "d = []")
  case False
  assume "validJobOptionsDigest d"
  with False obtain t where "d = b64_encode t" by (auto simp: validJobOptionsDigest_def split: option.splits)
  then show ?thesis using b64_encode_plain [of _ t] by (intro valid_utf8_ascii) (auto simp: list_all_iff)
qed simp

lemma validate_utf8: "sa_validate c \<Longrightarrow> valid_utf8 (c_KeyID c) \<and> list_all valid_utf8 (map snd (binding_fields (c_Binding c)))"
  by (auto simp: sa_validate_def Let_def binding_fields_def split: if_splits intro: identifier_utf8 endpoint_utf8 digest_utf8)

text \<open>Claims whose context is the text the control plane writes, and whose times fit an \<open>int64\<close>.\<close>

definition well_formed_claims :: "claims \<Rightarrow> ft_context \<Rightarrow> bool" where
  "well_formed_claims c ctx \<longleftrightarrow> sa_validate c \<and> int64_range (c_IssuedAt c) \<and> int64_range (c_ExpiresAt c)
     \<and> context_utf8 ctx \<and> c_Context c = marshal_context ctx"

lemma kept_strings: "kept False (strings_text xs)"
  by (rule kept_array) (auto simp: kept_string)

lemma kept_selector: "kept False (marshal_selector s)"
  unfolding marshal_selector_def by (rule kept_object) (auto simp: kept_strings split: if_splits)

lemma kept_rule: "kept False (marshal_rule r)"
  unfolding marshal_rule_def
  by (rule kept_object) (auto simp: kept_strings kept_string kept_selector split: if_splits option.splits)

lemma kept_context: "kept False (marshal_context c)"
  unfolding marshal_context_def by (rule kept_object) (auto simp: kept_int intro!: kept_array kept_rule)

lemma claims_text:
  assumes "well_formed_claims c ctx"
  shows "reads (marshal_claims c) (JObj (claims_members c (JObj (context_members ctx))))"
    and "dec_claims (JObj (claims_members c (JObj (context_members ctx)))) = Some c"
    and "unique_value U 0 (JObj (claims_members c (JObj (context_members ctx))))"
proof -
  note w = assms [unfolded well_formed_claims_def]
  have raw: "RawMessage (c_Context c) = c_Context c" using w by (simp add: kept_RawMessage kept_context)
  have rc: "reads (c_Context c) (JObj (context_members ctx))" using w by (simp add: reads_context)
  have rb: "reads (marshal_binding (c_Binding c)) (JObj (binding_members (c_Binding c)))"
    using w validate_utf8 by (simp add: reads_binding)
  have rk: "reads (json_string (c_KeyID c)) (JStr (c_KeyID c))" using w validate_utf8 by (simp add: reads_string)
  have "valid_utf8 k \<and> reads t v" if "(k, t, v) \<in> set (claims_members c (JObj (context_members ctx)))" for k t v
  proof
    have "k \<in> set claims_names" using that by (auto simp: claims_members_def claims_names_def)
    then show "valid_utf8 k" using field_names_plain(2) by blast
    show "reads t v" using that rb rc rk reads_int by (auto simp: claims_members_def)
  qed
  then have "reads (json_object (map (\<lambda>m. (fst m, fst (snd m))) (claims_members c (JObj (context_members ctx)))))
      (JObj (claims_members c (JObj (context_members ctx))))"
    by (rule reads_members)
  then show "reads (marshal_claims c) (JObj (claims_members c (JObj (context_members ctx))))"
    by (simp add: marshal_claims_def claims_members_def raw)
  have "int64_range (c_Version c)" using w by (auto simp: sa_validate_def sa_Version_def int64_range_def Let_def split: if_splits)
  with w show "dec_claims (JObj (claims_members c (JObj (context_members ctx)))) = Some c"
    unfolding dec_claims_def
    by (subst dec_struct_def, cases c) (simp add: claims_members_def set_claims_def claims_names_def empty_claims_def
        dec_string_def dec_int_def parse_int64_json_int dec_binding)
  have "unique_value U (Suc 0) (JObj (binding_members (c_Binding c)))" "unique_value U (Suc 0) (JObj (context_members ctx))"
    by (rule unique_binding unique_context; simp)+
  moreover have "map (\<lambda>m. ToLower U (fst m)) (claims_members c (JObj (context_members ctx))) = claims_names"
    using field_names_plain(2) by (simp add: claims_members_def claims_names_def)
  moreover have "distinct claims_names" by (simp add: claims_names_def)
  ultimately show "unique_value U 0 (JObj (claims_members c (JObj (context_members ctx))))"
    by (simp only: unique_value.simps) (simp add: claims_members_def)
qed

lemma claims_text_read:
  assumes "well_formed_claims c ctx"
  shows "ValidateUniqueJSON U (marshal_claims c)" "\<exists>j. parse_json (marshal_claims c) = Some j \<and> dec_claims j = Some c"
    "marshal_claims c \<noteq> []"
  using reads_parse [OF claims_text(1) [OF assms]] claims_text(2,3) [OF assms]
  by (auto simp: ValidateUniqueJSON_def marshal_claims_def json_object_def simp del: unique_value.simps)

lemma split_token: "CHR ''.'' \<notin> set p \<Longrightarrow> CHR ''.'' \<notin> set q \<Longrightarrow> split_byte (CHR ''.'') (p @ ''.'' @ q) = [p, q]"
  using split_byte_append [of "CHR ''.''" p q] by simp

text \<open>
  The claims and the filter of a token, without regard to the time: what a verification at any time
  can return.
\<close>

definition token_payload :: "unicode_tables \<Rightarrow> crypto \<Rightarrow> string \<Rightarrow> (string \<rightharpoonup> string) \<Rightarrow> string \<Rightarrow> claims \<Rightarrow> ft_filter \<Rightarrow> bool" where
  "token_payload U C token keys payload cl flt \<longleftrightarrow>
     (\<exists>p0 p1 j key sig. token = p0 @ ''.'' @ p1 \<and> b64_decode p0 = Some payload \<and> length payload \<le> maxPayloadBytes
        \<and> parse_json payload = Some j \<and> dec_claims j = Some cl \<and> sa_validate cl
        \<and> b64_decode p1 = Some sig \<and> keys (c_KeyID cl) = Some key \<and> ed_verify C key (domain @ payload) sig
        \<and> CHR ''.'' \<notin> set p0 \<and> DecodeContext U (c_Context cl) = Inr flt)"

lemma verifySigned_payload:
  assumes "verifySigned U C token keys now = Some (cl, flt)"
  shows "(\<exists>payload. token_payload U C token keys payload cl flt) \<and> c_IssuedAt cl \<le> Unix now \<and> Unix now < c_ExpiresAt cl"
proof -
  obtain p0 p1 where parts: "split_byte (CHR ''.'') token = [p0, p1]"
    using assms by (simp add: verifySigned_def split: if_splits list.splits)
  have token: "token = p0 @ ''.'' @ p1" using join_split [of "CHR ''.''" token] parts by simp
  have nodot: "CHR ''.'' \<notin> set p0" using split_byte_sep_free [of p0 "CHR ''.''" token] parts by simp
  note a = assms [unfolded verifySigned_def parts, simplified]
  obtain payload where p: "b64_decode p0 = Some payload" "length payload \<le> maxPayloadBytes"
    using a by (auto split: if_splits option.splits)
  obtain j where j: "parse_json payload = Some j" using a p by (auto split: if_splits option.splits)
  obtain cl' where cl': "dec_claims j = Some cl'" "sa_validate cl'" using a p j by (auto split: if_splits option.splits)
  obtain sig where s: "b64_decode p1 = Some sig" using a p j cl' by (auto split: if_splits option.splits simp: Let_def)
  obtain key where k: "keys (c_KeyID cl') = Some key" "ed_verify C key (domain @ payload) sig"
    using a p j cl' s by (cases "keys (c_KeyID cl')") (auto split: if_splits simp: Let_def)
  have "cl = cl' \<and> DecodeContext U (c_Context cl) = Inr flt \<and> c_IssuedAt cl \<le> Unix now \<and> Unix now < c_ExpiresAt cl"
    using a p j cl' s k by (auto split: if_splits sum.splits simp: Let_def)
  with token nodot p j cl' s k show ?thesis unfolding token_payload_def by blast
qed

lemma token_payload_unique:
  assumes "token_payload U C token keys payload cl flt" "token_payload U C token keys payload' cl' flt'"
  shows "payload' = payload \<and> cl' = cl \<and> flt' = flt"
proof -
  obtain p0 p1 where t: "token = p0 @ ''.'' @ p1" "CHR ''.'' \<notin> set p0" "b64_decode p0 = Some payload"
    using assms(1) unfolding token_payload_def by blast
  obtain q0 q1 where t': "token = q0 @ ''.'' @ q1" "CHR ''.'' \<notin> set q0" "b64_decode q0 = Some payload'"
    using assms(2) unfolding token_payload_def by blast
  have "split_byte (CHR ''.'') token = p0 # split_byte (CHR ''.'') p1" using t by (simp add: split_byte_append)
  moreover have "split_byte (CHR ''.'') token = q0 # split_byte (CHR ''.'') q1" using t' by (simp add: split_byte_append)
  ultimately have "q0 = p0" by simp
  then have "payload' = payload" using t t' by simp
  then show ?thesis using assms unfolding token_payload_def by auto
qed

lemma verifySigned_same_claims:
  assumes "verifySigned U C token keys now = Some (cl, flt)" "verifySigned U C token keys now' = Some (cl', flt')"
  shows "cl' = cl \<and> flt' = flt"
  using verifySigned_payload [OF assms(1)] verifySigned_payload [OF assms(2)] token_payload_unique by blast

lemma validate_times: "sa_validate c \<Longrightarrow> 0 < c_IssuedAt c \<and> c_IssuedAt c < c_ExpiresAt c \<and> c_ExpiresAt c \<le> c_IssuedAt c + 30"
  by (auto simp: sa_validate_def Let_def MaxLifetime_def split: if_splits)

lemma verifySigned_valid: "verifySigned U C token keys now = Some (cl, flt) \<Longrightarrow> sa_validate cl"
  using verifySigned_payload unfolding token_payload_def by blast

subsection \<open>Identities that bind what they hash\<close>

lemma split_first: "c \<notin> set p \<Longrightarrow> c \<notin> set q \<Longrightarrow> p @ c # s = q @ c # t \<longleftrightarrow> p = q \<and> s = t"
proof (induction p arbitrary: q)
  case Nil
  then show ?case by (cases q) auto
next
  case (Cons a p)
  then show ?case by (cases q) auto
qed

lemma decimal_inject: "0 \<le> m \<Longrightarrow> 0 \<le> n \<Longrightarrow> decimal m = decimal n \<longleftrightarrow> m = n"
  by (metis digits_value_decimal option.inject)

lemma decimal_no_char: "0 \<le> n \<Longrightarrow> \<not> is_digit_char c \<Longrightarrow> c \<notin> set (decimal n)"
  using decimal_digits [of n] by (auto simp: list_all_iff)

lemma hex_digit_inject: "0 \<le> m \<Longrightarrow> m < 16 \<Longrightarrow> 0 \<le> n \<Longrightarrow> n < 16 \<Longrightarrow> hex_digit m = hex_digit n \<longleftrightarrow> m = n"
  by (metis hex_value_digit option.inject)

lemma hex_encode_inject: "hex_encode s = hex_encode t \<longleftrightarrow> s = t"
proof
  assume "hex_encode s = hex_encode t"
  then show "s = t"
  proof (induction s arbitrary: t)
    case Nil
    then show ?case by (cases t) (simp_all add: hex_encode_def)
  next
    case (Cons a s)
    then obtain b u where t: "t = b # u" by (cases t) (simp_all add: hex_encode_def)
    have "hex_digit (byte a div 16) = hex_digit (byte b div 16)" "hex_digit (byte a mod 16) = hex_digit (byte b mod 16)"
      and u: "hex_encode s = hex_encode u"
      using Cons.prems by (simp_all add: t hex_encode_def)
    then have "byte a div 16 = byte b div 16" "byte a mod 16 = byte b mod 16"
      by (simp_all only: hex_digit_inject [OF byte_parts(5,6) byte_parts(5,6)] hex_digit_inject [OF byte_parts(7,8) byte_parts(7,8)])
    then have "byte a = byte b" by (metis div_mult_mod_eq)
    then show ?case using Cons.IH [OF u] by (simp add: t)
  qed
qed simp

lemma runes_ascii_mem: "valid_utf8 s \<Longrightarrow> c \<in> set s \<Longrightarrow> ascii c \<Longrightarrow> byte c \<in> set (runes s)"
proof (induction s rule: valid_utf8.induct)
  case (2 d cs)
  note v = 2(2) [unfolded valid_utf8.simps(2)]
  obtain r n where d: "decode_rune (d # cs) = Some (r, n)"
    using v by (cases "decode_rune (d # cs)") auto
  have runes: "runes (d # cs) = r # runes (drop (n - 1) cs)" by (subst runes.simps(2)) (simp add: d)
  have "c = d \<and> byte c = r \<or> c \<in> set (drop (n - 1) cs)"
  proof (cases "ascii d")
    case True
    then have "n = 1" "r = byte d" using d by simp_all
    with 2(3) show ?thesis by auto
  next
    case False
    have "c \<noteq> d" using 2(4) False by blast
    moreover have "c \<notin> set (take (n - 1) cs)" using decode_rune_rest [OF d] 2(4) by (auto simp: list_all_iff ascii_def)
    moreover have "set cs = set (take (n - 1) cs) \<union> set (drop (n - 1) cs)" by (metis append_take_drop_id set_append)
    ultimately show ?thesis using 2(3) by auto
  qed
  moreover have "byte c \<in> set (runes (drop (n - 1) cs))" if "c \<in> set (drop (n - 1) cs)"
    using 2(1) [OF d refl] v that 2(4) d by simp
  ultimately show ?case unfolding runes by auto
qed simp

lemma identifier_no_NUL: "sa_identifier v req \<Longrightarrow> CHR 0x00 \<notin> set v"
proof
  assume i: "sa_identifier v req" and c: "CHR 0x00 \<in> set v"
  then have "valid_utf8 v" "list_all identifier_rune_ok (runes v)" by (auto simp: sa_identifier_def split: if_splits)
  moreover have "ascii (CHR 0x00)" "byte (CHR 0x00) = 0" by code_simp+
  ultimately have "identifier_rune_ok 0" using runes_ascii_mem [OF _ c] by (auto simp: list_all_iff)
  then show False by (simp add: identifier_rune_ok_def)
qed

lemma lease_text_inject:
  assumes "sa_identifier j True" "sa_identifier j' True"
  shows "lease_text j r = lease_text j' r' \<longleftrightarrow> j = j' \<and> r = r'"
proof -
  have "lease_text j r = lease_text j' r' \<longleftrightarrow> j @ CHR 0x00 # decimal (uint r) = j' @ CHR 0x00 # decimal (uint r')"
    by (simp add: lease_text_def)
  also have "\<dots> \<longleftrightarrow> j = j' \<and> decimal (uint r) = decimal (uint r')"
    by (rule split_first) (use assms identifier_no_NUL in blast)+
  finally show ?thesis using decimal_inject [of "uint r" "uint r'"] by (auto simp: word_uint_eq_iff)
qed

lemma upload_plan_text_inject: "upload_plan_text q k = upload_plan_text q' k' \<longleftrightarrow> q = q' \<and> k = k'"
proof
  have nc: "CHR '':'' \<notin> set (decimal (int n))" for n by (rule decimal_no_char) (simp, code_simp)
  have split: "m = n \<and> s = t" if "decimal (int m) @ CHR '':'' # s = decimal (int n) @ CHR '':'' # t" for m n s t
    using that split_first [OF nc nc] by (simp add: decimal_inject)
  assume "upload_plan_text q k = upload_plan_text q' k'"
  then have "length q = length q'" and "q @ decimal (int (length k)) @ CHR '':'' # k = q' @ decimal (int (length k')) @ CHR '':'' # k'"
    using split [of "length q" _ "length q'"] by (auto simp: upload_plan_text_def)
  then show "q = q' \<and> k = k'" using split [of "length k" k "length k'" k'] by simp
qed simp

lemma Verify_SomeD:
  "Verify U C token keys b node now = Some (cl, flt) \<Longrightarrow>
   verifySigned U C token keys now = Some (cl, flt) \<and> c_Binding cl = b \<and> node \<noteq> [] \<and> (node = b_SourceNodeID b \<or> node = b_DestinationNodeID b)"
  by (auto simp: Verify_def split: option.splits if_splits)

lemma JobLeaseBinding_SomeD:
  assumes "JobLeaseBinding C b r = Some b'"
  shows "sa_identifier (b_PlanID b) True \<and> r \<noteq> 0 \<and> lease_topology b
     \<and> b' = b\<lparr>b_RequestID := ''job-'' @ hex_encode (sha256 C (lease_text (b_PlanID b) r))\<rparr>"
proof -
  have "JobLeaseRequestID C (b_PlanID b) r \<noteq> []" "lease_topology b" "b' = b\<lparr>b_RequestID := JobLeaseRequestID C (b_PlanID b) r\<rparr>"
    using assms by (auto simp: JobLeaseBinding_def Let_def split: if_splits)
  then show ?thesis by (auto simp: JobLeaseRequestID_def split: if_splits)
qed

end
