(* ===== verification/Entities.thy ===== *)
theory Entities
  imports Prelude "HOL-Library.Word"
begin

text \<open>
  The records that a node persists (\<open>node/backend/internal/entities/entities.go\<close>) and the errors its
  storage returns (\<open>contracts/errors.go\<close>). A field keeps its Go name after a prefix per record;
  \<open>int\<close> and \<open>int64\<close> are \<^typ>\<open>int\<close>, the unsigned 64-bit revisions are words, a \<open>float64\<close> is its
  bit pattern.
\<close>

datatype err =
    ErrNotFound
  | ErrInUse
  | ErrIdempotencyConflict
  | ErrUploadSessionExists
  | ErrManagedConfiguration
  | ErrStateUnavailable
  | ErrJobAuthorizationUnavailable
  | ErrJobAuthorizationChanged
  | Errorf string \<comment> \<open>an error made from a message\<close>

record trash_config =
  tc_Enabled :: bool
  tc_RetentionDays :: int
  tc_MaxBytes :: int

record mount =
  mnt_CanaryPaths :: "string list"
  mnt_HiddenPatterns :: "string list"
  mnt_Trash :: "trash_config option"
  mnt_ID :: string
  mnt_Name :: string
  mnt_LocalPath :: string
  mnt_TargetType :: string
  mnt_Mode :: string
  mnt_Published :: bool
  mnt_Enabled :: bool
  mnt_State :: string
  mnt_Readable :: bool
  mnt_Writable :: bool
  mnt_ModeBits :: string
  mnt_CreatedAt :: gotime
  mnt_UpdatedAt :: gotime

record trash_item =
  tr_ID :: string
  tr_MountID :: string
  tr_Path :: string
  tr_Type :: string
  tr_Size :: int
  tr_State :: string
  tr_DeletedAt :: gotime
  tr_ExpiresAt :: gotime

record job =
  job_ParentJobID :: string
  job_DestructivePlanID :: string
  job_SignedAuthBound :: bool
  job_RequiresSignedAuth :: bool
  job_SignedAuthActorID :: string
  job_SignedAuthCredentialID :: string
  job_SourcesOmitted :: int
  job_ID :: string
  job_Type :: string
  job_State :: string
  job_Phase :: string
  job_MountID :: string
  job_PeerNodeID :: string
  job_SourceGrantID :: string
  job_DestinationGrantID :: string
  job_SourceETag :: string
  job_SourcePath :: string
  job_Destination :: string
  job_BytesTotal :: int
  job_BytesCompleted :: int
  job_BytesPerSecond :: "64 word"
  job_ETASeconds :: "int option"
  job_ETAConfidence :: string
  job_FilesTotal :: int
  job_FilesCompleted :: int
  job_FilesFailed :: int
  job_ConflictPolicy :: string
  job_SourceChangePolicy :: string
  job_VerifyChecksum :: bool
  job_BandwidthLimit :: int
  job_MaxParallelFiles :: int
  job_MaxParallelChunks :: int
  job_Overwrite :: bool
  job_Recursive :: bool
  job_Attempt :: int
  job_MaxAttempts :: int
  job_Error :: string
  job_CorrelationID :: string
  job_CreatedAt :: gotime
  job_UpdatedAt :: gotime
  job_StartedAt :: "gotime option"
  job_NextAttemptAt :: "gotime option"
  job_CompletedAt :: "gotime option"

record job_item =
  item_JobID :: string
  item_Ordinal :: int
  item_RelativePath :: string
  item_SourcePath :: string
  item_DestinationPath :: string
  item_Type :: string
  item_Size :: int
  item_ModifiedAt :: gotime
  item_Checksum :: string
  item_SourceRoot :: bool
  item_SourceCleanupState :: string
  item_Action :: string
  item_State :: string
  item_BytesCompleted :: int
  item_Attempt :: int
  item_Error :: string
  item_UpdatedAt :: gotime

record job_event =
  evt_ID :: int
  evt_JobID :: string
  evt_Type :: string
  evt_State :: string
  evt_Phase :: string
  evt_BytesTotal :: int
  evt_BytesCompleted :: int
  evt_BytesPerSecond :: "64 word"
  evt_ETASeconds :: "int option"
  evt_ETAConfidence :: string
  evt_FilesTotal :: int
  evt_FilesCompleted :: int
  evt_FilesFailed :: int
  evt_Message :: string
  evt_CorrelationID :: string
  evt_CreatedAt :: gotime

record token_state =
  tok_StagedHash :: string
  tok_ActiveHash :: string
  tok_EnvTokenDisabled :: bool
  tok_UpdatedAt :: gotime
  tok_CorrelationID :: string

record pairing_invite =
  inv_ID :: string
  inv_TargetNodeID :: string
  inv_TransferMode :: string
  inv_IssuerRole :: string
  inv_InviteeRole :: string
  inv_Purpose :: string
  inv_ClusterID :: string
  inv_OneTime :: bool
  inv_Status :: string
  inv_ExpiresAt :: gotime
  inv_CreatedAt :: gotime
  inv_RevokedAt :: "gotime option"
  inv_CorrelationID :: string

record pairing_request =
  prq_ID :: string
  prq_InviteID :: string
  prq_IssuerNodeID :: string
  prq_IssuerName :: string
  prq_IssuerFingerprint :: string
  prq_IssuerIdentityEpoch :: int
  prq_IssuerEndpoint :: string
  prq_IssuerMTLSEndpoint :: string
  prq_TransferMode :: string
  prq_IssuerRole :: string
  prq_InviteeRole :: string
  prq_Purpose :: string
  prq_ClusterID :: string
  prq_Status :: string
  prq_ExpiresAt :: gotime
  prq_CreatedAt :: gotime
  prq_CorrelationID :: string

record peer =
  peer_NodeID :: string
  peer_Name :: string
  peer_Fingerprint :: string
  peer_PreviousFingerprint :: string
  peer_IdentityEpoch :: int
  peer_Endpoint :: string
  peer_MTLSEndpoint :: string
  peer_TransferMode :: string
  peer_LocalRole :: string
  peer_RemoteRole :: string
  peer_ClusterID :: string
  peer_State :: string
  peer_LastSeenAt :: "gotime option"
  peer_ConsecutiveFailures :: int
  peer_TrustedAt :: gotime
  peer_CorrelationID :: string

record grant_permissions =
  gp_Read :: bool
  gp_Write :: bool
  gp_Delete :: bool
  gp_Rename :: bool

record transfer_grant =
  gr_ConfiguredEnabled :: bool
  gr_InactiveReason :: string
  gr_ID :: string
  gr_PeerNodeID :: string
  gr_MountID :: string
  gr_Path :: string
  gr_Direction :: string
  gr_Permissions :: grant_permissions
  gr_ConflictPolicies :: "string list"
  gr_Exclude :: "string list"
  gr_VisibleToPeer :: bool
  gr_Enabled :: bool
  gr_CorrelationID :: string
  gr_CreatedAt :: gotime
  gr_UpdatedAt :: gotime

record upload_session =
  up_AuthorizationActorID :: string
  up_AuthorizationCredentialID :: string
  up_AuthorizationRevision :: "64 word"
  up_State :: string
  up_CompletedAt :: "gotime option"
  up_PublishChecksum :: string
  up_ID :: string
  up_MountID :: string
  up_Destination :: string
  up_Size :: int
  up_Offset :: int
  up_Overwrite :: bool
  up_Checksum :: string
  up_ChunkSize :: int
  up_CorrelationID :: string
  up_CreatedAt :: gotime
  up_UpdatedAt :: gotime
  up_ExpiresAt :: gotime

record destructive_plan =
  dp_ID :: string
  dp_TokenHash :: string
  dp_SubjectType :: string
  dp_SubjectID :: string
  dp_Operation :: string
  dp_MountID :: string
  dp_Source :: string
  dp_Destination :: string
  dp_Overwrite :: bool
  dp_DestinationExists :: bool
  dp_TreeDigest :: string
  dp_DestinationDigest :: string
  dp_CreatedAt :: gotime
  dp_ExpiresAt :: gotime
  dp_ConsumedJobID :: string
  dp_IdempotencyKey :: string
  dp_RequestHash :: string

record move_plan_binding =
  mpb_PlanID :: string
  mpb_SubjectType :: string
  mpb_TokenHash :: string
  mpb_Digest :: string
  mpb_Now :: gotime

record managed_trust =
  mt_RootPin :: string
  mt_Bundle :: string
  mt_APICertPEM :: string
  mt_APIKey :: string
  mt_OperationalHash :: string
  mt_PendingKey :: string
  mt_EnrolledAt :: gotime
  mt_UpdatedAt :: gotime

definition TrustedPeerState :: "string \<Rightarrow> bool" where
  "TrustedPeerState state \<longleftrightarrow> state \<in> {''trusted'', ''unknown'', ''online'', ''offline'', ''degraded''}"

end
