(* ===== verification/State_Db.thy ===== *)
theory State_Db
  imports Entities Go_Strings "HOL-Library.AList" "HOL-Library.Product_Lexorder"
begin

text \<open>
  What the node's record store promises (\<open>node/backend/internal/infra/state/storage.go\<close>): records
  addressed by bucket and key, selections of the keys in their order, and transactions that are
  checked as a whole and applied as a whole. The operations of the node state (jobs, uploads,
  peers, configuration) are transactions over this view of the files, the journal and the indexes.

  The value of a record is of the type \<open>'v\<close>; the YAML text that carries it is not part of the view.
\<close>

subsection \<open>Records\<close>

record 'v srec =
  rec_Bucket :: string
  rec_Key :: string
  rec_Group :: string
  rec_Order :: string
  rec_State :: string
  rec_Delete :: bool
  rec_Data :: "'v option"

abbreviation rec_id :: "'v srec \<Rightarrow> string \<times> string" where
  "rec_id r \<equiv> (rec_Bucket r, rec_Key r)"

type_synonym 'v recs = "((string \<times> string) \<times> 'v srec) list"

record 'v db =
  db_recs :: "'v recs"
  db_sequence :: nat
  db_version :: nat  \<comment> \<open>the security version of the header, \<open>envelopeVersion\<close>\<close>
  db_managed :: bool

definition db_lookup :: "'v db \<Rightarrow> string \<Rightarrow> string \<Rightarrow> 'v srec option" where
  "db_lookup db bucket key = map_of (db_recs db) (bucket, key)"

abbreviation db_exists :: "'v db \<Rightarrow> string \<Rightarrow> string \<Rightarrow> bool" where
  "db_exists db bucket key \<equiv> db_lookup db bucket key \<noteq> None"

text \<open>The value of a record, \<open>get\<close>; a record without a value is never found under a key.\<close>

definition db_get :: "'v db \<Rightarrow> string \<Rightarrow> string \<Rightarrow> err + 'v" where
  "db_get db bucket key =
     (case db_lookup db bucket key of
        None \<Rightarrow> Inl ErrNotFound
      | Some r \<Rightarrow> (case rec_Data r of None \<Rightarrow> Inl (Errorf ''yaml'') | Some v \<Rightarrow> Inr v))"

subsection \<open>Selections\<close>

text \<open>The position of a key in a selection: the order of its record, then the key.\<close>

definition key_pos :: "(string \<times> string \<Rightarrow> 'v srec option) \<Rightarrow> string \<Rightarrow> string \<Rightarrow> string \<times> string" where
  "key_pos m b k = (case m (b, k) of None \<Rightarrow> [] | Some r \<Rightarrow> rec_Order r, k)"

text \<open>The keys of a bucket whose record satisfies the predicate, by order and then by key.\<close>

definition selected :: "'v recs \<Rightarrow> string \<Rightarrow> ('v srec \<Rightarrow> bool) \<Rightarrow> string list" where
  "selected recs bucket P =
     sort_key (key_pos (map_of recs) bucket)
       (filter (\<lambda>k. case map_of recs (bucket, k) of None \<Rightarrow> False | Some r \<Rightarrow> P r)
          (remdups (map (snd \<circ> fst) (filter (\<lambda>e. fst (fst e) = bucket) recs))))"

definition db_keys :: "'v db \<Rightarrow> string \<Rightarrow> string \<Rightarrow> string list" where
  "db_keys db bucket grp =
     selected (db_recs db) bucket (\<lambda>r. if grp = [] then True else rec_Group r = grp)"

definition db_keys_state :: "'v db \<Rightarrow> string \<Rightarrow> string \<Rightarrow> string list" where
  "db_keys_state db bucket state = selected (db_recs db) bucket (\<lambda>r. rec_State r = state)"

lemma set_selected: "k \<in> set (selected recs b P) \<longleftrightarrow> (\<exists>r. map_of recs (b, k) = Some r \<and> P r)"
proof -
  have "map_of recs (b, k) = Some r \<Longrightarrow> k \<in> (snd \<circ> fst) ` {e \<in> set recs. fst (fst e) = b}" for r
    by (auto dest!: map_of_SomeD simp: image_iff intro!: bexI)
  then show ?thesis by (auto simp: selected_def split: option.splits)
qed

lemma distinct_selected: "distinct (selected recs b P)"
  by (simp add: selected_def)

lemma sorted_selected: "sorted (map (key_pos (map_of recs) b) (selected recs b P))"
  by (simp add: selected_def)

lemma sorted_by_key_unique:
  fixes f :: "string \<Rightarrow> string \<times> string"
  assumes "inj f" "sorted (map f xs)" "sorted (map f ys)" "distinct xs" "distinct ys" "set xs = set ys"
  shows "xs = ys"
proof -
  have "map f xs = map f ys"
    using assms by (intro sorted_distinct_set_unique) (auto simp: distinct_map intro: inj_on_subset)
  with assms(1) show ?thesis by (simp add: inj_map_eq_map)
qed

lemma inj_key_pos: "inj (key_pos m b)"
  by (rule injI) (simp add: key_pos_def)

lemma selected_unique:
  assumes "sorted (map (key_pos (map_of recs) b) ks)" "distinct ks"
    and "\<And>k. k \<in> set ks \<longleftrightarrow> (\<exists>r. map_of recs (b, k) = Some r \<and> P r)"
  shows "ks = selected recs b P"
  using assms by (intro sorted_by_key_unique [OF inj_key_pos])
    (auto simp: sorted_selected distinct_selected set_selected)

lemma set_db_keys:
  "k \<in> set (db_keys db b g) \<longleftrightarrow> (\<exists>r. db_lookup db b k = Some r \<and> (g = [] \<or> rec_Group r = g))"
  by (auto simp: db_keys_def set_selected db_lookup_def)

lemma set_db_keys_state:
  "k \<in> set (db_keys_state db b s) \<longleftrightarrow> (\<exists>r. db_lookup db b k = Some r \<and> rec_State r = s)"
  by (auto simp: db_keys_state_def set_selected db_lookup_def)

subsection \<open>Transactions\<close>

definition tx_put :: "string \<Rightarrow> string \<Rightarrow> string \<Rightarrow> string \<Rightarrow> string \<Rightarrow> 'v \<Rightarrow> 'v srec" where
  "tx_put bucket key grp ord state v =
     \<lparr>rec_Bucket = bucket, rec_Key = key, rec_Group = grp, rec_Order = ord, rec_State = state,
      rec_Delete = False, rec_Data = Some v\<rparr>"

definition tx_remove :: "string \<Rightarrow> string \<Rightarrow> 'v srec" where
  "tx_remove bucket key =
     \<lparr>rec_Bucket = bucket, rec_Key = key, rec_Group = [], rec_Order = [], rec_State = [],
      rec_Delete = True, rec_Data = None\<rparr>"

definition historyBucket :: "string \<Rightarrow> bool" where
  "historyBucket bucket \<longleftrightarrow> bucket = ''events'' \<or> bucket = ''audit''"

text \<open>The checks of \<open>update\<close> before a transaction is written: identities, and history is append-only.\<close>

fun check_records :: "(string \<Rightarrow> string \<Rightarrow> bool) \<Rightarrow> (string \<times> string) list \<Rightarrow> 'v srec list \<Rightarrow> err option" where
  "check_records present seen [] = None"
| "check_records present seen (r # rs) =
     (if rec_Bucket r = [] \<or> rec_Key r = [] then Some (Errorf ''empty state record identity'')
      else if historyBucket (rec_Bucket r) then
        (if present (rec_Bucket r) (rec_Key r) \<or> rec_Delete r \<or> rec_id r \<in> set seen
         then Some (Errorf ''history records are append-only'')
         else check_records present (rec_id r # seen) rs)
      else check_records present seen rs)"

definition apply_rec :: "'v recs \<Rightarrow> 'v srec \<Rightarrow> 'v recs" where
  "apply_rec recs r = (if rec_Delete r then AList.delete (rec_id r) recs else AList.update (rec_id r) r recs)"

definition db_commit :: "'v db \<Rightarrow> 'v srec list \<Rightarrow> 'v db" where
  "db_commit db rs = db\<lparr>db_recs := foldl apply_rec (db_recs db) rs, db_sequence := db_sequence db + 1\<rparr>"

text \<open>
  A transaction body reads the committed records, may raise the security version, and returns the
  records to write, or an error. Nothing is written when it fails or when there is nothing to write.
\<close>

type_synonym ('v, 'a) body = "'v db \<Rightarrow> (err + 'v srec list \<times> 'a) \<times> 'v db"

definition db_update :: "'v db \<Rightarrow> ('v, 'a) body \<Rightarrow> (err + 'a) \<times> 'v db" where
  "db_update db f =
     (case f db of
        (Inl e, db1) \<Rightarrow> (Inl e, db1)
      | (Inr (rs, x), db1) \<Rightarrow>
          if rs = [] then (Inr x, db1)
          else (case check_records (db_exists db1) [] rs of
                  Some e \<Rightarrow> (Inl e, db1)
                | None \<Rightarrow> (Inr x, db_commit db1 rs)))"

definition ensureSecurityVersion :: "nat \<Rightarrow> 'v db \<Rightarrow> 'v db" where
  "ensureSecurityVersion required db = (if required \<le> db_version db then db else db\<lparr>db_version := required\<rparr>)"

text \<open>A body that leaves the security version alone.\<close>

definition plain :: "('v db \<Rightarrow> err + 'v srec list \<times> 'a) \<Rightarrow> ('v, 'a) body" where
  "plain f db = (f db, db)"

subsection \<open>What a transaction changes\<close>

definition put_rec :: "(string \<times> string \<Rightarrow> 'v srec option) \<Rightarrow> 'v srec \<Rightarrow> string \<times> string \<Rightarrow> 'v srec option" where
  "put_rec m r = m(rec_id r := if rec_Delete r then None else Some r)"

lemma map_of_apply_rec: "map_of (apply_rec recs r) = put_rec (map_of recs) r"
  by (auto simp: apply_rec_def put_rec_def AList.update_conv' AList.delete_conv' fun_eq_iff)

lemma map_of_apply_recs: "map_of (foldl apply_rec recs rs) = foldl put_rec (map_of recs) rs"
  by (induction rs arbitrary: recs) (simp_all add: map_of_apply_rec)

lemma db_lookup_commit: "db_lookup (db_commit db rs) b k = foldl put_rec (\<lambda>bk. db_lookup db (fst bk) (snd bk)) rs (b, k)"
  by (simp add: db_lookup_def db_commit_def map_of_apply_recs)

lemma put_rec_put [simp]:
  "put_rec m (tx_put b k g ord st v) = m((b, k) \<mapsto> tx_put b k g ord st v)"
  "put_rec m (tx_remove b k) = m((b, k) := None)"
  by (simp_all add: put_rec_def tx_put_def tx_remove_def)

lemma tx_put_sel [simp]:
  "rec_Bucket (tx_put b k g ord st v) = b" "rec_Key (tx_put b k g ord st v) = k" "rec_Group (tx_put b k g ord st v) = g"
  "rec_Order (tx_put b k g ord st v) = ord" "rec_State (tx_put b k g ord st v) = st"
  "rec_Delete (tx_put b k g ord st v) = False" "rec_Data (tx_put b k g ord st v) = Some v"
  "rec_Bucket (tx_remove b k) = b" "rec_Key (tx_remove b k) = k" "rec_Delete (tx_remove b k) = True"
  by (simp_all add: tx_put_def tx_remove_def)

lemma put_rec_other: "rec_id r \<noteq> bk \<Longrightarrow> put_rec m r bk = m bk"
  by (simp add: put_rec_def)

lemma put_recs_other: "bk \<notin> rec_id ` set rs \<Longrightarrow> foldl put_rec m rs bk = m bk"
  by (induction rs arbitrary: m) (auto simp: put_rec_def)

text \<open>The last record of a transaction for a key is what is found under it.\<close>

lemma put_recs_last:
  "foldl put_rec m rs bk =
     (case filter (\<lambda>r. rec_id r = bk) rs of [] \<Rightarrow> m bk
      | r # q \<Rightarrow> (let l = last (r # q) in if rec_Delete l then None else Some l))"
proof (induction rs rule: rev_induct)
  case (snoc r rs)
  then show ?case by (auto simp: put_rec_def Let_def split: list.splits)
qed simp

lemma put_recs_cases:
  "foldl put_rec m rs bk = Some r \<Longrightarrow> m bk = Some r \<or> r \<in> set rs \<and> rec_id r = bk \<and> \<not> rec_Delete r"
  by (induction rs rule: rev_induct) (auto simp: put_rec_def split: if_splits)

lemma db_lookup_version [simp]: "db_lookup (db\<lparr>db_version := n\<rparr>) b k = db_lookup db b k"
  by (simp add: db_lookup_def)

lemma db_lookup_ensure [simp]: "db_lookup (ensureSecurityVersion n db) b k = db_lookup db b k"
  by (simp add: ensureSecurityVersion_def)

lemma db_recs_ensure [simp]: "db_recs (ensureSecurityVersion n db) = db_recs db"
  by (simp add: ensureSecurityVersion_def)

text \<open>A failed transaction writes nothing, and history never loses or changes a record.\<close>

lemma check_records_history:
  "check_records present seen rs = None \<Longrightarrow> r \<in> set rs \<Longrightarrow> historyBucket (rec_Bucket r) \<Longrightarrow>
   \<not> present (rec_Bucket r) (rec_Key r) \<and> \<not> rec_Delete r"
  by (induction present seen rs rule: check_records.induct) (auto split: if_splits)

lemma check_records_identity:
  "check_records present seen rs = None \<Longrightarrow> r \<in> set rs \<Longrightarrow> rec_Bucket r \<noteq> [] \<and> rec_Key r \<noteq> []"
  by (induction present seen rs rule: check_records.induct) (auto split: if_splits)

lemma check_records_history_distinct:
  "check_records present seen rs = None \<Longrightarrow>
   distinct (map rec_id (filter (\<lambda>r. historyBucket (rec_Bucket r)) rs))
   \<and> set (map rec_id (filter (\<lambda>r. historyBucket (rec_Bucket r)) rs)) \<inter> set seen = {}"
  by (induction present seen rs rule: check_records.induct) (auto split: if_splits)

lemma db_update_cases:
  assumes "db_update db f = (res, db')"
  obtains (unwritten) "db' = snd (f db)"
        | (written) rs x where "fst (f db) = Inr (rs, x)" "res = Inr x" "rs \<noteq> []"
            "check_records (db_exists (snd (f db))) [] rs = None" "db' = db_commit (snd (f db)) rs"
  using assms by (cases "f db"; cases "fst (f db)") (auto simp: db_update_def split: if_splits option.splits)

lemma db_update_history:
  assumes "db_update db f = (res, db')" and "\<And>b k. db_lookup (snd (f db)) b k = db_lookup db b k"
    and "historyBucket b" and "db_lookup db b k = Some r"
  shows "db_lookup db' b k = Some r"
  using assms(1)
proof (cases rule: db_update_cases)
  case (written rs x)
  have "(b, k) \<notin> rec_id ` set rs"
    using check_records_history [OF written(4)] assms(2-4) by force
  then show ?thesis
    by (simp add: written(5) db_lookup_commit put_recs_other assms(2,4))
qed (simp add: assms)

end
