(* ===== verification/Node_Values.thy ===== *)
theory Node_Values
  imports Signedauth State_Db
begin

text \<open>
  The values the node's state holds in its buckets, the typed reads \<open>get[T]\<close>, the writes of a
  transaction, and the order of a record made from a time. A value stands for the YAML text that
  carries it; what \<open>yaml:"-"\<close> excludes from that text is dropped by the write.
\<close>

subsection \<open>Times as text\<close>

text \<open>
  The proleptic Gregorian date of a day counted from Go's zero time, 1 January of year 1, by the
  usual computation over eras of 400 years that begin in March.
\<close>

definition civil_date :: "int \<Rightarrow> int \<times> int \<times> int" where
  "civil_date days =
     (let z = days + 306; era = z div 146097; doe = z mod 146097;
          yoe = (doe - doe div 1460 + doe div 36524 - doe div 146096) div 365;
          doy = doe - (365 * yoe + yoe div 4 - yoe div 100);
          mp = (5 * doy + 2) div 153;
          d = doy - (153 * mp + 2) div 5 + 1;
          m = (if mp < 10 then mp + 3 else mp - 9)
      in (yoe + era * 400 + (if m \<le> 2 then 1 else 0), m, d))"

text \<open>\<open>order\<close>: the layout \<open>2006-01-02T15:04:05.000000000Z\<close> in UTC.\<close>

definition order_of :: "gotime \<Rightarrow> string" where
  "order_of t =
     (let secs = t div 1000000000; days = secs div 86400; s = secs mod 86400 in
      case civil_date days of (year, month, day) \<Rightarrow>
        pad_decimal 4 year @ ''-'' @ pad_decimal 2 month @ ''-'' @ pad_decimal 2 day @ ''T''
        @ pad_decimal 2 (s div 3600) @ '':'' @ pad_decimal 2 (s div 60 mod 60) @ '':'' @ pad_decimal 2 (s mod 60)
        @ ''.'' @ pad_decimal 9 (t mod 1000000000) @ ''Z'')"

text \<open>\<open>fmt.Sprintf("%0<w>d", n)\<close>; the sign takes one of the places.\<close>

definition fmt_int :: "nat \<Rightarrow> int \<Rightarrow> string" where
  "fmt_int w n = (if n < 0 then CHR ''-'' # pad_decimal (w - 1) (- n) else pad_decimal w n)"

subsection \<open>Values\<close>

record idempotency_record =
  idem_JobID :: string
  idem_RequestHash :: string

record job_authorization =
  auth_JobID :: string
  auth_Binding :: binding
  auth_Revision :: "64 word"
  auth_Envelope :: string
  auth_ExpiresAt :: gotime

record invite_record =
  invr_Invite :: pairing_invite
  invr_SecretHash :: string

record request_record =
  reqr_Request :: pairing_request
  reqr_SecretHash :: string

record configuration_record =
  conf_Revision :: string
  conf_AppliedAt :: gotime
  conf_Settings :: string

text \<open>What an audit record keeps: the resource, or the configuration before and after.\<close>

datatype snapshot =
    SnapPeer peer
  | SnapGrant transfer_grant
  | SnapConfiguration string string string "mount list" "mount list" "transfer_grant list" "transfer_grant list"

record audit_record =
  aud_Action :: string
  aud_ResourceID :: string
  aud_At :: gotime
  aud_Snapshot :: snapshot

datatype stval =
    VJob job
  | VItem job_item
  | VIdempotency idempotency_record
  | VEvent job_event
  | VAuthorization job_authorization
  | VPlan destructive_plan
  | VUpload upload_session
  | VPeer peer
  | VInvite invite_record
  | VRequest request_record
  | VGrant transfer_grant
  | VMount mount
  | VToken token_state
  | VTrash trash_item
  | VTrust managed_trust
  | VString string
  | VBool bool
  | VConfiguration configuration_record
  | VAudit audit_record

type_synonym node_db = "stval db"
type_synonym node_rec = "stval srec"
type_synonym 'a node_body = "(stval, 'a) body"

fun un_job :: "stval \<Rightarrow> job option" where "un_job (VJob x) = Some x" | "un_job _ = None"
fun un_item :: "stval \<Rightarrow> job_item option" where "un_item (VItem x) = Some x" | "un_item _ = None"
fun un_idem :: "stval \<Rightarrow> idempotency_record option" where "un_idem (VIdempotency x) = Some x" | "un_idem _ = None"
fun un_event :: "stval \<Rightarrow> job_event option" where "un_event (VEvent x) = Some x" | "un_event _ = None"
fun un_auth :: "stval \<Rightarrow> job_authorization option" where "un_auth (VAuthorization x) = Some x" | "un_auth _ = None"
fun un_plan :: "stval \<Rightarrow> destructive_plan option" where "un_plan (VPlan x) = Some x" | "un_plan _ = None"
fun un_upload :: "stval \<Rightarrow> upload_session option" where "un_upload (VUpload x) = Some x" | "un_upload _ = None"
fun un_peer :: "stval \<Rightarrow> peer option" where "un_peer (VPeer x) = Some x" | "un_peer _ = None"
fun un_invite :: "stval \<Rightarrow> invite_record option" where "un_invite (VInvite x) = Some x" | "un_invite _ = None"
fun un_request :: "stval \<Rightarrow> request_record option" where "un_request (VRequest x) = Some x" | "un_request _ = None"
fun un_grant :: "stval \<Rightarrow> transfer_grant option" where "un_grant (VGrant x) = Some x" | "un_grant _ = None"
fun un_mount :: "stval \<Rightarrow> mount option" where "un_mount (VMount x) = Some x" | "un_mount _ = None"
fun un_token :: "stval \<Rightarrow> token_state option" where "un_token (VToken x) = Some x" | "un_token _ = None"
fun un_trash :: "stval \<Rightarrow> trash_item option" where "un_trash (VTrash x) = Some x" | "un_trash _ = None"
fun un_trust :: "stval \<Rightarrow> managed_trust option" where "un_trust (VTrust x) = Some x" | "un_trust _ = None"
fun un_string :: "stval \<Rightarrow> string option" where "un_string (VString x) = Some x" | "un_string _ = None"
fun un_configuration :: "stval \<Rightarrow> configuration_record option" where
  "un_configuration (VConfiguration x) = Some x" | "un_configuration _ = None"

text \<open>\<open>get[T]\<close>: the record under the key, read as the type the caller asks for.\<close>

definition get_as :: "(stval \<Rightarrow> 'a option) \<Rightarrow> node_db \<Rightarrow> string \<Rightarrow> string \<Rightarrow> err + 'a" where
  "get_as un db bucket key =
     (case db_get db bucket key of
        Inl e \<Rightarrow> Inl e
      | Inr v \<Rightarrow> (case un v of None \<Rightarrow> Inl (Errorf ''yaml'') | Some x \<Rightarrow> Inr x))"

text \<open>The records under several keys, up to the first error.\<close>

fun get_all :: "(stval \<Rightarrow> 'a option) \<Rightarrow> node_db \<Rightarrow> string \<Rightarrow> string list \<Rightarrow> err + 'a list" where
  "get_all un db bucket [] = Inr []"
| "get_all un db bucket (k # ks) =
     (case get_as un db bucket k of
        Inl e \<Rightarrow> Inl e
      | Inr x \<Rightarrow> (case get_all un db bucket ks of Inl e \<Rightarrow> Inl e | Inr xs \<Rightarrow> Inr (x # xs)))"

text \<open>\<open>put\<close>: only a job has a state to select by, and a grant is kept without its computed fields.\<close>

fun persisted :: "stval \<Rightarrow> stval" where
  "persisted (VGrant g) = VGrant (g\<lparr>gr_ConfiguredEnabled := False, gr_InactiveReason := []\<rparr>)"
| "persisted v = v"

fun value_state :: "stval \<Rightarrow> string" where
  "value_state (VJob j) = job_State j"
| "value_state _ = []"

definition put_val :: "string \<Rightarrow> string \<Rightarrow> string \<Rightarrow> string \<Rightarrow> stval \<Rightarrow> node_rec" where
  "put_val bucket key grp ord v = tx_put bucket key grp ord (value_state v) (persisted v)"

lemma put_val_sel [simp]:
  "rec_Bucket (put_val b k g ord v) = b" "rec_Key (put_val b k g ord v) = k" "rec_Group (put_val b k g ord v) = g"
  "rec_Order (put_val b k g ord v) = ord" "rec_State (put_val b k g ord v) = value_state v"
  "rec_Delete (put_val b k g ord v) = False" "rec_Data (put_val b k g ord v) = Some (persisted v)"
  by (simp_all add: put_val_def)

lemma put_rec_val [simp]: "put_rec m (put_val b k g ord v) = m((b, k) \<mapsto> put_val b k g ord v)"
  by (simp add: put_rec_def)

lemma get_as_lookup:
  "get_as un db b k =
     (case db_lookup db b k of
        None \<Rightarrow> Inl ErrNotFound
      | Some r \<Rightarrow> (case Option.bind (rec_Data r) un of None \<Rightarrow> Inl (Errorf ''yaml'') | Some x \<Rightarrow> Inr x))"
  by (simp add: get_as_def db_get_def split: option.splits)

lemma get_as_cong: "db_lookup db b k = db_lookup db' b k \<Longrightarrow> get_as un db b k = get_as un db' b k"
  by (simp add: get_as_lookup)

lemma get_as_Inr_iff:
  "get_as un db b k = Inr x \<longleftrightarrow> (\<exists>r v. db_lookup db b k = Some r \<and> rec_Data r = Some v \<and> un v = Some x)"
  by (auto simp: get_as_lookup split: option.splits bind_splits)

lemma get_as_NotFound_iff: "get_as un db b k = Inl ErrNotFound \<longleftrightarrow> db_lookup db b k = None"
  by (simp add: get_as_lookup split: option.splits)

lemma get_as_ensure [simp]: "get_as un (ensureSecurityVersion n db) b k = get_as un db b k"
  by (rule get_as_cong) simp

lemma un_Some [simp]:
  "un_job v = Some j \<longleftrightarrow> v = VJob j" "un_item v = Some i \<longleftrightarrow> v = VItem i" "un_idem v = Some r \<longleftrightarrow> v = VIdempotency r"
  "un_event v = Some e \<longleftrightarrow> v = VEvent e" "un_auth v = Some a \<longleftrightarrow> v = VAuthorization a" "un_plan v = Some p \<longleftrightarrow> v = VPlan p"
  "un_upload v = Some u \<longleftrightarrow> v = VUpload u" "un_peer v = Some pe \<longleftrightarrow> v = VPeer pe" "un_grant v = Some g \<longleftrightarrow> v = VGrant g"
  "un_mount v = Some m \<longleftrightarrow> v = VMount m" "un_token v = Some t \<longleftrightarrow> v = VToken t" "un_invite v = Some iv \<longleftrightarrow> v = VInvite iv"
  "un_request v = Some rq \<longleftrightarrow> v = VRequest rq" "un_trash v = Some tr \<longleftrightarrow> v = VTrash tr" "un_trust v = Some mt \<longleftrightarrow> v = VTrust mt"
  "un_string v = Some s \<longleftrightarrow> v = VString s" "un_configuration v = Some c \<longleftrightarrow> v = VConfiguration c"
  by (cases v; simp)+

lemma persisted_not_grant [simp]: "persisted v = VJob j \<longleftrightarrow> v = VJob j" "persisted v = VAuthorization a \<longleftrightarrow> v = VAuthorization a"
  "persisted v = VPlan p \<longleftrightarrow> v = VPlan p" "persisted v = VIdempotency r \<longleftrightarrow> v = VIdempotency r" "persisted v = VUpload u \<longleftrightarrow> v = VUpload u"
  by (cases v; simp)+

end
