(* ===== verification/Job_Store.thy ===== *)
theory Job_Store
  imports Node_Values
begin

text \<open>
  The job records of a node (\<open>infra/state/jobs.go\<close>, \<open>job_authorizations.go\<close>, \<open>destructive_plans.go\<close>):
  each operation of \<open>Store\<close> is a transaction over the record store. An operation takes the database
  and returns its result, or an error, and the database after it; the views return a result only.
  The time of an operation is an argument.
\<close>

type_synonym 'a op = "node_db \<Rightarrow> (err + 'a) \<times> node_db"
type_synonym keyring = "string \<rightharpoonup> string"

abbreviation get_job :: "node_db \<Rightarrow> string \<Rightarrow> err + job" where
  "get_job db k \<equiv> get_as un_job db ''jobs'' k"
abbreviation get_auth :: "node_db \<Rightarrow> string \<Rightarrow> err + job_authorization" where
  "get_auth db k \<equiv> get_as un_auth db ''job_authorizations'' k"
abbreviation get_plan :: "node_db \<Rightarrow> string \<Rightarrow> err + destructive_plan" where
  "get_plan db k \<equiv> get_as un_plan db ''destructive_plans'' k"

definition put_job :: "job \<Rightarrow> node_rec" where
  "put_job j = put_val ''jobs'' (job_ID j) (job_PeerNodeID j) (order_of (job_CreatedAt j)) (VJob j)"

subsection \<open>Which jobs are secured\<close>

definition unsecured :: "job \<Rightarrow> bool" where
  "unsecured j \<longleftrightarrow> job_DestructivePlanID j = [] \<and> \<not> job_SignedAuthBound j \<and> \<not> job_RequiresSignedAuth j"

definition securedJobKind :: "job \<Rightarrow> bool" where
  "securedJobKind j \<longleftrightarrow>
     (if job_Type j \<in> {''copy_local'', ''transfer_pull_batch''} then job_DestructivePlanID j = []
      else if job_Type j \<in> {''delete'', ''move_local'', ''transfer_move_batch''} then job_DestructivePlanID j \<noteq> []
      else False)"

definition executableSecuredJob :: "job \<Rightarrow> bool" where
  "executableSecuredJob j \<longleftrightarrow> job_SignedAuthBound j \<and> securedJobKind j"

definition active_state :: "string \<Rightarrow> bool" where
  "active_state st \<longleftrightarrow> st \<in> {''running'', ''pause_requested'', ''cancel_requested''}"

definition same_security :: "job \<Rightarrow> job \<Rightarrow> bool" where
  "same_security old next \<longleftrightarrow> job_DestructivePlanID old = job_DestructivePlanID next
     \<and> job_SignedAuthBound old = job_SignedAuthBound next \<and> job_RequiresSignedAuth old = job_RequiresSignedAuth next
     \<and> job_SignedAuthActorID old = job_SignedAuthActorID next \<and> job_SignedAuthCredentialID old = job_SignedAuthCredentialID next"

definition same_operation :: "job \<Rightarrow> job \<Rightarrow> bool" where
  "same_operation old next \<longleftrightarrow> job_Type old = job_Type next \<and> job_MountID old = job_MountID next
     \<and> job_SourcePath old = job_SourcePath next \<and> job_Destination old = job_Destination next
     \<and> job_Overwrite old = job_Overwrite next \<and> job_Recursive old = job_Recursive next
     \<and> job_ConflictPolicy old = job_ConflictPolicy next \<and> job_SourceChangePolicy old = job_SourceChangePolicy next
     \<and> job_VerifyChecksum old = job_VerifyChecksum next \<and> job_BandwidthLimit old = job_BandwidthLimit next
     \<and> job_MaxParallelFiles old = job_MaxParallelFiles next \<and> job_MaxParallelChunks old = job_MaxParallelChunks next
     \<and> job_MaxAttempts old = job_MaxAttempts next \<and> job_PeerNodeID old = job_PeerNodeID next
     \<and> job_SourceGrantID old = job_SourceGrantID next \<and> job_DestinationGrantID old = job_DestinationGrantID next"

definition validSecuredJobUpdate :: "job \<Rightarrow> job \<Rightarrow> bool" where
  "validSecuredJobUpdate old next \<longleftrightarrow>
     (if \<not> same_security old next then False
      else if unsecured old then True
      else if \<not> same_operation old next then False
      else if job_State old = ''canceled'' \<and> job_State next \<noteq> ''canceled'' then False
      else if executableSecuredJob old then
        (if active_state (job_State old) then True
         else if job_State old \<in> {''completed'', ''completed_with_warnings''} then job_State next = job_State old
         else job_State next \<in> {''waiting_validation'', ''paused'', ''canceled'', ''queued''})
      else job_State next \<in> {''waiting_validation'', ''paused'', ''canceled''})"

definition jobItemsWritable :: "job \<Rightarrow> bool" where
  "jobItemsWritable j \<longleftrightarrow>
     (if unsecured j then True
      else if \<not> executableSecuredJob j then False
      else active_state (job_State j))"

subsection \<open>Leases of jobs\<close>

definition options_of :: "job \<Rightarrow> job_options" where
  "options_of j = \<lparr>jo_Overwrite = job_Overwrite j, jo_Recursive = job_Recursive j, jo_ConflictPolicy = job_ConflictPolicy j,
     jo_SourceChangePolicy = job_SourceChangePolicy j, jo_VerifyChecksum = job_VerifyChecksum j, jo_BandwidthLimit = job_BandwidthLimit j,
     jo_MaxParallelFiles = job_MaxParallelFiles j, jo_MaxParallelChunks = job_MaxParallelChunks j, jo_MaxAttempts = job_MaxAttempts j\<rparr>"

definition jobAuthorizationMatches :: "crypto \<Rightarrow> job \<Rightarrow> binding \<Rightarrow> string \<Rightarrow> bool" where
  "jobAuthorizationMatches C j b nodeID \<longleftrightarrow>
     (if job_RequiresSignedAuth j \<and> (job_SignedAuthActorID j \<noteq> b_ActorID b \<or> job_SignedAuthCredentialID j \<noteq> b_CredentialID b) then False
      else if job_RequiresSignedAuth j \<and> b_JobOptionsDigest b = []
           \<or> b_JobOptionsDigest b \<noteq> [] \<and> b_JobOptionsDigest b \<noteq> JobOptionsDigest C (options_of j) then False
      else if b_PlanID b \<noteq> job_ID j \<or> b_Operation b \<noteq> job_Type j \<or> b_RequestID b \<noteq> [] \<or> b_SourceRoot b \<noteq> job_SourcePath j then False
      else if job_Type j = ''delete'' then
        b_SourceNodeID b = nodeID \<and> b_SourceMountID b = job_MountID j \<and> b_DestinationNodeID b = []
      else if job_Type j \<in> {''copy_local'', ''move_local''} then
        b_SourceNodeID b = nodeID \<and> b_DestinationNodeID b = nodeID \<and> b_SourceMountID b = job_MountID j
        \<and> b_DestinationMountID b = job_MountID j \<and> b_DestinationRoot b = job_Destination j
      else if job_Type j \<in> {''transfer_pull'', ''transfer_pull_directory'', ''transfer_pull_batch'', ''transfer_move_batch''} then
        b_SourceNodeID b = job_PeerNodeID j \<and> b_DestinationNodeID b = nodeID \<and> b_SourceGrantID b = job_SourceGrantID j
        \<and> b_DestinationGrantID b = job_DestinationGrantID j \<and> b_DestinationMountID b = job_MountID j
        \<and> b_DestinationRoot b = job_Destination j
      else False)"

text \<open>The plan a job runs has been consumed by that job, for the actor of its lease.\<close>

definition plan_backs :: "node_db \<Rightarrow> job \<Rightarrow> string \<Rightarrow> bool" where
  "plan_backs db j actor \<longleftrightarrow>
     job_DestructivePlanID j = []
     \<or> (case get_plan db (job_DestructivePlanID j) of
          Inl _ \<Rightarrow> False
        | Inr plan \<Rightarrow> dp_ConsumedJobID plan = job_ID j \<and> dp_SubjectID plan = actor)"

definition verifiedJobLease :: "unicode_tables \<Rightarrow> crypto \<Rightarrow> node_db \<Rightarrow> job \<Rightarrow> string \<Rightarrow> keyring \<Rightarrow> gotime \<Rightarrow> err + job_authorization \<times> ft_filter" where
  "verifiedJobLease U C db j nodeID keys now =
     (case get_auth db (job_ID j) of
        Inl _ \<Rightarrow> Inl ErrInUse
      | Inr current \<Rightarrow>
          if \<not> job_SignedAuthBound j \<or> auth_JobID current \<noteq> job_ID j
             \<or> \<not> jobAuthorizationMatches C j (auth_Binding current) nodeID then Inl ErrInUse
          else if \<not> plan_backs db j (b_ActorID (auth_Binding current)) then Inl ErrInUse
          else (case VerifyJobLease U C (auth_Envelope current) keys (auth_Binding current) nodeID (auth_Revision current) now of
                  None \<Rightarrow> Inl ErrInUse
                | Some (cl, flt) \<Rightarrow>
                    if c_ExpiresAt cl \<noteq> Unix (auth_ExpiresAt current) then Inl ErrInUse else Inr (current, flt)))"

subsection \<open>Creation\<close>

definition itemKey :: "job_item \<Rightarrow> string" where
  "itemKey i = item_JobID i @ [CHR 0x00] @ item_RelativePath i"

definition put_item :: "job_item \<Rightarrow> node_rec" where
  "put_item i = put_val ''items'' (itemKey i) (item_JobID i) (fmt_int 12 (item_Ordinal i)) (VItem i)"

fun item_puts :: "string \<Rightarrow> string list \<Rightarrow> job_item list \<Rightarrow> err + node_rec list" where
  "item_puts jid seen [] = Inr []"
| "item_puts jid seen (i # its) =
     (let item = i\<lparr>item_JobID := jid\<rparr>; k = itemKey item in
      if k \<in> set seen then Inl (Errorf ''duplicate job item'')
      else (case item_puts jid (k # seen) its of Inl e \<Rightarrow> Inl e | Inr rs \<Rightarrow> Inr (put_item item # rs)))"

definition put_idempotency :: "string \<Rightarrow> string \<Rightarrow> string \<Rightarrow> node_rec" where
  "put_idempotency key jobID hash = put_val ''idempotency'' key [] [] (VIdempotency \<lparr>idem_JobID = jobID, idem_RequestHash = hash\<rparr>)"

definition create_new_job :: "job \<Rightarrow> job_item list \<Rightarrow> string \<Rightarrow> string \<Rightarrow> node_db \<Rightarrow> err + node_rec list \<times> (job \<times> bool)" where
  "create_new_job j items key hash db =
     (if db_exists db ''jobs'' (job_ID j) then Inl (Errorf ''job already exists'')
      else (case item_puts (job_ID j) [] items of
              Inl e \<Rightarrow> Inl e
            | Inr rs \<Rightarrow> Inr (put_job j # rs @ (if key \<noteq> [] then [put_idempotency key (job_ID j) hash] else []), (j, False))))"

definition CreateJobWithItemsHashed :: "job \<Rightarrow> job_item list \<Rightarrow> string \<Rightarrow> string \<Rightarrow> (job \<times> bool) op" where
  "CreateJobWithItemsHashed j items key hash db =
     (if \<not> unsecured j \<or> job_SignedAuthActorID j \<noteq> [] \<or> job_SignedAuthCredentialID j \<noteq> [] then (Inl ErrInUse, db)
      else db_update db (plain (\<lambda>db.
        if key \<noteq> [] then
          (case get_as un_idem db ''idempotency'' key of
             Inr v \<Rightarrow>
               if hash \<noteq> [] \<and> hash \<noteq> idem_RequestHash v then Inl ErrIdempotencyConflict
               else (case get_job db (idem_JobID v) of
                       Inl e \<Rightarrow> Inl e
                     | Inr stored \<Rightarrow>
                         if \<not> unsecured stored then Inl ErrIdempotencyConflict else Inr ([], (stored, True)))
           | Inl e \<Rightarrow> if e \<noteq> ErrNotFound then Inl e else create_new_job j items key hash db)
        else create_new_job j items key hash db)))"

definition CreateJob :: "job \<Rightarrow> string \<Rightarrow> (job \<times> bool) op" where
  "CreateJob j key = CreateJobWithItemsHashed j [] key []"

definition CreateJobWithItems :: "job \<Rightarrow> job_item list \<Rightarrow> string \<Rightarrow> (job \<times> bool) op" where
  "CreateJobWithItems j items key = CreateJobWithItemsHashed j items key []"

subsection \<open>Creation of secured jobs\<close>

definition planDigest :: "unicode_tables \<Rightarrow> string \<Rightarrow> bool" where
  "planDigest U v \<longleftrightarrow> length v = 64 \<and> ToLower U v = v \<and> list_all is_hex_char v"

definition put_plan :: "destructive_plan \<Rightarrow> node_rec" where
  "put_plan p = put_val ''destructive_plans'' (dp_ID p) (dp_SubjectID p) (order_of (dp_CreatedAt p)) (VPlan p)"

definition consumeMovePlan :: "node_db \<Rightarrow> move_plan_binding \<Rightarrow> string \<Rightarrow> job \<Rightarrow> string \<Rightarrow> string \<Rightarrow> err + node_rec \<times> job" where
  "consumeMovePlan db b actorID j key hash =
     (case get_plan db (mpb_PlanID b) of
        Inl _ \<Rightarrow> Inl ErrInUse
      | Inr plan \<Rightarrow>
          if dp_Operation plan \<noteq> ''transfer_move'' \<or> dp_SubjectType plan \<noteq> mpb_SubjectType b \<or> dp_SubjectID plan \<noteq> actorID
             \<or> dp_MountID plan \<noteq> job_MountID j \<or> dp_ConsumedJobID plan \<noteq> [] \<or> dp_TokenHash plan \<noteq> mpb_TokenHash b
             \<or> dp_TreeDigest plan \<noteq> mpb_Digest b \<or> \<not> mpb_Now b < dp_ExpiresAt plan \<or> mpb_Now b < dp_CreatedAt plan then Inl ErrInUse
          else Inr (put_plan (plan\<lparr>dp_ConsumedJobID := job_ID j, dp_IdempotencyKey := key, dp_RequestHash := hash\<rparr>),
                    j\<lparr>job_DestructivePlanID := dp_ID plan\<rparr>))"

definition await_authorization :: "job \<Rightarrow> string \<Rightarrow> string \<Rightarrow> job" where
  "await_authorization j actorID credentialID =
     j\<lparr>job_RequiresSignedAuth := True, job_SignedAuthActorID := actorID, job_SignedAuthCredentialID := credentialID,
       job_State := ''waiting_validation'', job_Phase := ''waiting_authorization'',
       job_Error := ''job execution requires authorization and validation'', job_NextAttemptAt := None\<rparr>"

definition create_secured_body :: "job \<Rightarrow> job_item list \<Rightarrow> string \<Rightarrow> string \<Rightarrow> string \<Rightarrow> string \<Rightarrow> move_plan_binding option \<Rightarrow> (job \<times> bool) node_body" where
  "create_secured_body j items actorID credentialID key hash plan db =
     (case get_as un_idem db ''idempotency'' key of
        Inr previous \<Rightarrow>
          (if idem_RequestHash previous \<noteq> hash then Inl ErrIdempotencyConflict
           else (case get_job db (idem_JobID previous) of
                   Inl e \<Rightarrow> Inl e
                 | Inr stored \<Rightarrow>
                     if \<not> job_RequiresSignedAuth stored \<or> job_SignedAuthActorID stored \<noteq> actorID
                        \<or> job_SignedAuthCredentialID stored \<noteq> credentialID
                        \<or> (case plan of None \<Rightarrow> False | Some b \<Rightarrow> job_DestructivePlanID stored \<noteq> mpb_PlanID b)
                     then Inl ErrIdempotencyConflict else Inr ([], (stored, True))), db)
      | Inl e \<Rightarrow>
          if e \<noteq> ErrNotFound then (Inl e, db)
          else if db_exists db ''jobs'' (job_ID j) then (Inl ErrInUse, db)
          else
            (case (case plan of None \<Rightarrow> Inr ([], j)
                   | Some b \<Rightarrow> (case consumeMovePlan db b actorID j key hash of Inl e \<Rightarrow> Inl e | Inr (r, j') \<Rightarrow> Inr ([r], j'))) of
               Inl e \<Rightarrow> Inl e
             | Inr (consumed, j1) \<Rightarrow>
                 let j2 = await_authorization j1 actorID credentialID in
                 (case item_puts (job_ID j2) [] items of
                    Inl e \<Rightarrow> Inl e
                  | Inr rs \<Rightarrow> Inr (consumed @ [put_job j2] @ rs @ [put_idempotency key (job_ID j2) hash], (j2, False))),
             ensureSecurityVersion 6 db))"

definition createJobAwaitingAuthorization :: "job \<Rightarrow> job_item list \<Rightarrow> string \<Rightarrow> string \<Rightarrow> string \<Rightarrow> string \<Rightarrow> move_plan_binding option \<Rightarrow> (job \<times> bool) op" where
  "createJobAwaitingAuthorization j items actorID credentialID key hash plan db =
     (if \<not> ValidKeyID (job_ID j) \<or> \<not> ValidKeyID (job_MountID j) \<or> \<not> ValidKeyID actorID \<or> \<not> ValidKeyID credentialID
         \<or> key = [] \<or> hash = [] \<or> job_State j \<noteq> ''queued'' \<or> \<not> unsecured j
         \<or> job_SignedAuthActorID j \<noteq> [] \<or> job_SignedAuthCredentialID j \<noteq> [] then (Inl ErrInUse, db)
      else db_update db (create_secured_body j items actorID credentialID key hash plan))"

definition CreateJobAwaitingAuthorization :: "job \<Rightarrow> string \<Rightarrow> string \<Rightarrow> string \<Rightarrow> string \<Rightarrow> (job \<times> bool) op" where
  "CreateJobAwaitingAuthorization j actorID credentialID key hash db =
     (if job_Type j \<notin> {''delete'', ''copy_local'', ''move_local''} then (Inl ErrInUse, db)
      else createJobAwaitingAuthorization j [] actorID credentialID key hash None db)"

definition CreatePlannedJobAwaitingAuthorization :: "job \<Rightarrow> job_item list \<Rightarrow> string \<Rightarrow> string \<Rightarrow> string \<Rightarrow> string \<Rightarrow> (job \<times> bool) op" where
  "CreatePlannedJobAwaitingAuthorization j items actorID credentialID key hash db =
     (if job_Type j \<noteq> ''transfer_pull_batch'' \<or> items = [] then (Inl ErrInUse, db)
      else createJobAwaitingAuthorization j items actorID credentialID key hash None db)"

definition CreatePlannedMoveAwaitingAuthorization :: "unicode_tables \<Rightarrow> job \<Rightarrow> job_item list \<Rightarrow> string \<Rightarrow> string \<Rightarrow> string \<Rightarrow> string \<Rightarrow> move_plan_binding \<Rightarrow> (job \<times> bool) op" where
  "CreatePlannedMoveAwaitingAuthorization U j items actorID credentialID key hash plan db =
     (if job_Type j \<noteq> ''transfer_move_batch'' \<or> items = [] \<or> \<not> ValidKeyID (mpb_PlanID plan) \<or> \<not> planDigest U (mpb_TokenHash plan)
         \<or> \<not> planDigest U (mpb_Digest plan) \<or> IsZero (mpb_Now plan) then (Inl ErrInUse, db)
      else createJobAwaitingAuthorization j items actorID credentialID key hash (Some plan) db)"

subsection \<open>Lookups and updates\<close>

definition FindJobByIdempotency :: "string \<Rightarrow> node_db \<Rightarrow> err + (job \<times> string) option" where
  "FindJobByIdempotency key db =
     (case get_as un_idem db ''idempotency'' key of
        Inl e \<Rightarrow> if e = ErrNotFound then Inr None else Inl e
      | Inr v \<Rightarrow> (case get_job db (idem_JobID v) of Inl e \<Rightarrow> Inl e | Inr j \<Rightarrow> Inr (Some (j, idem_RequestHash v))))"

definition updated_job :: "job \<Rightarrow> node_db \<Rightarrow> err + node_rec" where
  "updated_job j db =
     (case get_job db (job_ID j) of
        Inl e \<Rightarrow> Inl e
      | Inr old \<Rightarrow>
          if \<not> validSecuredJobUpdate old j then Inl ErrInUse
          else Inr (put_job (j\<lparr>job_CreatedAt := job_CreatedAt old\<rparr>)))"

definition UpdateJob :: "job \<Rightarrow> unit op" where
  "UpdateJob j db = db_update db (plain (\<lambda>db. case updated_job j db of Inl e \<Rightarrow> Inl e | Inr r \<Rightarrow> Inr ([r], ())))"

definition put_event :: "node_db \<Rightarrow> job_event \<Rightarrow> node_rec" where
  "put_event db ev =
     (let seq = int (db_sequence db) + 1; key = fmt_int 20 seq in
      put_val ''events'' key (evt_JobID ev) key (VEvent (ev\<lparr>evt_ID := seq\<rparr>)))"

definition UpdateJobWithEvent :: "job \<Rightarrow> job_event \<Rightarrow> unit op" where
  "UpdateJobWithEvent j ev db = db_update db (plain (\<lambda>db.
     if evt_JobID ev \<noteq> job_ID j then Inl (Errorf ''job event does not belong to job'')
     else (case updated_job j db of Inl e \<Rightarrow> Inl e | Inr r \<Rightarrow> Inr ([r, put_event db ev], ()))))"

definition GetJob :: "string \<Rightarrow> node_db \<Rightarrow> err + job" where
  "GetJob jobID db = get_job db jobID"

definition ListJobs :: "int \<Rightarrow> node_db \<Rightarrow> err + job list" where
  "ListJobs limit db =
     (let ids = rev (db_keys db ''jobs'' []) in
      get_all un_job db ''jobs'' (if limit < 0 then ids else take (nat limit) ids))"

definition ListJobsByPeer :: "string \<Rightarrow> node_db \<Rightarrow> err + job list" where
  "ListJobsByPeer peer db = get_all un_job db ''jobs'' (rev (db_keys db ''jobs'' peer))"

subsection \<open>Claims\<close>

definition not_due :: "job \<Rightarrow> gotime \<Rightarrow> bool" where
  "not_due j now \<longleftrightarrow> (case job_NextAttemptAt j of None \<Rightarrow> False | Some t \<Rightarrow> now < t)"

definition start_job :: "job \<Rightarrow> gotime \<Rightarrow> job" where
  "start_job j now =
     j\<lparr>job_State := ''running'', job_Phase := ''validation'', job_UpdatedAt := now, job_NextAttemptAt := None,
       job_Attempt := job_Attempt j + 1, job_StartedAt := (case job_StartedAt j of None \<Rightarrow> Some now | Some t \<Rightarrow> Some t)\<rparr>"

definition park_job :: "job \<Rightarrow> gotime \<Rightarrow> job" where
  "park_job j now =
     j\<lparr>job_State := ''waiting_validation'', job_Phase := ''waiting_authorization'', job_UpdatedAt := now,
       job_Error := ''job authorization expired; waiting for renewal''\<rparr>"

definition put_job_at :: "string \<Rightarrow> job \<Rightarrow> node_rec" where
  "put_job_at jobID j = put_val ''jobs'' jobID (job_PeerNodeID j) (order_of (job_CreatedAt j)) (VJob j)"

fun claim_secured :: "unicode_tables \<Rightarrow> crypto \<Rightarrow> string \<Rightarrow> keyring \<Rightarrow> gotime \<Rightarrow> node_db \<Rightarrow> string list \<Rightarrow> err + node_rec list \<times> job option" where
  "claim_secured U C nodeID keys now db [] = Inr ([], None)"
| "claim_secured U C nodeID keys now db (jobID # ids) =
     (case get_job db jobID of
        Inl e \<Rightarrow> Inl e
      | Inr j \<Rightarrow>
          if job_State j \<noteq> ''queued'' \<or> \<not> executableSecuredJob j \<or> not_due j now then claim_secured U C nodeID keys now db ids
          else (case verifiedJobLease U C db j nodeID keys now of
                  Inl _ \<Rightarrow>
                    (case claim_secured U C nodeID keys now db ids of
                       Inl e \<Rightarrow> Inl e
                     | Inr (rs, claimed) \<Rightarrow> Inr (put_job_at jobID (park_job j now) # rs, claimed))
                | Inr _ \<Rightarrow> Inr ([put_job_at jobID (start_job j now)], Some (start_job j now))))"

definition ClaimNextSecuredJob :: "unicode_tables \<Rightarrow> crypto \<Rightarrow> string \<Rightarrow> keyring \<Rightarrow> gotime \<Rightarrow> job op" where
  "ClaimNextSecuredJob U C nodeID keys now db =
     (if \<not> ValidKeyID nodeID \<or> IsZero now then (Inl ErrInUse, db)
      else (case db_update db (plain (\<lambda>db. claim_secured U C nodeID keys now db (db_keys_state db ''jobs'' ''queued''))) of
              (Inl e, db') \<Rightarrow> (Inl e, db')
            | (Inr claimed, db') \<Rightarrow>
                (case claimed of
                   None \<Rightarrow> (Inl ErrNotFound, db')
                 | Some j \<Rightarrow> if job_ID j = [] then (Inl ErrNotFound, db') else (Inr j, db'))))"

fun claim_plain :: "gotime \<Rightarrow> node_db \<Rightarrow> string list \<Rightarrow> err + node_rec list \<times> job" where
  "claim_plain now db [] = Inl ErrNotFound"
| "claim_plain now db (jobID # ids) =
     (case get_job db jobID of
        Inl e \<Rightarrow> Inl e
      | Inr j \<Rightarrow>
          if job_State j \<noteq> ''queued'' \<or> \<not> unsecured j \<or> not_due j now then claim_plain now db ids
          else Inr ([put_job_at jobID (start_job j now)], start_job j now))"

definition ClaimNextJob :: "gotime \<Rightarrow> job op" where
  "ClaimNextJob now db = db_update db (plain (\<lambda>db. claim_plain now db (db_keys_state db ''jobs'' ''queued'')))"

subsection \<open>Recovery and wake-ups\<close>

definition wake_job :: "job \<Rightarrow> gotime \<Rightarrow> bool \<Rightarrow> job" where
  "wake_job j now recovery =
     (let q = j\<lparr>job_State := ''queued'', job_Phase := ''validation'', job_Error := [], job_UpdatedAt := now, job_NextAttemptAt := None\<rparr> in
      if recovery then
        q\<lparr>job_State := ''waiting_validation'', job_Phase := ''waiting_validation'',
          job_Error := ''node restarted before the operation completed; explicit validation is required'',
          job_ETASeconds := None, job_ETAConfidence := []\<rparr>
      else q)"

fun change_scan :: "gotime \<Rightarrow> string set \<Rightarrow> (job \<Rightarrow> bool) \<Rightarrow> bool \<Rightarrow> node_db \<Rightarrow> string list \<Rightarrow> err + node_rec list \<times> job list" where
  "change_scan now states P recovery db [] = Inr ([], [])"
| "change_scan now states P recovery db (jobID # ids) =
     (if (case db_lookup db ''jobs'' jobID of None \<Rightarrow> [] | Some r \<Rightarrow> rec_State r) \<notin> states then change_scan now states P recovery db ids
      else (case get_job db jobID of
              Inl e \<Rightarrow> Inl e
            | Inr j \<Rightarrow>
                if \<not> P j
                   \<or> \<not> recovery \<and> (job_DestructivePlanID j \<noteq> []
                                \<or> (job_SignedAuthBound j \<or> job_RequiresSignedAuth j) \<and> \<not> executableSecuredJob j)
                then change_scan now states P recovery db ids
                else (case change_scan now states P recovery db ids of
                        Inl e \<Rightarrow> Inl e
                      | Inr (rs, out) \<Rightarrow>
                          Inr (put_job_at jobID (wake_job j now recovery) # rs, wake_job j now recovery # out))))"

definition changeJobs :: "gotime \<Rightarrow> string set \<Rightarrow> (job \<Rightarrow> bool) \<Rightarrow> bool \<Rightarrow> (job list) op" where
  "changeJobs now states P recovery db =
     db_update db (plain (\<lambda>db. change_scan now states P recovery db (db_keys db ''jobs'' [])))"

definition RecoverRunningJobs :: "gotime \<Rightarrow> (job list) op" where
  "RecoverRunningJobs now =
     changeJobs now {''running'', ''pause_requested'', ''cancel_requested'', ''queued'', ''waiting_peer'', ''waiting_mount''} (\<lambda>_. True) True"

definition WakeWaitingPeerJobs :: "string \<Rightarrow> gotime \<Rightarrow> (job list) op" where
  "WakeWaitingPeerJobs peer now = changeJobs now {''waiting_peer''} (\<lambda>j. job_PeerNodeID j = peer) False"

definition WakeWaitingMountJobs :: "string \<Rightarrow> gotime \<Rightarrow> (job list) op" where
  "WakeWaitingMountJobs mountID now = changeJobs now {''waiting_mount''} (\<lambda>j. job_MountID j = mountID) False"

subsection \<open>Items and events\<close>

definition ReplaceJobItems :: "string \<Rightarrow> job_item list \<Rightarrow> unit op" where
  "ReplaceJobItems jobID items db = db_update db (plain (\<lambda>db.
     case get_job db jobID of
       Inl e \<Rightarrow> Inl e
     | Inr j \<Rightarrow>
         if \<not> jobItemsWritable j then Inl ErrInUse
         else (case item_puts jobID [] items of
                 Inl e \<Rightarrow> Inl e
               | Inr rs \<Rightarrow> Inr (map (tx_remove ''items'') (db_keys db ''items'' jobID) @ rs, ()))))"

definition ListJobItems :: "string \<Rightarrow> node_db \<Rightarrow> err + job_item list" where
  "ListJobItems jobID db = get_all un_item db ''items'' (db_keys db ''items'' jobID)"

definition UpdateJobItem :: "job_item \<Rightarrow> unit op" where
  "UpdateJobItem item db = db_update db (plain (\<lambda>db.
     case get_job db (item_JobID item) of
       Inl e \<Rightarrow> Inl e
     | Inr j \<Rightarrow>
         if \<not> jobItemsWritable j then Inl ErrInUse
         else if \<not> db_exists db ''items'' (itemKey item) then Inl ErrNotFound
         else Inr ([put_item item], ())))"

definition RecordJobEvent :: "job_event \<Rightarrow> job_event op" where
  "RecordJobEvent ev db = db_update db (plain (\<lambda>db.
     if \<not> db_exists db ''jobs'' (evt_JobID ev) then Inl ErrNotFound
     else Inr ([put_event db ev], ev\<lparr>evt_ID := int (db_sequence db) + 1\<rparr>)))"

definition ListJobEvents :: "int \<Rightarrow> string \<Rightarrow> int \<Rightarrow> node_db \<Rightarrow> err + job_event list" where
  "ListJobEvents after jobID limit db =
     (let limit = (if limit \<le> 0 \<or> 500 < limit then 100 else limit);
          ids = db_keys db ''events'' jobID;
          start = Search (length ids) (\<lambda>i. fmt_int 20 after < ids ! i)
      in get_all un_event db ''events'' (take (nat limit) (drop start ids)))"

definition record_order :: "node_db \<Rightarrow> string \<Rightarrow> string \<Rightarrow> string" where
  "record_order db bucket key = (case db_lookup db bucket key of None \<Rightarrow> [] | Some r \<Rightarrow> rec_Order r)"

text \<open>\<open>fmt.Sscanf(order, "%d", &next)\<close> on the order of an item.\<close>

definition scan_int :: "string \<Rightarrow> err + int" where
  "scan_int s =
     (case (case s of c # r \<Rightarrow> if c = CHR ''-'' then map_option uminus (digits_value 0 r) else digits_value 0 s | [] \<Rightarrow> None) of
        None \<Rightarrow> Inl (Errorf ''expected integer'')
      | Some n \<Rightarrow> Inr n)"

definition ListJobItemsPage :: "string \<Rightarrow> int \<Rightarrow> int \<Rightarrow> node_db \<Rightarrow> err + job_item list \<times> int" where
  "ListJobItemsPage jobID after limit db =
     (if \<not> db_exists db ''jobs'' jobID then Inl ErrNotFound
      else
        let limit = nat (if limit \<le> 0 \<or> 500 < limit then 200 else limit);
            ids = db_keys db ''items'' jobID;
            start = Search (length ids) (\<lambda>i. fmt_int 12 (max after 0) \<le> record_order db ''items'' (ids ! i));
            page = drop start ids
        in case get_all un_item db ''items'' (take limit page) of
             Inl e \<Rightarrow> Inl e
           | Inr out \<Rightarrow>
               (case drop limit page of
                  [] \<Rightarrow> Inr (out, 0)
                | key # _ \<Rightarrow> (case scan_int (record_order db ''items'' key) of Inl e \<Rightarrow> Inl e | Inr next \<Rightarrow> Inr (out, next))))"

text \<open>How many jobs are in each state; a state without jobs is not in the map.\<close>

definition JobSummary :: "node_db \<Rightarrow> string \<Rightarrow> nat option" where
  "JobSummary db st =
     (case length (db_keys_state db ''jobs'' st) of 0 \<Rightarrow> None | Suc n \<Rightarrow> Some (Suc n))"

end
