(* ===== verification/Plan_Store.thy ===== *)
theory Plan_Store
  imports Job_Store
begin

text \<open>
  Destructive plans and job authorizations (\<open>infra/state/destructive_plans.go\<close>,
  \<open>job_authorizations.go\<close>, \<open>job_authorization_guard.go\<close>): a confirmed plan is consumed once, by one
  job; the lease of a job is renewed revision by revision; a guard watches the lease of a running job.
\<close>

subsection \<open>Plans\<close>

definition planPath :: "string \<Rightarrow> bool" where
  "planPath v \<longleftrightarrow> v \<noteq> [] \<and> length v \<le> 2048 \<and> valid_utf8 v \<and> TrimSpace v = v
     \<and> \<not> list_ex (\<lambda>c. c = bslash \<or> c = CHR 0x00) v \<and> hd v \<noteq> slash \<and> v \<noteq> ''.'' \<and> v \<noteq> ''..''
     \<and> \<not> prefix ''../'' v \<and> Clean v = v"

definition destructiveIdempotencyKey :: "crypto \<Rightarrow> string \<Rightarrow> string \<Rightarrow> string \<Rightarrow> string" where
  "destructiveIdempotencyKey C subjectType subjectID key =
     hex_encode (sha256 C (subjectType @ [CHR 0x00] @ subjectID @ [CHR 0x00] @ key))"

definition plan_lifetime :: gotime where
  "plan_lifetime = 5 * 60 * 1000000000"

definition dated_plan :: "destructive_plan \<Rightarrow> gotime \<Rightarrow> destructive_plan" where
  "dated_plan p now = p\<lparr>dp_CreatedAt := now, dp_ExpiresAt := now + plan_lifetime\<rparr>"

definition record_plan :: "destructive_plan \<Rightarrow> unit op" where
  "record_plan p db = db_update db (\<lambda>db.
     if db_exists db ''destructive_plans'' (dp_ID p) then (Inl ErrInUse, db)
     else (Inr ([put_plan p], ()), ensureSecurityVersion 4 db))"

definition plan_header_ok :: "unicode_tables \<Rightarrow> destructive_plan \<Rightarrow> gotime \<Rightarrow> bool" where
  "plan_header_ok U p now \<longleftrightarrow> ValidKeyID (dp_ID p) \<and> ValidKeyID (dp_SubjectID p) \<and> ValidKeyID (dp_MountID p)
     \<and> dp_SubjectType p \<in> {''user'', ''service_account''} \<and> planDigest U (dp_TokenHash p) \<and> planDigest U (dp_TreeDigest p)
     \<and> \<not> IsZero now \<and> dp_ConsumedJobID p = [] \<and> dp_IdempotencyKey p = [] \<and> dp_RequestHash p = []"

definition CreateDestructivePlan :: "unicode_tables \<Rightarrow> destructive_plan \<Rightarrow> gotime \<Rightarrow> unit op" where
  "CreateDestructivePlan U p now db =
     (if \<not> plan_header_ok U p now \<or> \<not> planPath (dp_Source p) then (Inl (Errorf ''invalid destructive plan''), db)
      else if dp_Operation p = ''delete'' then
        (if dp_Destination p \<noteq> [] \<or> dp_Overwrite p \<or> dp_DestinationExists p \<or> dp_DestinationDigest p \<noteq> []
         then (Inl (Errorf ''invalid delete plan''), db)
         else record_plan (dated_plan p now) db)
      else if dp_Operation p = ''move'' then
        (if \<not> planPath (dp_Destination p) \<or> dp_Destination p = dp_Source p \<or> prefix (dp_Source p @ [slash]) (dp_Destination p)
            \<or> dp_DestinationExists p \<and> (\<not> dp_Overwrite p \<or> \<not> planDigest U (dp_DestinationDigest p))
            \<or> \<not> dp_DestinationExists p \<and> dp_DestinationDigest p \<noteq> []
         then (Inl (Errorf ''invalid move plan''), db)
         else record_plan (dated_plan p now) db)
      else (Inl (Errorf ''invalid destructive operation''), db))"

definition CreateTransferMovePlan :: "unicode_tables \<Rightarrow> destructive_plan \<Rightarrow> gotime \<Rightarrow> unit op" where
  "CreateTransferMovePlan U p now db =
     (if \<not> plan_header_ok U p now \<or> dp_Operation p \<noteq> ''transfer_move'' \<or> dp_Source p \<noteq> [] \<or> dp_Destination p \<noteq> []
         \<or> dp_Overwrite p \<or> dp_DestinationExists p \<or> dp_DestinationDigest p \<noteq> []
      then (Inl (Errorf ''invalid transfer move plan''), db)
      else record_plan (dated_plan p now) db)"

definition GetDestructivePlan :: "unicode_tables \<Rightarrow> string \<Rightarrow> string \<Rightarrow> string \<Rightarrow> string \<Rightarrow> gotime \<Rightarrow> node_db \<Rightarrow> err + destructive_plan" where
  "GetDestructivePlan U planID subjectType subjectID tokenHash now db =
     (if \<not> ValidKeyID planID \<or> \<not> ValidKeyID subjectID \<or> \<not> planDigest U tokenHash \<or> IsZero now then Inl ErrInUse
      else (case get_plan db planID of
              Inl e \<Rightarrow> Inl e
            | Inr p \<Rightarrow>
                if dp_SubjectType p \<noteq> subjectType \<or> dp_SubjectID p \<noteq> subjectID \<or> dp_TokenHash p \<noteq> tokenHash
                   \<or> dp_ConsumedJobID p = [] \<and> (\<not> now < dp_ExpiresAt p \<or> now < dp_CreatedAt p) then Inl ErrInUse
                else Inr p))"

text \<open>At most 1000 plans are removed in one transaction.\<close>

fun purge_scan :: "gotime \<Rightarrow> node_db \<Rightarrow> nat \<Rightarrow> string list \<Rightarrow> err + node_rec list" where
  "purge_scan now db removed [] = Inr []"
| "purge_scan now db removed (planID # ids) =
     (if removed = 1000 then Inr []
      else (case get_plan db planID of
              Inl e \<Rightarrow> Inl e
            | Inr p \<Rightarrow>
                if dp_ConsumedJobID p = [] \<and> \<not> now < dp_ExpiresAt p then
                  (case purge_scan now db (removed + 1) ids of
                     Inl e \<Rightarrow> Inl e
                   | Inr rs \<Rightarrow> Inr (tx_remove ''destructive_plans'' planID # rs))
                else purge_scan now db removed ids))"

definition PurgeExpiredDestructivePlans :: "gotime \<Rightarrow> nat op" where
  "PurgeExpiredDestructivePlans now db =
     (if IsZero now then (Inl ErrInUse, db)
      else db_update db (plain (\<lambda>db.
        case purge_scan now db 0 (db_keys db ''destructive_plans'' []) of
          Inl e \<Rightarrow> Inl e
        | Inr rs \<Rightarrow> Inr (rs, length rs))))"

definition accepted_job :: "job \<Rightarrow> destructive_plan \<Rightarrow> job" where
  "accepted_job j p =
     j\<lparr>job_DestructivePlanID := dp_ID p, job_State := ''waiting_validation'', job_Phase := ''waiting_authorization'',
       job_Error := ''destructive plan execution requires authorization''\<rparr>"

text \<open>A request that is not for the plan, and a plan or job that can no longer be accepted.\<close>

definition plan_mismatch :: "destructive_plan \<Rightarrow> string \<Rightarrow> string \<Rightarrow> string \<Rightarrow> job \<Rightarrow> bool" where
  "plan_mismatch p subjectType subjectID tokenHash j \<longleftrightarrow>
     dp_SubjectType p \<noteq> subjectType \<or> dp_SubjectID p \<noteq> subjectID \<or> dp_TokenHash p \<noteq> tokenHash
     \<or> job_MountID j \<noteq> dp_MountID p \<or> job_SourcePath j \<noteq> dp_Source p \<or> job_Destination j \<noteq> dp_Destination p
     \<or> job_Overwrite j \<noteq> dp_Overwrite p
     \<or> dp_Operation p = ''delete'' \<and> (job_Type j \<noteq> ''delete'' \<or> \<not> job_Recursive j)
     \<or> dp_Operation p = ''move'' \<and> job_Type j \<noteq> ''move_local''"

definition plan_stale :: "destructive_plan \<Rightarrow> string \<Rightarrow> bool \<Rightarrow> string \<Rightarrow> job \<Rightarrow> gotime \<Rightarrow> bool" where
  "plan_stale p treeDigest destinationExists destinationDigest j now \<longleftrightarrow>
     \<not> now < dp_ExpiresAt p \<or> now < dp_CreatedAt p \<or> dp_TreeDigest p \<noteq> treeDigest
     \<or> dp_DestinationExists p \<noteq> destinationExists \<or> dp_DestinationDigest p \<noteq> destinationDigest
     \<or> \<not> ValidKeyID (job_ID j) \<or> job_State j \<noteq> ''queued'' \<or> \<not> unsecured j
     \<or> job_SignedAuthActorID j \<noteq> [] \<or> job_SignedAuthCredentialID j \<noteq> []"

definition accept_body :: "crypto \<Rightarrow> string \<Rightarrow> string \<Rightarrow> string \<Rightarrow> string \<Rightarrow> string \<Rightarrow> bool \<Rightarrow> string
    \<Rightarrow> job \<Rightarrow> string \<Rightarrow> string \<Rightarrow> gotime \<Rightarrow> node_db \<Rightarrow> err + node_rec list \<times> (job \<times> bool)" where
  "accept_body C planID subjectType subjectID tokenHash treeDigest destinationExists destinationDigest j idempotencyKey requestHash now db =
     (case get_plan db planID of
        Inl e \<Rightarrow> Inl e
      | Inr p \<Rightarrow>
          if plan_mismatch p subjectType subjectID tokenHash j then Inl ErrInUse
          else if dp_ConsumedJobID p \<noteq> [] then
            (if dp_IdempotencyKey p \<noteq> idempotencyKey \<or> dp_RequestHash p \<noteq> requestHash then Inl ErrInUse
             else (case get_job db (dp_ConsumedJobID p) of Inl e \<Rightarrow> Inl e | Inr stored \<Rightarrow> Inr ([], (stored, True))))
          else if plan_stale p treeDigest destinationExists destinationDigest j now then Inl ErrInUse
          else if db_exists db ''jobs'' (job_ID j) then Inl ErrInUse
          else
            let key = destructiveIdempotencyKey C subjectType subjectID idempotencyKey in
            (case get_as un_idem db ''destructive_idempotency'' key of
               Inr _ \<Rightarrow> Inl ErrIdempotencyConflict
             | Inl e \<Rightarrow>
                 if e \<noteq> ErrNotFound then Inl e
                 else Inr ([put_plan (p\<lparr>dp_ConsumedJobID := job_ID j, dp_IdempotencyKey := idempotencyKey, dp_RequestHash := requestHash\<rparr>),
                            put_job (accepted_job j p),
                            put_val ''destructive_idempotency'' key [] [] (VIdempotency \<lparr>idem_JobID = job_ID j, idem_RequestHash = requestHash\<rparr>)],
                           (accepted_job j p, False))))"

definition AcceptDestructivePlan :: "unicode_tables \<Rightarrow> crypto \<Rightarrow> string \<Rightarrow> string \<Rightarrow> string \<Rightarrow> string \<Rightarrow> string \<Rightarrow> bool \<Rightarrow> string
    \<Rightarrow> job \<Rightarrow> string \<Rightarrow> string \<Rightarrow> gotime \<Rightarrow> (job \<times> bool) op" where
  "AcceptDestructivePlan U C planID subjectType subjectID tokenHash treeDigest destinationExists destinationDigest j idempotencyKey requestHash now db =
     (if \<not> ValidKeyID planID \<or> \<not> ValidKeyID subjectID \<or> \<not> planDigest U tokenHash \<or> \<not> planDigest U treeDigest
         \<or> idempotencyKey = [] \<or> 256 < length idempotencyKey \<or> \<not> planDigest U requestHash \<or> IsZero now then (Inl ErrInUse, db)
      else db_update db (plain
        (accept_body C planID subjectType subjectID tokenHash treeDigest destinationExists destinationDigest j idempotencyKey requestHash now)))"

subsection \<open>Authorizations\<close>

definition JobAuthorizationStatus :: "crypto \<Rightarrow> string \<Rightarrow> node_db \<Rightarrow> err + (64 word \<times> gotime \<times> string) option" where
  "JobAuthorizationStatus C jobID db =
     (case get_job db jobID of
        Inl e \<Rightarrow> Inl e
      | Inr j \<Rightarrow>
          (case get_auth db jobID of
             Inl e \<Rightarrow> if e = ErrNotFound \<and> \<not> job_SignedAuthBound j then Inr None else Inl ErrInUse
           | Inr a \<Rightarrow>
               if \<not> job_SignedAuthBound j \<or> auth_JobID a \<noteq> job_ID j \<or> auth_Revision a = 0 \<or> IsZero (auth_ExpiresAt a)
                  \<or> auth_Envelope a = [] then Inl ErrInUse
               else Inr (Some (auth_Revision a, auth_ExpiresAt a, b64_encode (sha256 C (auth_Envelope a))))))"

definition put_auth :: "job_authorization \<Rightarrow> gotime \<Rightarrow> node_rec" where
  "put_auth a now = put_val ''job_authorizations'' (auth_JobID a) [] (order_of now) (VAuthorization a)"

definition renewed_job :: "job \<Rightarrow> gotime \<Rightarrow> job" where
  "renewed_job j now =
     (let b = j\<lparr>job_SignedAuthBound := True, job_UpdatedAt := now\<rparr>;
          autoResume = securedJobKind j \<and> (job_State j = ''queued'' \<or> job_State j = ''waiting_validation'' \<and> job_Phase j = ''waiting_authorization'') in
      if job_State j = ''paused'' then b
      else if autoResume then b\<lparr>job_State := ''queued'', job_Phase := ''validation'', job_Error := []\<rparr>
      else b\<lparr>job_State := ''waiting_validation'', job_Phase := ''waiting_validation'',
             job_Error := ''job execution requires authorization renewal and validation'', job_NextAttemptAt := None\<rparr>)"

definition renewable :: "job \<Rightarrow> bool" where
  "renewable j \<longleftrightarrow> job_State j \<in> {''queued'', ''waiting_validation'', ''paused'', ''interrupted''}
     \<or> job_State j = ''running'' \<and> executableSecuredJob j"

text \<open>What a renewal does with the lease recorded before: repeat it, follow it, or start at revision one.\<close>

datatype renewal = Repeat job_authorization | Next "64 word"

definition renewal_of :: "unicode_tables \<Rightarrow> crypto \<Rightarrow> node_db \<Rightarrow> job \<Rightarrow> string \<Rightarrow> string \<Rightarrow> binding \<Rightarrow> keyring \<Rightarrow> gotime \<Rightarrow> err + renewal" where
  "renewal_of U C db j nodeID envelope expected keys now =
     (case get_auth db (job_ID j) of
        Inr old \<Rightarrow>
          if \<not> job_SignedAuthBound j \<or> auth_JobID old \<noteq> job_ID j \<or> auth_Revision old = - 1 \<or> auth_Binding old \<noteq> expected then Inl ErrInUse
          else if auth_Envelope old = envelope then
            (case VerifyJobLease U C envelope keys expected nodeID (auth_Revision old) now of
               None \<Rightarrow> Inl ErrInUse
             | Some (cl, _) \<Rightarrow> if c_ExpiresAt cl \<noteq> Unix (auth_ExpiresAt old) then Inl ErrInUse else Inr (Repeat old))
          else Inr (Next (auth_Revision old + 1))
      | Inl e \<Rightarrow> if e \<noteq> ErrNotFound \<or> job_SignedAuthBound j then Inl ErrInUse else Inr (Next 1))"

definition renew_body :: "unicode_tables \<Rightarrow> crypto \<Rightarrow> string \<Rightarrow> string \<Rightarrow> string \<Rightarrow> binding \<Rightarrow> keyring \<Rightarrow> gotime \<Rightarrow> job_authorization node_body" where
  "renew_body U C jobID nodeID envelope expected keys now db =
     (case get_job db jobID of
        Inl e \<Rightarrow> (Inl e, db)
      | Inr j \<Rightarrow>
          if \<not> renewable j \<or> \<not> jobAuthorizationMatches C j expected nodeID \<or> \<not> plan_backs db j (b_ActorID expected) then (Inl ErrInUse, db)
          else (case renewal_of U C db j nodeID envelope expected keys now of
                  Inl e \<Rightarrow> (Inl e, db)
                | Inr (Repeat old) \<Rightarrow> (Inr ([], old), db)
                | Inr (Next revision) \<Rightarrow>
                    (case VerifyJobLease U C envelope keys expected nodeID revision now of
                       None \<Rightarrow> (Inl ErrInUse, db)
                     | Some (cl, _) \<Rightarrow>
                         let a = \<lparr>auth_JobID = job_ID j, auth_Binding = expected, auth_Revision = revision,
                                  auth_Envelope = envelope, auth_ExpiresAt = of_Unix (c_ExpiresAt cl)\<rparr> in
                         (Inr (if job_State j = ''running'' then [put_auth a now] else [put_auth a now, put_job (renewed_job j now)], a),
                          ensureSecurityVersion 5 db))))"

definition RenewJobAuthorization :: "unicode_tables \<Rightarrow> crypto \<Rightarrow> string \<Rightarrow> string \<Rightarrow> string \<Rightarrow> binding \<Rightarrow> keyring \<Rightarrow> gotime \<Rightarrow> job_authorization op" where
  "RenewJobAuthorization U C jobID nodeID envelope expected keys now db =
     (if \<not> ValidKeyID jobID \<or> \<not> ValidKeyID nodeID \<or> IsZero now \<or> envelope = [] then (Inl ErrInUse, db)
      else db_update db (renew_body U C jobID nodeID envelope expected keys now))"

definition RegisterSignedJobAuthorization :: "unicode_tables \<Rightarrow> crypto \<Rightarrow> string \<Rightarrow> string \<Rightarrow> string \<Rightarrow> keyring \<Rightarrow> gotime \<Rightarrow> (64 word \<times> gotime) op" where
  "RegisterSignedJobAuthorization U C jobID nodeID envelope keys now db =
     (case VerifiedJobLeaseBinding U C envelope keys nodeID now of
        None \<Rightarrow> (Inl ErrInUse, db)
      | Some b \<Rightarrow>
          if b_PlanID b \<noteq> jobID then (Inl ErrInUse, db)
          else (case RenewJobAuthorization U C jobID nodeID envelope b keys now db of
                  (Inl e, db') \<Rightarrow> (Inl e, db')
                | (Inr a, db') \<Rightarrow> (Inr (auth_Revision a, auth_ExpiresAt a), db')))"

definition GetJobAuthorization :: "string \<Rightarrow> node_db \<Rightarrow> err + job_authorization" where
  "GetJobAuthorization jobID db = get_auth db jobID"

definition JobAuthorizationBinding :: "string \<Rightarrow> node_db \<Rightarrow> err + binding" where
  "JobAuthorizationBinding jobID db =
     (case GetJobAuthorization jobID db of Inl e \<Rightarrow> Inl e | Inr a \<Rightarrow> Inr (auth_Binding a))"

definition ValidateJobAuthorization :: "unicode_tables \<Rightarrow> crypto \<Rightarrow> string \<Rightarrow> string \<Rightarrow> keyring \<Rightarrow> gotime \<Rightarrow> node_db \<Rightarrow> err + job_authorization \<times> ft_filter" where
  "ValidateJobAuthorization U C jobID nodeID keys now db =
     (if \<not> ValidKeyID jobID \<or> \<not> ValidKeyID nodeID \<or> IsZero now then Inl ErrInUse
      else (case get_job db jobID of
              Inl e \<Rightarrow> Inl e
            | Inr j \<Rightarrow>
                if job_State j \<notin> {''queued'', ''running'', ''waiting_validation''} then Inl ErrInUse
                else verifiedJobLease U C db j nodeID keys now))"

definition DestructivePlanForJob :: "string \<Rightarrow> node_db \<Rightarrow> err + destructive_plan" where
  "DestructivePlanForJob jobID db =
     (if \<not> ValidKeyID jobID then Inl ErrInUse
      else (case get_job db jobID of
              Inl e \<Rightarrow> Inl e
            | Inr j \<Rightarrow>
                if job_DestructivePlanID j = [] then Inl ErrInUse
                else (case get_plan db (job_DestructivePlanID j) of
                        Inl e \<Rightarrow> Inl e
                      | Inr p \<Rightarrow>
                          if dp_ConsumedJobID p \<noteq> job_ID j \<or> dp_MountID p \<noteq> job_MountID j \<or> dp_Source p \<noteq> job_SourcePath j
                             \<or> dp_Destination p \<noteq> job_Destination j \<or> dp_Overwrite p \<noteq> job_Overwrite j then Inl ErrInUse
                          else Inr p)))"

subsection \<open>The guard of a running job\<close>

text \<open>
  The guard holds the lease it last saw and the policy text of the first one. At a tick of its ticker
  or timer it looks at the state again: it goes on with the same or a newer lease of the same policy, or
  it cancels the job's context with a cause.
\<close>

record guard =
  g_current :: job_authorization
  g_policy :: string

definition guard_start :: "unicode_tables \<Rightarrow> crypto \<Rightarrow> string \<Rightarrow> string \<Rightarrow> keyring \<Rightarrow> gotime \<Rightarrow> gotime \<Rightarrow> node_db \<Rightarrow> err + guard \<times> ft_filter" where
  "guard_start U C jobID nodeID keys interval now db =
     (if interval \<le> 0 \<or> 1000000000 < interval then Inl ErrJobAuthorizationUnavailable
      else (case ValidateJobAuthorization U C jobID nodeID keys now db of
              Inl _ \<Rightarrow> Inl ErrJobAuthorizationUnavailable
            | Inr (a, flt) \<Rightarrow>
                (case VerifyJobLease U C (auth_Envelope a) keys (auth_Binding a) nodeID (auth_Revision a) now of
                   None \<Rightarrow> Inl ErrJobAuthorizationUnavailable
                 | Some (cl, _) \<Rightarrow> Inr (\<lparr>g_current = a, g_policy = c_Context cl\<rparr>, flt))))"

definition guard_tick :: "unicode_tables \<Rightarrow> crypto \<Rightarrow> string \<Rightarrow> string \<Rightarrow> keyring \<Rightarrow> gotime \<Rightarrow> node_db \<Rightarrow> guard \<Rightarrow> err + guard" where
  "guard_tick U C jobID nodeID keys now db g =
     (let cur = g_current g in
      case ValidateJobAuthorization U C jobID nodeID keys now db of
        Inl _ \<Rightarrow> Inl ErrJobAuthorizationUnavailable
      | Inr (next, _) \<Rightarrow>
          if auth_Revision next < auth_Revision cur \<or> auth_Binding next \<noteq> auth_Binding cur
             \<or> auth_Revision next = auth_Revision cur \<and> auth_Envelope next \<noteq> auth_Envelope cur then Inl ErrJobAuthorizationUnavailable
          else if auth_Revision next \<noteq> auth_Revision cur then
            (case VerifyJobLease U C (auth_Envelope next) keys (auth_Binding next) nodeID (auth_Revision next) now of
               None \<Rightarrow> Inl ErrJobAuthorizationUnavailable
             | Some (cl, _) \<Rightarrow>
                 if g_policy g \<noteq> c_Context cl then Inl ErrJobAuthorizationChanged else Inr (g\<lparr>g_current := next\<rparr>))
          else if \<not> now < auth_ExpiresAt cur then Inl ErrJobAuthorizationUnavailable
          else Inr g)"

end
