(* ===== verification/Upload_Store.thy ===== *)
theory Upload_Store
  imports Plan_Store
begin

text \<open>
  Upload sessions, the trash of the mounts, the operational token and the managed trust of a node
  (\<open>infra/state/uploads.go\<close>, \<open>trash.go\<close>, \<open>tokens.go\<close>, \<open>managed_trust.go\<close>).
\<close>

subsection \<open>Upload sessions\<close>

abbreviation get_upload :: "node_db \<Rightarrow> string \<Rightarrow> err + upload_session" where
  "get_upload db k \<equiv> get_as un_upload db ''uploads'' k"

definition put_upload :: "string \<Rightarrow> upload_session \<Rightarrow> node_rec" where
  "put_upload key v = put_val ''uploads'' key (up_MountID v) (order_of (up_CreatedAt v)) (VUpload v)"

fun upload_conflict :: "upload_session \<Rightarrow> node_db \<Rightarrow> string list \<Rightarrow> err option" where
  "upload_conflict v db [] = None"
| "upload_conflict v db (k # ks) =
     (case get_upload db k of
        Inl e \<Rightarrow> Some e
      | Inr other \<Rightarrow>
          if up_Destination other = up_Destination v \<and> up_State other \<noteq> ''completed'' then Some ErrUploadSessionExists
          else upload_conflict v db ks)"

definition CreateUploadSession :: "upload_session \<Rightarrow> unit op" where
  "CreateUploadSession v db =
     (if up_AuthorizationRevision v \<noteq> 0 then (Inl (Errorf ''invalid initial upload authorization revision''), db)
      else if (up_AuthorizationActorID v \<noteq> [] \<or> up_AuthorizationCredentialID v \<noteq> [])
              \<and> (\<not> ValidKeyID (up_AuthorizationActorID v) \<or> \<not> ValidKeyID (up_AuthorizationCredentialID v))
      then (Inl (Errorf ''invalid upload authorization identity''), db)
      else db_update db (\<lambda>db.
        if db_exists db ''uploads'' (up_ID v) then (Inl ErrUploadSessionExists, db)
        else (case upload_conflict v db (db_keys db ''uploads'' (up_MountID v)) of
                Some e \<Rightarrow> (Inl e, db)
              | None \<Rightarrow>
                  (Inr ([put_upload (up_ID v) v], ()),
                   if up_AuthorizationActorID v \<noteq> [] then ensureSecurityVersion 2 db else db))))"

definition ReauthorizeUploadSession :: "crypto \<Rightarrow> string \<Rightarrow> string \<Rightarrow> string \<Rightarrow> string \<Rightarrow> unit op" where
  "ReauthorizeUploadSession C sessionID actorID credentialID expectedRequestID db =
     (if \<not> ValidKeyID actorID \<or> \<not> ValidKeyID credentialID then (Inl (Errorf ''invalid upload authorization identity''), db)
      else db_update db (\<lambda>db.
        case get_upload db sessionID of
          Inl e \<Rightarrow> (Inl e, db)
        | Inr v \<Rightarrow>
            if (up_AuthorizationActorID v = []) \<noteq> (up_AuthorizationCredentialID v = [])
               \<or> up_AuthorizationActorID v \<noteq> [] \<and> up_AuthorizationActorID v \<noteq> actorID
               \<or> up_AuthorizationRevision v = - 1
               \<or> UploadReauthorizationRequestID C sessionID (up_AuthorizationCredentialID v) (up_AuthorizationRevision v) \<noteq> expectedRequestID
            then (Inl ErrInUse, db)
            else (Inr ([put_upload sessionID (v\<lparr>up_AuthorizationActorID := actorID, up_AuthorizationCredentialID := credentialID,
                          up_AuthorizationRevision := up_AuthorizationRevision v + 1\<rparr>)], ()),
                  ensureSecurityVersion 3 db)))"

definition GetUploadSession :: "string \<Rightarrow> node_db \<Rightarrow> err + upload_session" where
  "GetUploadSession sessionID db = get_upload db sessionID"

definition ListUploadSessions :: "string \<Rightarrow> node_db \<Rightarrow> err + upload_session list" where
  "ListUploadSessions mountID db =
     (case get_all un_upload db ''uploads'' (rev (db_keys db ''uploads'' mountID)) of
        Inl e \<Rightarrow> Inl e
      | Inr vs \<Rightarrow> Inr (filter (\<lambda>v. up_State v \<noteq> ''completed'') vs))"

definition TouchUploadSession :: "string \<Rightarrow> gotime \<Rightarrow> gotime \<Rightarrow> unit op" where
  "TouchUploadSession sessionID now expires db = db_update db (plain (\<lambda>db.
     case get_upload db sessionID of
       Inl e \<Rightarrow> Inl e
     | Inr v \<Rightarrow> Inr ([put_upload sessionID (v\<lparr>up_UpdatedAt := now, up_ExpiresAt := expires\<rparr>)], ())))"

definition DeleteUploadSession :: "string \<Rightarrow> unit op" where
  "DeleteUploadSession sessionID db = db_update db (plain (\<lambda>db. Inr ([tx_remove ''uploads'' sessionID], ())))"

definition ExpiredUploadSessions :: "gotime \<Rightarrow> node_db \<Rightarrow> err + upload_session list" where
  "ExpiredUploadSessions before db =
     (case get_all un_upload db ''uploads'' (db_keys db ''uploads'' []) of
        Inl e \<Rightarrow> Inl e
      | Inr vs \<Rightarrow> Inr (filter (\<lambda>v. up_ExpiresAt v < before) vs))"

definition UpdateUploadSession :: "upload_session \<Rightarrow> unit op" where
  "UpdateUploadSession v db = db_update db (plain (\<lambda>db.
     case get_upload db (up_ID v) of
       Inl e \<Rightarrow> Inl e
     | Inr old \<Rightarrow>
         if up_MountID old \<noteq> up_MountID v \<or> up_Destination old \<noteq> up_Destination v \<or> up_Size old \<noteq> up_Size v
            \<or> up_Overwrite old \<noteq> up_Overwrite v \<or> up_AuthorizationActorID old \<noteq> up_AuthorizationActorID v
            \<or> up_AuthorizationCredentialID old \<noteq> up_AuthorizationCredentialID v
            \<or> up_AuthorizationRevision old \<noteq> up_AuthorizationRevision v then Inl ErrInUse
         else Inr ([put_upload (up_ID v) v], ())))"

subsection \<open>Trash\<close>

definition validTrashItem :: "trash_item \<Rightarrow> bool" where
  "validTrashItem i \<longleftrightarrow> ValidKeyID (tr_ID i) \<and> ValidKeyID (tr_MountID i) \<and> planPath (tr_Path i) \<and> valid_utf8 (tr_Path i)
     \<and> tr_Type i \<in> {''file'', ''directory''} \<and> 0 \<le> tr_Size i \<and> \<not> IsZero (tr_DeletedAt i) \<and> tr_DeletedAt i < tr_ExpiresAt i
     \<and> tr_State i \<in> {''moving'', ''stored'', ''purging''} \<and> tr_Path i \<noteq> ''.jolt-trash'' \<and> \<not> prefix ''.jolt-trash/'' (tr_Path i)"

definition PutTrashItem :: "trash_item \<Rightarrow> unit op" where
  "PutTrashItem i db =
     (if \<not> validTrashItem i then (Inl (Errorf ''invalid trash item''), db)
      else db_update db (\<lambda>db.
        (Inr ([put_val ''trash'' (tr_ID i) (tr_MountID i) (order_of (tr_DeletedAt i)) (VTrash i)], ()), ensureSecurityVersion 7 db)))"

definition GetTrashItem :: "string \<Rightarrow> node_db \<Rightarrow> err + trash_item" where
  "GetTrashItem itemID db = (if \<not> ValidKeyID itemID then Inl ErrNotFound else get_as un_trash db ''trash'' itemID)"

text \<open>Newest first; records of the same time keep their order.\<close>

definition ListTrashItems :: "string \<Rightarrow> node_db \<Rightarrow> err + trash_item list" where
  "ListTrashItems mountID db =
     (case get_all un_trash db ''trash'' (db_keys db ''trash'' mountID) of
        Inl e \<Rightarrow> Inl e
      | Inr items \<Rightarrow> Inr (sort_key (\<lambda>i. - tr_DeletedAt i) items))"

definition AllTrashItems :: "node_db \<Rightarrow> err + trash_item list" where
  "AllTrashItems db = get_all un_trash db ''trash'' (db_keys db ''trash'' [])"

definition DeleteTrashItem :: "string \<Rightarrow> unit op" where
  "DeleteTrashItem itemID db =
     (if \<not> ValidKeyID itemID then (Inl ErrNotFound, db)
      else db_update db (plain (\<lambda>db.
        if \<not> db_exists db ''trash'' itemID then Inl ErrNotFound else Inr ([tx_remove ''trash'' itemID], ()))))"

subsection \<open>The operational token\<close>

abbreviation get_token :: "node_db \<Rightarrow> err + token_state" where
  "get_token db \<equiv> get_as un_token db ''tokens'' ''operational''"

definition no_token :: token_state where
  "no_token = \<lparr>tok_StagedHash = [], tok_ActiveHash = [], tok_EnvTokenDisabled = False, tok_UpdatedAt = 0, tok_CorrelationID = []\<rparr>"

definition put_token :: "token_state \<Rightarrow> node_rec" where
  "put_token v = put_val ''tokens'' ''operational'' [] [] (VToken v)"

definition GetOperationalTokenState :: "node_db \<Rightarrow> err + token_state" where
  "GetOperationalTokenState db = get_token db"

definition StageOperationalToken :: "string \<Rightarrow> string \<Rightarrow> gotime \<Rightarrow> unit op" where
  "StageOperationalToken hash correlation now db = db_update db (plain (\<lambda>db.
     case (case get_token db of Inl e \<Rightarrow> if e = ErrNotFound then Inr no_token else Inl e | Inr v \<Rightarrow> Inr v) of
       Inl e \<Rightarrow> Inl e
     | Inr v \<Rightarrow>
         if tok_StagedHash v \<noteq> [] \<and> tok_StagedHash v \<noteq> hash then Inl ErrInUse
         else if tok_StagedHash v = hash then Inr ([], ())
         else Inr ([put_token (v\<lparr>tok_StagedHash := hash, tok_UpdatedAt := now, tok_CorrelationID := correlation\<rparr>)], ())))"

definition CommitOperationalToken :: "string \<Rightarrow> string \<Rightarrow> gotime \<Rightarrow> unit op" where
  "CommitOperationalToken hash correlation now db = db_update db (plain (\<lambda>db.
     case get_token db of
       Inl e \<Rightarrow> Inl e
     | Inr v \<Rightarrow>
         if hash \<noteq> [] \<and> tok_ActiveHash v = hash \<and> tok_StagedHash v = [] then Inr ([], ())
         else if hash = [] \<or> tok_StagedHash v \<noteq> hash then Inl ErrNotFound
         else Inr ([put_token (v\<lparr>tok_ActiveHash := hash, tok_StagedHash := [], tok_EnvTokenDisabled := True, tok_UpdatedAt := now,
                      tok_CorrelationID := correlation\<rparr>)], ())))"

definition RecoverOperationalToken :: "string \<Rightarrow> string \<Rightarrow> gotime \<Rightarrow> unit op" where
  "RecoverOperationalToken hash correlation now db =
     (if hash = [] \<or> correlation = [] then (Inl (Errorf ''token hash and correlation ID are required''), db)
      else db_update db (plain (\<lambda>db.
        Inr ([put_token \<lparr>tok_StagedHash = [], tok_ActiveHash = hash, tok_EnvTokenDisabled = True, tok_UpdatedAt = now,
                tok_CorrelationID = correlation\<rparr>], ()))))"

subsection \<open>Managed trust\<close>

definition GetManagedTrust :: "node_db \<Rightarrow> err + managed_trust" where
  "GetManagedTrust db = get_as un_trust db ''managed_trust'' ''current''"

definition PutManagedTrust :: "managed_trust \<Rightarrow> unit op" where
  "PutManagedTrust v db =
     (if mt_RootPin v = [] \<or> mt_Bundle v = [] then (Inl (Errorf ''managed trust needs a pinned root and a bundle''), db)
      else db_update db (\<lambda>db. (Inr ([put_val ''managed_trust'' ''current'' [] [] (VTrust v)], ()), ensureSecurityVersion 8 db)))"

end
