(* ===== verification/Peer_Store.thy ===== *)
theory Peer_Store
  imports Plan_Store
begin

text \<open>
  Pairing, peers and their revocation (\<open>infra/state/peers.go\<close>), and the audit records of a
  transaction (\<open>configuration.go\<close>).
\<close>

abbreviation get_peer :: "node_db \<Rightarrow> string \<Rightarrow> err + peer" where
  "get_peer db k \<equiv> get_as un_peer db ''peers'' k"
abbreviation get_grant :: "node_db \<Rightarrow> string \<Rightarrow> err + transfer_grant" where
  "get_grant db k \<equiv> get_as un_grant db ''grants'' k"

text \<open>\<open>audit\<close>: the key numbers the records of the transaction that came before.\<close>

definition audit_rec :: "node_db \<Rightarrow> nat \<Rightarrow> (nat \<Rightarrow> gotime) \<Rightarrow> string \<Rightarrow> string \<Rightarrow> snapshot \<Rightarrow> node_rec" where
  "audit_rec db n clock action resource snap =
     (let key = fmt_int 20 (int (db_sequence db) + 1) @ ''-'' @ fmt_int 6 (int n) in
      put_val ''audit'' key resource key (VAudit \<lparr>aud_Action = action, aud_ResourceID = resource, aud_At = clock n, aud_Snapshot = snap\<rparr>))"

subsection \<open>Pairing\<close>

definition put_invite :: "string \<Rightarrow> invite_record \<Rightarrow> node_rec" where
  "put_invite key r = put_val ''invites'' key [] (order_of (inv_CreatedAt (invr_Invite r))) (VInvite r)"

definition put_request :: "string \<Rightarrow> request_record \<Rightarrow> node_rec" where
  "put_request key r =
     put_val ''requests'' key (prq_InviteID (reqr_Request r)) (order_of (prq_CreatedAt (reqr_Request r))) (VRequest r)"

definition CreatePairingInvite :: "pairing_invite \<Rightarrow> string \<Rightarrow> unit op" where
  "CreatePairingInvite v hash db = db_update db (plain (\<lambda>db.
     if db_exists db ''invites'' (inv_ID v) then Inl (Errorf ''invite already exists'')
     else Inr ([put_invite (inv_ID v) \<lparr>invr_Invite = v, invr_SecretHash = hash\<rparr>], ())))"

definition GetPairingInvite :: "string \<Rightarrow> node_db \<Rightarrow> err + pairing_invite" where
  "GetPairingInvite inviteID db =
     (case get_as un_invite db ''invites'' inviteID of Inl e \<Rightarrow> Inl e | Inr r \<Rightarrow> Inr (invr_Invite r))"

definition ListPairingInvites :: "node_db \<Rightarrow> err + pairing_invite list" where
  "ListPairingInvites db =
     (case get_all un_invite db ''invites'' (rev (db_keys db ''invites'' [])) of Inl e \<Rightarrow> Inl e | Inr rs \<Rightarrow> Inr (map invr_Invite rs))"

definition RevokePairingInvite :: "string \<Rightarrow> gotime \<Rightarrow> unit op" where
  "RevokePairingInvite inviteID now db = db_update db (plain (\<lambda>db.
     case get_as un_invite db ''invites'' inviteID of
       Inl e \<Rightarrow> Inl e
     | Inr r \<Rightarrow>
         Inr ([put_invite inviteID (r\<lparr>invr_Invite := (invr_Invite r)\<lparr>inv_Status := ''revoked'', inv_RevokedAt := Some now\<rparr>\<rparr>)], ())))"

definition CreatePairingRequest :: "pairing_request \<Rightarrow> string \<Rightarrow> unit op" where
  "CreatePairingRequest v hash db = db_update db (plain (\<lambda>db.
     if db_exists db ''requests'' (prq_ID v) then Inl (Errorf ''request already exists'')
     else if list_ex (\<lambda>k. k \<noteq> []) (db_keys db ''requests'' (prq_InviteID v)) then Inl (Errorf ''invite already requested'')
     else Inr ([put_request (prq_ID v) \<lparr>reqr_Request = v, reqr_SecretHash = hash\<rparr>], ())))"

definition GetPairingRequest :: "string \<Rightarrow> node_db \<Rightarrow> err + pairing_request" where
  "GetPairingRequest requestID db =
     (case get_as un_request db ''requests'' requestID of Inl e \<Rightarrow> Inl e | Inr r \<Rightarrow> Inr (reqr_Request r))"

definition ListPairingRequests :: "node_db \<Rightarrow> err + pairing_request list" where
  "ListPairingRequests db =
     (case get_all un_request db ''requests'' (rev (db_keys db ''requests'' [])) of Inl e \<Rightarrow> Inl e | Inr rs \<Rightarrow> Inr (map reqr_Request rs))"

definition put_peer :: "string \<Rightarrow> peer \<Rightarrow> node_rec" where
  "put_peer key v = put_val ''peers'' key [] (peer_Name v) (VPeer v)"

definition trust_rec :: "peer \<Rightarrow> node_rec" where
  "trust_rec v =
     put_peer (peer_NodeID v)
       (v\<lparr>peer_IdentityEpoch := max (peer_IdentityEpoch v) 1, peer_PreviousFingerprint := [], peer_ConsecutiveFailures := 0,
          peer_LastSeenAt := None\<rparr>)"

definition ApprovePairingInvite :: "string \<Rightarrow> string \<Rightarrow> peer \<Rightarrow> gotime \<Rightarrow> unit op" where
  "ApprovePairingInvite inviteID hash v now db = db_update db (plain (\<lambda>db.
     case get_as un_invite db ''invites'' inviteID of
       Inl e \<Rightarrow> Inl e
     | Inr r \<Rightarrow>
         let i = invr_Invite r in
         if inv_Status i \<noteq> ''pending'' \<or> invr_SecretHash r \<noteq> hash \<or> inv_ExpiresAt i < now
            \<or> inv_TargetNodeID i \<noteq> [] \<and> inv_TargetNodeID i \<noteq> peer_NodeID v then Inl (Errorf ''invite cannot be approved'')
         else Inr ([trust_rec v, put_invite inviteID (r\<lparr>invr_Invite := i\<lparr>inv_Status := ''consumed''\<rparr>\<rparr>)], ())))"

definition ResolvePairingRequest :: "string \<Rightarrow> string \<Rightarrow> peer option \<Rightarrow> gotime \<Rightarrow> unit op" where
  "ResolvePairingRequest requestID status v now db = db_update db (plain (\<lambda>db.
     case get_as un_request db ''requests'' requestID of
       Inl e \<Rightarrow> Inl e
     | Inr r \<Rightarrow>
         let q = reqr_Request r in
         if prq_Status q \<noteq> ''pending_review'' \<or> prq_ExpiresAt q < now then Inl (Errorf ''pairing request cannot be resolved'')
         else Inr ((case v of None \<Rightarrow> [] | Some p \<Rightarrow> [trust_rec p])
                   @ [put_request requestID (r\<lparr>reqr_Request := q\<lparr>prq_Status := status\<rparr>\<rparr>)], ())))"

subsection \<open>Peers\<close>

definition GetPeer :: "string \<Rightarrow> node_db \<Rightarrow> err + peer" where
  "GetPeer peerID db = get_peer db peerID"

definition ListPeers :: "node_db \<Rightarrow> err + peer list" where
  "ListPeers db = get_all un_peer db ''peers'' (db_keys db ''peers'' [])"

definition changePeer :: "string \<Rightarrow> (peer \<Rightarrow> err + peer) \<Rightarrow> unit op" where
  "changePeer peerID f db = db_update db (plain (\<lambda>db.
     case get_peer db peerID of
       Inl e \<Rightarrow> Inl e
     | Inr v \<Rightarrow> (case f v of Inl e \<Rightarrow> Inl e | Inr v' \<Rightarrow> Inr ([put_peer peerID v'], ()))))"

definition UpdatePeerHealth :: "string \<Rightarrow> string \<Rightarrow> gotime option \<Rightarrow> int \<Rightarrow> unit op" where
  "UpdatePeerHealth peerID st seen failures =
     changePeer peerID (\<lambda>v. if peer_State v = ''revoked'' then Inl ErrNotFound
       else Inr (v\<lparr>peer_State := st, peer_LastSeenAt := seen, peer_ConsecutiveFailures := failures\<rparr>))"

definition UpdatePeerEndpoints :: "string \<Rightarrow> string \<Rightarrow> string \<Rightarrow> string \<Rightarrow> unit op" where
  "UpdatePeerEndpoints peerID address mtls correlation =
     changePeer peerID (\<lambda>v. if peer_State v = ''revoked'' then Inl ErrNotFound
       else Inr (v\<lparr>peer_Endpoint := address, peer_MTLSEndpoint := mtls, peer_CorrelationID := correlation,
                   peer_State := ''unknown'', peer_LastSeenAt := None, peer_ConsecutiveFailures := 0\<rparr>))"

definition RecoverPeerIdentity :: "string \<Rightarrow> string \<Rightarrow> string \<Rightarrow> unit op" where
  "RecoverPeerIdentity peerID fingerprint correlation =
     changePeer peerID (\<lambda>v. if peer_State v \<noteq> ''identity_changed'' then Inl ErrNotFound
       else Inr (v\<lparr>peer_Fingerprint := fingerprint, peer_PreviousFingerprint := [], peer_CorrelationID := correlation,
                   peer_IdentityEpoch := peer_IdentityEpoch v + 1,
                   peer_State := ''unknown'', peer_LastSeenAt := None, peer_ConsecutiveFailures := 0\<rparr>))"

definition ApplyPeerIdentityHandover :: "string \<Rightarrow> int \<Rightarrow> string \<Rightarrow> int \<Rightarrow> string \<Rightarrow> string \<Rightarrow> unit op" where
  "ApplyPeerIdentityHandover peerID previousEpoch previousFingerprint nextEpoch nextFingerprint correlation =
     changePeer peerID (\<lambda>v.
       if peer_State v = ''revoked'' \<or> peer_IdentityEpoch v \<noteq> previousEpoch \<or> peer_Fingerprint v \<noteq> previousFingerprint then Inl ErrNotFound
       else Inr (v\<lparr>peer_PreviousFingerprint := peer_Fingerprint v, peer_Fingerprint := nextFingerprint, peer_IdentityEpoch := nextEpoch,
                   peer_CorrelationID := correlation,
                   peer_State := ''unknown'', peer_LastSeenAt := None, peer_ConsecutiveFailures := 0\<rparr>))"

definition ConfirmPeerIdentityHandover :: "string \<Rightarrow> int \<Rightarrow> string \<Rightarrow> unit op" where
  "ConfirmPeerIdentityHandover peerID epoch fingerprint =
     changePeer peerID (\<lambda>v.
       if peer_State v = ''revoked'' \<or> peer_IdentityEpoch v \<noteq> epoch \<or> peer_Fingerprint v \<noteq> fingerprint
          \<or> peer_PreviousFingerprint v = [] then Inl ErrNotFound
       else Inr (v\<lparr>peer_PreviousFingerprint := []\<rparr>))"

subsection \<open>Revocation\<close>

definition put_grant :: "string \<Rightarrow> transfer_grant \<Rightarrow> node_rec" where
  "put_grant key g = put_val ''grants'' key (gr_PeerNodeID g) (order_of (gr_CreatedAt g)) (VGrant g)"

definition tombstone :: "string \<Rightarrow> string \<Rightarrow> node_rec" where
  "tombstone key peerID = put_val ''revoked_grants'' key peerID [] (VBool True)"

text \<open>Bindings of the peer's grants, also of those that are no longer configured.\<close>

fun revoke_bindings :: "node_db \<Rightarrow> string \<Rightarrow> string list \<Rightarrow> err + node_rec list" where
  "revoke_bindings db peerID [] = Inr []"
| "revoke_bindings db peerID (k # ks) =
     (case get_as un_string db ''grant_bindings'' k of
        Inl e \<Rightarrow> Inl e
      | Inr b \<Rightarrow>
          (case revoke_bindings db peerID ks of
             Inl e \<Rightarrow> Inl e
           | Inr rs \<Rightarrow> Inr (if prefix (peerID @ [CHR 0x00]) b then tombstone k peerID # rs else rs)))"

text \<open>The grants of the peer; the number of records so far gives the audit keys.\<close>

fun revoke_grants :: "node_db \<Rightarrow> string \<Rightarrow> string \<Rightarrow> gotime \<Rightarrow> (nat \<Rightarrow> gotime) \<Rightarrow> nat \<Rightarrow> string list \<Rightarrow> err + node_rec list" where
  "revoke_grants db peerID correlation now clock n [] = Inr []"
| "revoke_grants db peerID correlation now clock n (k # ks) =
     (case get_grant db k of
        Inl e \<Rightarrow> Inl e
      | Inr g \<Rightarrow>
          let g' = g\<lparr>gr_Enabled := False, gr_UpdatedAt := now, gr_CorrelationID := correlation\<rparr>;
              writes = tombstone k peerID # (if db_managed db then [] else [put_val ''grants'' k peerID (order_of (gr_CreatedAt g')) (VGrant g')]);
              written = writes @ [audit_rec db (n + length writes) clock ''peer_revoked'' k (SnapGrant g')]
          in (case revoke_grants db peerID correlation now clock (n + length written) ks of Inl e \<Rightarrow> Inl e | Inr rs \<Rightarrow> Inr (written @ rs)))"

text \<open>The clock is what \<open>time.Now\<close> returns for the audit record at a place in the transaction.\<close>

definition revoke_body :: "string \<Rightarrow> string \<Rightarrow> gotime \<Rightarrow> (nat \<Rightarrow> gotime) \<Rightarrow> node_db \<Rightarrow> err + node_rec list \<times> unit" where
  "revoke_body peerID correlation now clock db =
     (case get_peer db peerID of
        Inl e \<Rightarrow> Inl e
      | Inr v \<Rightarrow>
          let v' = v\<lparr>peer_State := ''revoked'', peer_ConsecutiveFailures := 0, peer_CorrelationID := correlation\<rparr>;
              first = [put_peer peerID v', audit_rec db 1 clock ''peer_revoked'' peerID (SnapPeer v')] in
          (case revoke_bindings db peerID (db_keys db ''grant_bindings'' []) of
             Inl e \<Rightarrow> Inl e
           | Inr bs \<Rightarrow>
               (case revoke_grants db peerID correlation now clock (length first + length bs) (db_keys db ''grants'' peerID) of
                  Inl e \<Rightarrow> Inl e
                | Inr gs \<Rightarrow> Inr (first @ bs @ gs, ()))))"

definition RevokePeer :: "string \<Rightarrow> string \<Rightarrow> gotime \<Rightarrow> (nat \<Rightarrow> gotime) \<Rightarrow> unit op" where
  "RevokePeer peerID correlation now clock db = db_update db (plain (revoke_body peerID correlation now clock))"

end
