(* ===== verification/Config_Store.thy ===== *)
theory Config_Store
  imports Peer_Store
begin

text \<open>
  The applied configuration of a node, its mounts and its transfer grants
  (\<open>infra/state/configuration.go\<close>). The part of a grant's check that looks at the
  file system (\<open>effective\<close>) is not modelled.
\<close>

abbreviation get_mount :: "node_db \<Rightarrow> string \<Rightarrow> err + mount" where
  "get_mount db k \<equiv> get_as un_mount db ''mounts'' k"

subsection \<open>Applying a configuration\<close>

definition put_mount :: "mount \<Rightarrow> node_rec" where
  "put_mount m = put_val ''mounts'' (mnt_ID m) [] (mnt_Name m) (VMount m)"

definition stamp_mount :: "node_db \<Rightarrow> mount \<Rightarrow> gotime \<Rightarrow> mount" where
  "stamp_mount db m now =
     (let created = (case get_mount db (mnt_ID m) of Inr old \<Rightarrow> mnt_CreatedAt old | Inl _ \<Rightarrow> mnt_CreatedAt m) in
      m\<lparr>mnt_CreatedAt := (if IsZero created then now else created), mnt_UpdatedAt := now\<rparr>)"

definition mount_check :: "node_db \<Rightarrow> mount \<Rightarrow> err option" where
  "mount_check db m =
     (case get_as un_string db ''mount_bindings'' (mnt_ID m) of
        Inl e \<Rightarrow> if e \<noteq> ErrNotFound then Some e else None
      | Inr b \<Rightarrow> if b \<noteq> mnt_LocalPath m then Some (Errorf (''mount '' @ mnt_ID m @ '' changed root: use a new ID'')) else None)"

fun apply_mounts :: "node_db \<Rightarrow> gotime \<Rightarrow> mount list \<Rightarrow> err + node_rec list" where
  "apply_mounts db now [] = Inr []"
| "apply_mounts db now (m # ms) =
     (case mount_check db m of
        Some e \<Rightarrow> Inl e
      | None \<Rightarrow>
          (case apply_mounts db now ms of
             Inl e \<Rightarrow> Inl e
           | Inr rs \<Rightarrow>
               Inr (put_val ''mount_bindings'' (mnt_ID m) [] [] (VString (mnt_LocalPath m)) # put_mount (stamp_mount db m now) # rs)))"

definition grant_binding :: "transfer_grant \<Rightarrow> string" where
  "grant_binding g = gr_PeerNodeID g @ [CHR 0x00] @ gr_MountID g @ [CHR 0x00] @ gr_Path g @ [CHR 0x00] @ gr_Direction g"

definition stamp_grant :: "node_db \<Rightarrow> transfer_grant \<Rightarrow> gotime \<Rightarrow> transfer_grant" where
  "stamp_grant db g now =
     (let created = (case get_grant db (gr_ID g) of Inr old \<Rightarrow> gr_CreatedAt old | Inl _ \<Rightarrow> gr_CreatedAt g) in
      g\<lparr>gr_CreatedAt := (if IsZero created then now else created), gr_UpdatedAt := now\<rparr>)"

text \<open>A grant that is declared for the first time while its peer is revoked starts as revoked.\<close>

definition grant_checks :: "node_db \<Rightarrow> transfer_grant \<Rightarrow> err + node_rec list" where
  "grant_checks db g =
     (case get_as un_string db ''grant_bindings'' (gr_ID g) of
        Inr previous \<Rightarrow> if grant_binding g \<noteq> previous then Inl (Errorf (''grant '' @ gr_ID g @ '' changed resource: use a new ID'')) else Inr []
      | Inl e \<Rightarrow>
          if e \<noteq> ErrNotFound then Inl e
          else (case get_peer db (gr_PeerNodeID g) of
                  Inl e \<Rightarrow> if e \<noteq> ErrNotFound then Inl e else Inr []
                | Inr p \<Rightarrow> Inr (if peer_State p = ''revoked'' then [tombstone (gr_ID g) (gr_PeerNodeID g)] else [])))"

fun apply_grants :: "node_db \<Rightarrow> gotime \<Rightarrow> transfer_grant list \<Rightarrow> err + node_rec list" where
  "apply_grants db now [] = Inr []"
| "apply_grants db now (g # gs) =
     (case grant_checks db g of
        Inl e \<Rightarrow> Inl e
      | Inr ts \<Rightarrow>
          (case apply_grants db now gs of
             Inl e \<Rightarrow> Inl e
           | Inr rs \<Rightarrow>
               Inr (ts @ put_val ''grant_bindings'' (gr_ID g) [] [] (VString (grant_binding g))
                    # put_grant (gr_ID g) (stamp_grant db g now) # rs)))"

definition configuration_body :: "string \<Rightarrow> mount list \<Rightarrow> transfer_grant list \<Rightarrow> string \<Rightarrow> gotime \<Rightarrow> (nat \<Rightarrow> gotime) \<Rightarrow> node_db
    \<Rightarrow> err + node_rec list \<times> unit" where
  "configuration_body revision mounts grants settings now clock db =
     (case (case get_as un_configuration db ''configuration'' ''applied'' of
              Inl e \<Rightarrow> if e = ErrNotFound then Inr ([], []) else Inl e
            | Inr c \<Rightarrow> Inr (conf_Revision c, conf_Settings c)) of
        Inl e \<Rightarrow> Inl e
      | Inr (oldRevision, oldSettings) \<Rightarrow>
          if oldRevision = revision then Inr ([], ())
          else
            let mountIDs = db_keys db ''mounts'' []; grantIDs = db_keys db ''grants'' [];
                removals = map (tx_remove ''mounts'') mountIDs @ map (tx_remove ''grants'') grantIDs in
            (case apply_mounts db now mounts of
               Inl e \<Rightarrow> Inl e
             | Inr ms \<Rightarrow>
                 (case apply_grants db now grants of
                    Inl e \<Rightarrow> Inl e
                  | Inr gs \<Rightarrow>
                      (case get_all un_mount db ''mounts'' mountIDs of
                         Inl e \<Rightarrow> Inl e
                       | Inr beforeMounts \<Rightarrow>
                           (case get_all un_grant db ''grants'' grantIDs of
                              Inl e \<Rightarrow> Inl e
                            | Inr beforeGrants \<Rightarrow>
                                let rs = removals @ ms @ gs in
                                Inr (rs
                                     @ [audit_rec db (length rs) clock ''configuration_applied'' revision
                                          (SnapConfiguration oldRevision oldSettings settings beforeMounts mounts beforeGrants grants),
                                        put_val ''configuration'' ''applied'' [] []
                                          (VConfiguration \<lparr>conf_Revision = revision, conf_AppliedAt = now, conf_Settings = settings\<rparr>)], ()))))))"

definition ApplyConfiguration :: "string \<Rightarrow> mount list \<Rightarrow> transfer_grant list \<Rightarrow> string list \<Rightarrow> gotime \<Rightarrow> (nat \<Rightarrow> gotime) \<Rightarrow> unit op" where
  "ApplyConfiguration revision mounts grants settings now clock db =
     (let public = (case settings of [] \<Rightarrow> [] | s # _ \<Rightarrow> s) in
      case db_update db (plain (configuration_body revision mounts grants public now clock)) of
        (Inl e, db') \<Rightarrow> (Inl e, db')
      | (Inr u, db') \<Rightarrow> (Inr u, db'\<lparr>db_managed := True\<rparr>))"

subsection \<open>Mounts and grants\<close>

definition GetMount :: "string \<Rightarrow> node_db \<Rightarrow> err + mount" where
  "GetMount mountID db = get_mount db mountID"

definition ListMounts :: "node_db \<Rightarrow> err + mount list" where
  "ListMounts db = get_all un_mount db ''mounts'' (db_keys db ''mounts'' [])"

fun mount_conflict :: "mount \<Rightarrow> node_db \<Rightarrow> string list \<Rightarrow> err option" where
  "mount_conflict v db [] = None"
| "mount_conflict v db (k # ks) =
     (case get_mount db k of
        Inl e \<Rightarrow> Some e
      | Inr m \<Rightarrow> if k \<noteq> mnt_ID v \<and> mnt_LocalPath m = mnt_LocalPath v then Some (Errorf ''mount path already exists'') else mount_conflict v db ks)"

definition UpsertMount :: "mount \<Rightarrow> unit op" where
  "UpsertMount v db = db_update db (plain (\<lambda>db.
     if db_managed db then Inl ErrManagedConfiguration
     else (case mount_conflict v db (db_keys db ''mounts'' []) of Some e \<Rightarrow> Inl e | None \<Rightarrow> Inr ([put_mount v], ()))))"

fun mount_in_use :: "string \<Rightarrow> node_db \<Rightarrow> string list \<Rightarrow> err option" where
  "mount_in_use mountID db [] = None"
| "mount_in_use mountID db (k # ks) =
     (case get_grant db k of
        Inl e \<Rightarrow> Some e
      | Inr g \<Rightarrow> if gr_MountID g = mountID then Some ErrInUse else mount_in_use mountID db ks)"

definition DeleteMount :: "string \<Rightarrow> unit op" where
  "DeleteMount mountID db = db_update db (plain (\<lambda>db.
     if db_managed db then Inl ErrManagedConfiguration
     else if \<not> db_exists db ''mounts'' mountID then Inl ErrNotFound
     else (case mount_in_use mountID db (db_keys db ''grants'' []) of
             Some e \<Rightarrow> Inl e
           | None \<Rightarrow> Inr ([tx_remove ''mounts'' mountID], ()))))"

fun grant_conflict :: "transfer_grant \<Rightarrow> node_db \<Rightarrow> string list \<Rightarrow> err option" where
  "grant_conflict g db [] = None"
| "grant_conflict g db (k # ks) =
     (case get_grant db k of
        Inl e \<Rightarrow> Some e
      | Inr other \<Rightarrow>
          if k \<noteq> gr_ID g \<and> gr_MountID other = gr_MountID g \<and> gr_Path other = gr_Path g \<and> gr_Direction other = gr_Direction g
          then Some (Errorf ''grant already exists'') else grant_conflict g db ks)"

definition saveGrant :: "transfer_grant \<Rightarrow> bool \<Rightarrow> (nat \<Rightarrow> gotime) \<Rightarrow> unit op" where
  "saveGrant g create clock db = db_update db (plain (\<lambda>db.
     if db_managed db then Inl ErrManagedConfiguration
     else if \<not> create \<and> \<not> db_exists db ''grants'' (gr_ID g) then Inl ErrNotFound
     else if create \<and> db_exists db ''grants'' (gr_ID g) then Inl (Errorf ''grant already exists'')
     else if \<not> db_exists db ''mounts'' (gr_MountID g) then Inl ErrNotFound
     else if \<not> db_exists db ''peers'' (gr_PeerNodeID g) then Inl ErrNotFound
     else (case grant_conflict g db (db_keys db ''grants'' (gr_PeerNodeID g)) of
             Some e \<Rightarrow> Inl e
           | None \<Rightarrow> Inr ([put_grant (gr_ID g) g, audit_rec db 1 clock ''grant_saved'' (gr_ID g) (SnapGrant g)], ()))))"

definition CreateTransferGrant :: "transfer_grant \<Rightarrow> (nat \<Rightarrow> gotime) \<Rightarrow> unit op" where
  "CreateTransferGrant g = saveGrant g True"

definition UpdateTransferGrant :: "transfer_grant \<Rightarrow> (nat \<Rightarrow> gotime) \<Rightarrow> unit op" where
  "UpdateTransferGrant g = saveGrant g False"

definition DeleteTransferGrant :: "string \<Rightarrow> string \<Rightarrow> gotime \<Rightarrow> (nat \<Rightarrow> gotime) \<Rightarrow> unit op" where
  "DeleteTransferGrant grantID correlation now clock db = db_update db (plain (\<lambda>db.
     if db_managed db then Inl ErrManagedConfiguration
     else (case get_grant db grantID of
             Inl e \<Rightarrow> Inl e
           | Inr g \<Rightarrow>
               Inr ([tx_remove ''grants'' grantID,
                     audit_rec db 1 clock ''grant_deleted'' grantID (SnapGrant (g\<lparr>gr_CorrelationID := correlation, gr_UpdatedAt := now\<rparr>))], ()))))"

subsection \<open>The state of a grant\<close>

record grant_check =
  gc_grant :: transfer_grant
  gc_mount :: "mount option"  \<comment> \<open>set when the path is still to be checked\<close>

definition inactive :: "transfer_grant \<Rightarrow> string \<Rightarrow> transfer_grant" where
  "inactive g reason = g\<lparr>gr_Enabled := False, gr_InactiveReason := reason\<rparr>"

definition settled :: "transfer_grant \<Rightarrow> err + grant_check" where
  "settled g = Inr \<lparr>gc_grant = g, gc_mount = None\<rparr>"

definition needs_write :: "transfer_grant \<Rightarrow> bool" where
  "needs_write g \<longleftrightarrow> gp_Write (gr_Permissions g) \<or> gp_Delete (gr_Permissions g) \<or> gp_Rename (gr_Permissions g) \<or> gr_Direction g \<noteq> ''send''"

definition role_incompatible :: "peer \<Rightarrow> transfer_grant \<Rightarrow> bool" where
  "role_incompatible p g \<longleftrightarrow> peer_TransferMode p = ''one_sided''
     \<and> (peer_LocalRole p = ''sender'' \<and> gr_Direction g \<noteq> ''send'' \<or> peer_LocalRole p = ''receiver'' \<and> gr_Direction g \<noteq> ''receive'')"

definition prepareGrant :: "node_db \<Rightarrow> transfer_grant \<Rightarrow> err + grant_check" where
  "prepareGrant db g0 =
     (let g = g0\<lparr>gr_ConfiguredEnabled := gr_Enabled g0\<rparr> in
      if \<not> gr_Enabled g then settled (g\<lparr>gr_InactiveReason := ''disabled''\<rparr>)
      else if db_exists db ''revoked_grants'' (gr_ID g) then settled (inactive g ''revoked'')
      else if \<not> db_managed db then settled g
      else (case get_peer db (gr_PeerNodeID g) of
              Inl e \<Rightarrow> if e \<noteq> ErrNotFound then Inl e else settled (inactive g ''peer_untrusted'')
            | Inr p \<Rightarrow>
                if \<not> TrustedPeerState (peer_State p) then settled (inactive g ''peer_untrusted'')
                else (case get_mount db (gr_MountID g) of
                        Inl e \<Rightarrow> if e \<noteq> ErrNotFound then Inl e else settled (inactive g ''mount_unavailable'')
                      | Inr m \<Rightarrow>
                          if \<not> mnt_Enabled m then settled (inactive g ''mount_unavailable'')
                          else if needs_write g \<and> mnt_Mode m \<noteq> ''read_write'' then settled (inactive g ''mount_read_only'')
                          else if role_incompatible p g then settled (inactive g ''peer_role_incompatible'')
                          else Inr \<lparr>gc_grant = g, gc_mount = Some m\<rparr>)))"

end
