(* ===== verification/Node_Spec.thy ===== *)
theory Node_Spec
  imports Upload_Store Config_Store
begin

text \<open>
  What the node state promises, as a specification of its transactions: the type of the records, the
  life of a job, of a destructive plan, of a job's lease, of an upload, of an invite, and which records
  are never changed. \<open>write_ok\<close> says which records a transaction may write, from the state before it
  and the other records it writes; \<open>node_step\<close> is a transaction that keeps to it. The operations
  are shown to be such transactions in \<open>Node_Ops\<close>, and what follows from it is in \<open>Node_Laws\<close>.
\<close>

subsection \<open>Types of the records\<close>

text \<open>A value is kept in the bucket of its type, under its own key.\<close>

fun fits :: "string \<Rightarrow> string \<Rightarrow> stval \<Rightarrow> bool" where
  "fits b k (VJob j) \<longleftrightarrow> b = ''jobs'' \<and> k = job_ID j"
| "fits b k (VItem i) \<longleftrightarrow> b = ''items'' \<and> k = itemKey i"
| "fits b k (VIdempotency r) \<longleftrightarrow> b = ''idempotency'' \<or> b = ''destructive_idempotency''"
| "fits b k (VEvent e) \<longleftrightarrow> b = ''events'' \<and> k = fmt_int 20 (evt_ID e)"
| "fits b k (VAuthorization a) \<longleftrightarrow> b = ''job_authorizations'' \<and> k = auth_JobID a"
| "fits b k (VPlan p) \<longleftrightarrow> b = ''destructive_plans'' \<and> k = dp_ID p"
| "fits b k (VUpload u) \<longleftrightarrow> b = ''uploads'' \<and> k = up_ID u"
| "fits b k (VPeer p) \<longleftrightarrow> b = ''peers'' \<and> k = peer_NodeID p"
| "fits b k (VInvite r) \<longleftrightarrow> b = ''invites'' \<and> k = inv_ID (invr_Invite r)"
| "fits b k (VRequest r) \<longleftrightarrow> b = ''requests'' \<and> k = prq_ID (reqr_Request r)"
| "fits b k (VGrant g) \<longleftrightarrow> b = ''grants'' \<and> k = gr_ID g \<and> \<not> gr_ConfiguredEnabled g \<and> gr_InactiveReason g = []"
| "fits b k (VMount m) \<longleftrightarrow> b = ''mounts'' \<and> k = mnt_ID m"
| "fits b k (VToken t) \<longleftrightarrow> b = ''tokens'' \<and> k = ''operational''"
| "fits b k (VTrash i) \<longleftrightarrow> b = ''trash'' \<and> k = tr_ID i \<and> validTrashItem i"
| "fits b k (VTrust t) \<longleftrightarrow> b = ''managed_trust'' \<and> k = ''current'' \<and> mt_RootPin t \<noteq> [] \<and> mt_Bundle t \<noteq> []"
| "fits b k (VString s) \<longleftrightarrow> b = ''mount_bindings'' \<or> b = ''grant_bindings''"
| "fits b k (VBool x) \<longleftrightarrow> b = ''revoked_grants'' \<and> x"
| "fits b k (VConfiguration c) \<longleftrightarrow> b = ''configuration'' \<and> k = ''applied''"
| "fits b k (VAudit a) \<longleftrightarrow> b = ''audit''"

text \<open>The group and the order it is selected by are those of the value.\<close>

fun placed :: "string \<Rightarrow> string \<Rightarrow> string \<Rightarrow> stval \<Rightarrow> bool" where
  "placed k g ord (VJob j) \<longleftrightarrow> g = job_PeerNodeID j \<and> ord = order_of (job_CreatedAt j)"
| "placed k g ord (VItem i) \<longleftrightarrow> g = item_JobID i \<and> ord = fmt_int 12 (item_Ordinal i)"
| "placed k g ord (VEvent e) \<longleftrightarrow> g = evt_JobID e \<and> ord = k"
| "placed k g ord (VPlan p) \<longleftrightarrow> g = dp_SubjectID p \<and> ord = order_of (dp_CreatedAt p)"
| "placed k g ord (VUpload u) \<longleftrightarrow> g = up_MountID u \<and> ord = order_of (up_CreatedAt u)"
| "placed k g ord (VRequest r) \<longleftrightarrow> g = prq_InviteID (reqr_Request r)"
| "placed k g ord (VGrant gr) \<longleftrightarrow> g = gr_PeerNodeID gr \<and> ord = order_of (gr_CreatedAt gr)"
| "placed k g ord (VTrash i) \<longleftrightarrow> g = tr_MountID i"
| "placed k g ord v \<longleftrightarrow> True"

definition well_typed :: "node_rec \<Rightarrow> bool" where
  "well_typed r \<longleftrightarrow> rec_Key r \<noteq> [] \<and>
     (case rec_Data r of
        None \<Rightarrow> False
      | Some v \<Rightarrow> fits (rec_Bucket r) (rec_Key r) v \<and> placed (rec_Key r) (rec_Group r) (rec_Order r) v \<and> rec_State r = value_state v)"

definition typed_db :: "node_db \<Rightarrow> bool" where
  "typed_db db \<longleftrightarrow> (\<forall>b k r. db_lookup db b k = Some r \<longrightarrow> rec_id r = (b, k) \<and> well_typed r)"

subsection \<open>What is found\<close>

definition val_at :: "(stval \<Rightarrow> 'a option) \<Rightarrow> node_db \<Rightarrow> string \<Rightarrow> string \<Rightarrow> 'a option" where
  "val_at un db b k = (case get_as un db b k of Inl _ \<Rightarrow> None | Inr x \<Rightarrow> Some x)"

abbreviation job_at :: "node_db \<Rightarrow> string \<Rightarrow> job option" where
  "job_at db k \<equiv> val_at un_job db ''jobs'' k"
abbreviation plan_at :: "node_db \<Rightarrow> string \<Rightarrow> destructive_plan option" where
  "plan_at db k \<equiv> val_at un_plan db ''destructive_plans'' k"
abbreviation auth_at :: "node_db \<Rightarrow> string \<Rightarrow> job_authorization option" where
  "auth_at db k \<equiv> val_at un_auth db ''job_authorizations'' k"
abbreviation upload_at :: "node_db \<Rightarrow> string \<Rightarrow> upload_session option" where
  "upload_at db k \<equiv> val_at un_upload db ''uploads'' k"
abbreviation invite_at :: "node_db \<Rightarrow> string \<Rightarrow> invite_record option" where
  "invite_at db k \<equiv> val_at un_invite db ''invites'' k"

subsection \<open>The life of a job\<close>

definition recovered_states :: "string set" where
  "recovered_states = {''running'', ''pause_requested'', ''cancel_requested'', ''queued'', ''waiting_peer'', ''waiting_mount''}"

text \<open>
  From the job before, none when it is new, to the job after, in a transaction that writes \<open>rs\<close> on the
  node \<open>node\<close>. A new job with a plan consumes that plan; a job that is bound gets the lease with it; a
  job that is bound runs only under a lease that verifies at that time.
\<close>

inductive job_change :: "unicode_tables \<Rightarrow> crypto \<Rightarrow> string \<Rightarrow> node_db \<Rightarrow> node_rec list \<Rightarrow> job option \<Rightarrow> job \<Rightarrow> bool"
  for U C node db rs where
  created: "unsecured j \<Longrightarrow> job_SignedAuthActorID j = [] \<Longrightarrow> job_SignedAuthCredentialID j = [] \<Longrightarrow> job_change U C node db rs None j"
| awaiting: "\<not> job_SignedAuthBound j \<Longrightarrow> job_ID j \<noteq> [] \<Longrightarrow>
    job_DestructivePlanID j = [] \<or> (\<exists>p. put_plan p \<in> set rs \<and> dp_ID p = job_DestructivePlanID j \<and> dp_ConsumedJobID p = job_ID j) \<Longrightarrow>
    job_change U C node db rs None (await_authorization j actorID credentialID)"
| accepted: "unsecured j \<Longrightarrow> job_SignedAuthActorID j = [] \<Longrightarrow> job_SignedAuthCredentialID j = [] \<Longrightarrow> job_ID j \<noteq> [] \<Longrightarrow>
    put_plan p' \<in> set rs \<Longrightarrow> dp_ID p' = dp_ID p \<Longrightarrow> dp_ConsumedJobID p' = job_ID j \<Longrightarrow>
    job_change U C node db rs None (accepted_job j p)"
| updated: "validSecuredJobUpdate old next \<Longrightarrow> job_ID next = job_ID old \<Longrightarrow>
    job_change U C node db rs (Some old) (next\<lparr>job_CreatedAt := job_CreatedAt old\<rparr>)"
| started: "job_State j = ''queued'' \<Longrightarrow> unsecured j \<Longrightarrow> \<not> not_due j now \<Longrightarrow> job_change U C node db rs (Some j) (start_job j now)"
| started_secured: "job_State j = ''queued'' \<Longrightarrow> executableSecuredJob j \<Longrightarrow> \<not> not_due j now \<Longrightarrow>
    verifiedJobLease U C db j node keys now = Inr lease \<Longrightarrow> job_change U C node db rs (Some j) (start_job j now)"
| parked: "job_State j = ''queued'' \<Longrightarrow> executableSecuredJob j \<Longrightarrow> job_change U C node db rs (Some j) (park_job j now)"
| woken: "job_State j \<in> {''waiting_peer'', ''waiting_mount''} \<Longrightarrow> unsecured j \<or> executableSecuredJob j \<Longrightarrow>
    job_change U C node db rs (Some j) (wake_job j now False)"
| recovered: "job_State j \<in> recovered_states \<Longrightarrow> job_change U C node db rs (Some j) (wake_job j now True)"
| renewed: "renewable j \<Longrightarrow> job_State j \<noteq> ''running'' \<Longrightarrow> put_auth a now \<in> set rs \<Longrightarrow> auth_JobID a = job_ID j \<Longrightarrow>
    job_change U C node db rs (Some j) (renewed_job j now)"

subsection \<open>What a transaction may write\<close>

definition same_authorization :: "upload_session \<Rightarrow> upload_session \<Rightarrow> bool" where
  "same_authorization u v \<longleftrightarrow> up_AuthorizationActorID v = up_AuthorizationActorID u
     \<and> up_AuthorizationCredentialID v = up_AuthorizationCredentialID u \<and> up_AuthorizationRevision v = up_AuthorizationRevision u
     \<and> up_MountID v = up_MountID u \<and> up_Destination v = up_Destination u"

text \<open>A lease that is recorded has been verified for the job, the node and the revision.\<close>

definition lease_ok :: "unicode_tables \<Rightarrow> crypto \<Rightarrow> string \<Rightarrow> node_db \<Rightarrow> job \<Rightarrow> job_authorization \<Rightarrow> bool" where
  "lease_ok U C node db j a \<longleftrightarrow> jobAuthorizationMatches C j (auth_Binding a) node \<and> plan_backs db j (b_ActorID (auth_Binding a))
     \<and> (\<exists>keys now cl flt. VerifyJobLease U C (auth_Envelope a) keys (auth_Binding a) node (auth_Revision a) now = Some (cl, flt)
          \<and> auth_ExpiresAt a = of_Unix (c_ExpiresAt cl))"

inductive write_ok :: "unicode_tables \<Rightarrow> crypto \<Rightarrow> string \<Rightarrow> node_db \<Rightarrow> node_rec list \<Rightarrow> node_rec \<Rightarrow> bool"
  for U C node db rs where
  job: "job_change U C node db rs (job_at db (job_ID j)) j \<Longrightarrow> write_ok U C node db rs (put_job j)"
| plan_new: "plan_at db (dp_ID p) = None \<Longrightarrow> dp_ConsumedJobID p = [] \<Longrightarrow> write_ok U C node db rs (put_plan p)"
| plan_consumed: "plan_at db (dp_ID p) = Some p \<Longrightarrow> dp_ConsumedJobID p = [] \<Longrightarrow> put_job j \<in> set rs \<Longrightarrow> job_at db (job_ID j) = None \<Longrightarrow>
    job_ID j \<noteq> [] \<Longrightarrow> job_DestructivePlanID j = dp_ID p \<Longrightarrow>
    write_ok U C node db rs (put_plan (p\<lparr>dp_ConsumedJobID := job_ID j, dp_IdempotencyKey := key, dp_RequestHash := hash\<rparr>))"
| plan_purged: "plan_at db k = Some p \<Longrightarrow> dp_ConsumedJobID p = [] \<Longrightarrow> dp_ExpiresAt p \<le> now \<Longrightarrow>
    write_ok U C node db rs (tx_remove ''destructive_plans'' k)"
| auth_first: "auth_at db (auth_JobID a) = None \<Longrightarrow> job_at db (auth_JobID a) = Some j \<Longrightarrow> \<not> job_SignedAuthBound j \<Longrightarrow>
    job_State j \<noteq> ''running'' \<Longrightarrow> put_job (renewed_job j now) \<in> set rs \<Longrightarrow> auth_Revision a = 1 \<Longrightarrow> lease_ok U C node db j a \<Longrightarrow>
    write_ok U C node db rs (put_auth a now)"
| auth_next: "auth_at db (auth_JobID a) = Some old \<Longrightarrow> job_at db (auth_JobID a) = Some j \<Longrightarrow> job_SignedAuthBound j \<Longrightarrow>
    auth_Revision old \<noteq> - 1 \<Longrightarrow> auth_Revision a = auth_Revision old + 1 \<Longrightarrow> auth_Binding a = auth_Binding old \<Longrightarrow>
    lease_ok U C node db j a \<Longrightarrow> write_ok U C node db rs (put_auth a now)"
| idempotency: "b \<in> {''idempotency'', ''destructive_idempotency''} \<Longrightarrow> db_lookup db b k = None \<Longrightarrow> put_job j \<in> set rs \<Longrightarrow>
    job_ID j = idem_JobID v \<Longrightarrow> write_ok U C node db rs (put_val b k [] [] (VIdempotency v))"
| item: "write_ok U C node db rs (put_item i)"
| item_removed: "write_ok U C node db rs (tx_remove ''items'' k)"
| event: "write_ok U C node db rs (put_event db e)"
| upload_new: "db_lookup db ''uploads'' (up_ID u) = None \<Longrightarrow> up_AuthorizationRevision u = 0 \<Longrightarrow> write_ok U C node db rs (put_upload (up_ID u) u)"
| upload_changed: "upload_at db (up_ID v) = Some u \<Longrightarrow> same_authorization u v \<Longrightarrow> write_ok U C node db rs (put_upload (up_ID v) v)"
| upload_reauthorized: "upload_at db (up_ID u) = Some u \<Longrightarrow> up_AuthorizationRevision u \<noteq> - 1 \<Longrightarrow>
    up_AuthorizationActorID u = [] \<or> up_AuthorizationActorID u = actorID \<Longrightarrow> actorID \<noteq> [] \<Longrightarrow>
    write_ok U C node db rs (put_upload (up_ID u) (u\<lparr>up_AuthorizationActorID := actorID, up_AuthorizationCredentialID := credentialID,
      up_AuthorizationRevision := up_AuthorizationRevision u + 1\<rparr>))"
| upload_removed: "write_ok U C node db rs (tx_remove ''uploads'' k)"
| invite_new: "db_lookup db ''invites'' (inv_ID (invr_Invite r)) = None \<Longrightarrow> write_ok U C node db rs (put_invite (inv_ID (invr_Invite r)) r)"
| invite_revoked: "invite_at db (inv_ID (invr_Invite r)) = Some r \<Longrightarrow>
    write_ok U C node db rs (put_invite (inv_ID (invr_Invite r)) (r\<lparr>invr_Invite := (invr_Invite r)\<lparr>inv_Status := ''revoked'', inv_RevokedAt := Some now\<rparr>\<rparr>))"
| invite_consumed: "invite_at db (inv_ID (invr_Invite r)) = Some r \<Longrightarrow> inv_Status (invr_Invite r) = ''pending'' \<Longrightarrow>
    write_ok U C node db rs (put_invite (inv_ID (invr_Invite r)) (r\<lparr>invr_Invite := (invr_Invite r)\<lparr>inv_Status := ''consumed''\<rparr>\<rparr>))"
| request: "write_ok U C node db rs (put_request (prq_ID (reqr_Request r)) r)"
| peer: "write_ok U C node db rs (put_peer (peer_NodeID p) p)"
| grant: "write_ok U C node db rs (put_grant (gr_ID g) g)"
| grant_removed: "write_ok U C node db rs (tx_remove ''grants'' k)"
| mount: "write_ok U C node db rs (put_mount m)"
| mount_removed: "write_ok U C node db rs (tx_remove ''mounts'' k)"
| binding: "b \<in> {''mount_bindings'', ''grant_bindings''} \<Longrightarrow> db_lookup db b k = None \<or> val_at un_string db b k = Some s \<Longrightarrow>
    write_ok U C node db rs (put_val b k [] [] (VString s))"
| tombstone: "write_ok U C node db rs (tombstone k peerID)"
| token: "write_ok U C node db rs (put_token t)"
| trash: "validTrashItem i \<Longrightarrow> write_ok U C node db rs (put_val ''trash'' (tr_ID i) (tr_MountID i) (order_of (tr_DeletedAt i)) (VTrash i))"
| trash_removed: "write_ok U C node db rs (tx_remove ''trash'' k)"
| trust: "mt_RootPin t \<noteq> [] \<Longrightarrow> mt_Bundle t \<noteq> [] \<Longrightarrow> write_ok U C node db rs (put_val ''managed_trust'' ''current'' [] [] (VTrust t))"
| configuration: "write_ok U C node db rs (put_val ''configuration'' ''applied'' [] [] (VConfiguration c))"
| audit: "write_ok U C node db rs (audit_rec db n clock action resource snap)"

text \<open>One record for a job, a plan, a lease in a transaction.\<close>

definition keyed :: "node_rec list \<Rightarrow> bool" where
  "keyed rs \<longleftrightarrow> distinct (map rec_id (filter (\<lambda>r. rec_Bucket r \<in> {''jobs'', ''destructive_plans'', ''job_authorizations''}) rs))"

definition writes_ok :: "unicode_tables \<Rightarrow> crypto \<Rightarrow> string \<Rightarrow> node_db \<Rightarrow> node_rec list \<Rightarrow> bool" where
  "writes_ok U C node db rs \<longleftrightarrow> (\<forall>r\<in>set rs. write_ok U C node db rs r) \<and> keyed rs \<and> check_records (db_exists db) [] rs = None"

text \<open>The security version may rise and the configuration may become managed.\<close>

definition quiet :: "node_db \<Rightarrow> node_db \<Rightarrow> bool" where
  "quiet db db' \<longleftrightarrow> db_recs db' = db_recs db \<and> db_sequence db' = db_sequence db \<and> db_version db \<le> db_version db'"

inductive node_step :: "unicode_tables \<Rightarrow> crypto \<Rightarrow> string \<Rightarrow> node_db \<Rightarrow> node_db \<Rightarrow> bool"
  for U C node where
  quiet: "quiet db db' \<Longrightarrow> node_step U C node db db'"
| commit: "quiet db db1 \<Longrightarrow> writes_ok U C node db rs \<Longrightarrow> node_step U C node db (db_commit db1 rs)"

end
