(* ===== verification/Node_Laws.thy ===== *)
theory Node_Laws
  imports Node_Spec
begin

text \<open>
  What a transaction that keeps to \<open>write_ok\<close> leaves behind: the records keep their types, and the
  job, the plan, the lease found after it is the one found before or one that it wrote.
\<close>

subsection \<open>Fields of the records\<close>

lemmas write_defs = put_job_def put_plan_def put_auth_def put_item_def put_event_def Let_def put_upload_def put_invite_def put_request_def
  put_peer_def put_grant_def put_mount_def tombstone_def put_token_def audit_rec_def put_idempotency_def

lemma put_sel [simp]:
  "rec_Bucket (put_job j) = ''jobs''" "rec_Key (put_job j) = job_ID j" "\<not> rec_Delete (put_job j)" "rec_Data (put_job j) = Some (VJob j)"
  "rec_Bucket (put_plan p) = ''destructive_plans''" "rec_Key (put_plan p) = dp_ID p" "\<not> rec_Delete (put_plan p)" "rec_Data (put_plan p) = Some (VPlan p)"
  "rec_Bucket (put_auth a now) = ''job_authorizations''" "rec_Key (put_auth a now) = auth_JobID a" "\<not> rec_Delete (put_auth a now)"
  "rec_Data (put_auth a now) = Some (VAuthorization a)"
  "rec_Bucket (put_item i) = ''items''" "rec_Key (put_item i) = itemKey i" "\<not> rec_Delete (put_item i)"
  "rec_Bucket (put_event db e) = ''events''" "\<not> rec_Delete (put_event db e)"
  "rec_Bucket (put_upload k u) = ''uploads''" "rec_Key (put_upload k u) = k" "\<not> rec_Delete (put_upload k u)" "rec_Data (put_upload k u) = Some (VUpload u)"
  "rec_Bucket (put_invite k r) = ''invites''" "rec_Key (put_invite k r) = k" "\<not> rec_Delete (put_invite k r)" "rec_Data (put_invite k r) = Some (VInvite r)"
  "rec_Bucket (put_request k q) = ''requests''" "rec_Key (put_request k q) = k" "\<not> rec_Delete (put_request k q)"
  "rec_Bucket (put_peer k v) = ''peers''" "rec_Key (put_peer k v) = k" "\<not> rec_Delete (put_peer k v)" "rec_Data (put_peer k v) = Some (VPeer v)"
  "rec_Bucket (put_grant k g) = ''grants''" "rec_Key (put_grant k g) = k" "\<not> rec_Delete (put_grant k g)"
  "rec_Bucket (put_mount m) = ''mounts''" "rec_Key (put_mount m) = mnt_ID m" "\<not> rec_Delete (put_mount m)"
  "rec_Bucket (tombstone k pid) = ''revoked_grants''" "rec_Key (tombstone k pid) = k" "\<not> rec_Delete (tombstone k pid)"
  "rec_Data (tombstone k pid) = Some (VBool True)"
  "rec_Bucket (put_token t) = ''tokens''" "rec_Key (put_token t) = ''operational''" "\<not> rec_Delete (put_token t)" "rec_Data (put_token t) = Some (VToken t)"
  "rec_Bucket (audit_rec db n clock action resource snap) = ''audit''" "\<not> rec_Delete (audit_rec db n clock action resource snap)"
  "rec_Bucket (put_idempotency k jid h) = ''idempotency''" "rec_Key (put_idempotency k jid h) = k" "\<not> rec_Delete (put_idempotency k jid h)"
  "rec_Data (put_idempotency k jid h) = Some (VIdempotency \<lparr>idem_JobID = jid, idem_RequestHash = h\<rparr>)"
  by (simp_all add: write_defs)

lemma put_job_at_eq: "job_ID j = k \<Longrightarrow> put_job_at k j = put_job j"
  by (simp add: put_job_at_def put_job_def)

lemma put_inject [simp]:
  "put_job j = put_job j' \<longleftrightarrow> j = j'" "put_plan p = put_plan p' \<longleftrightarrow> p = p'"
  by (auto simp: put_job_def put_plan_def put_val_def tx_put_def)

lemma put_auth_inject: "put_auth a now = put_auth a' now' \<Longrightarrow> a = a'"
  by (auto simp: put_auth_def put_val_def tx_put_def)

subsection \<open>Values found\<close>

lemma val_at_lookup: "val_at un db b k = Option.bind (db_lookup db b k) (\<lambda>r. Option.bind (rec_Data r) un)"
  by (simp add: val_at_def get_as_lookup split: option.splits bind_splits)

lemma val_at_get: "get_as un db b k = Inr x \<Longrightarrow> val_at un db b k = Some x"
  by (simp add: val_at_def)

lemma val_at_Some_get: "val_at un db b k = Some x \<longleftrightarrow> get_as un db b k = Inr x"
  by (simp add: val_at_def split: sum.splits)

lemma val_at_None_lookup: "db_lookup db b k = None \<Longrightarrow> val_at un db b k = None"
  by (simp add: val_at_lookup)

lemma val_at_cong: "db_lookup db' b k = db_lookup db b k \<Longrightarrow> val_at un db' b k = val_at un db b k"
  by (simp add: val_at_lookup)

lemma quiet_lookup: "quiet db db' \<Longrightarrow> db_lookup db' b k = db_lookup db b k"
  by (simp add: quiet_def db_lookup_def)

lemma quiet_refl [simp]: "quiet db db"
  by (simp add: quiet_def)

lemma quiet_ensure [simp]: "quiet db (ensureSecurityVersion n db)"
  by (simp add: quiet_def ensureSecurityVersion_def)

lemma quiet_managed [simp]: "quiet db (db\<lparr>db_managed := m\<rparr>)"
  by (simp add: quiet_def)

lemma quiet_commit: "quiet db db1 \<Longrightarrow> db_lookup (db_commit db1 rs) b k = db_lookup (db_commit db rs) b k"
  by (simp add: db_lookup_commit quiet_lookup)

subsection \<open>Types\<close>

lemma typed_lookup: "typed_db db \<Longrightarrow> db_lookup db b k = Some r \<Longrightarrow> rec_Bucket r = b \<and> rec_Key r = k \<and> well_typed r"
  by (simp add: typed_db_def)

lemma typed_job: "typed_db db \<Longrightarrow> get_job db k = Inr j \<Longrightarrow> job_ID j = k"
  by (auto simp: get_as_Inr_iff well_typed_def dest!: typed_lookup)

lemma typed_upload: "typed_db db \<Longrightarrow> get_upload db k = Inr u \<Longrightarrow> up_ID u = k"
  by (auto simp: get_as_Inr_iff well_typed_def dest!: typed_lookup)

lemma typed_plan: "typed_db db \<Longrightarrow> get_plan db k = Inr p \<Longrightarrow> dp_ID p = k"
  by (auto simp: get_as_Inr_iff well_typed_def dest!: typed_lookup)

lemma typed_auth: "typed_db db \<Longrightarrow> get_auth db k = Inr a \<Longrightarrow> auth_JobID a = k"
  by (auto simp: get_as_Inr_iff well_typed_def dest!: typed_lookup)

lemma typed_peer: "typed_db db \<Longrightarrow> get_peer db k = Inr p \<Longrightarrow> peer_NodeID p = k"
  by (auto simp: get_as_Inr_iff well_typed_def dest!: typed_lookup)

lemma typed_invite: "typed_db db \<Longrightarrow> get_as un_invite db ''invites'' k = Inr r \<Longrightarrow> inv_ID (invr_Invite r) = k"
  by (auto simp: get_as_Inr_iff well_typed_def dest!: typed_lookup)

lemma typed_request: "typed_db db \<Longrightarrow> get_as un_request db ''requests'' k = Inr r \<Longrightarrow> prq_ID (reqr_Request r) = k"
  by (auto simp: get_as_Inr_iff well_typed_def dest!: typed_lookup)

lemma typed_grant: "typed_db db \<Longrightarrow> get_grant db k = Inr g \<Longrightarrow> gr_ID g = k"
  by (auto simp: get_as_Inr_iff well_typed_def dest!: typed_lookup)

lemmas typed_values = typed_job typed_upload typed_plan typed_auth typed_peer typed_invite typed_request typed_grant

text \<open>In a typed state a read fails only because there is no record.\<close>

lemma fits_bucket:
  "fits ''jobs'' k v \<Longrightarrow> \<exists>j. v = VJob j" "fits ''destructive_plans'' k v \<Longrightarrow> \<exists>p. v = VPlan p"
  "fits ''job_authorizations'' k v \<Longrightarrow> \<exists>a. v = VAuthorization a" "fits ''idempotency'' k v \<Longrightarrow> \<exists>r. v = VIdempotency r"
  "fits ''destructive_idempotency'' k v \<Longrightarrow> \<exists>r. v = VIdempotency r" "fits ''items'' k v \<Longrightarrow> \<exists>i. v = VItem i"
  "fits ''events'' k v \<Longrightarrow> \<exists>e. v = VEvent e" "fits ''uploads'' k v \<Longrightarrow> \<exists>u. v = VUpload u"
  "fits ''peers'' k v \<Longrightarrow> \<exists>pe. v = VPeer pe" "fits ''invites'' k v \<Longrightarrow> \<exists>iv. v = VInvite iv"
  "fits ''requests'' k v \<Longrightarrow> \<exists>rq. v = VRequest rq" "fits ''grants'' k v \<Longrightarrow> \<exists>g. v = VGrant g"
  "fits ''mounts'' k v \<Longrightarrow> \<exists>m. v = VMount m" "fits ''trash'' k v \<Longrightarrow> \<exists>t. v = VTrash t"
  "fits ''tokens'' k v \<Longrightarrow> \<exists>tk. v = VToken tk" "fits ''managed_trust'' k v \<Longrightarrow> \<exists>mt. v = VTrust mt"
  "fits ''mount_bindings'' k v \<Longrightarrow> \<exists>s. v = VString s" "fits ''grant_bindings'' k v \<Longrightarrow> \<exists>s. v = VString s"
  "fits ''configuration'' k v \<Longrightarrow> \<exists>c. v = VConfiguration c"
  by (cases v; simp)+

definition reads_bucket :: "(stval \<Rightarrow> 'a option) \<Rightarrow> string \<Rightarrow> bool" where
  "reads_bucket un b \<longleftrightarrow> (\<forall>k v. fits b k v \<longrightarrow> un v \<noteq> None)"

lemma reads_buckets [simp]:
  "reads_bucket un_job ''jobs''" "reads_bucket un_plan ''destructive_plans''" "reads_bucket un_auth ''job_authorizations''"
  "reads_bucket un_idem ''idempotency''" "reads_bucket un_idem ''destructive_idempotency''" "reads_bucket un_item ''items''"
  "reads_bucket un_event ''events''" "reads_bucket un_upload ''uploads''" "reads_bucket un_peer ''peers''"
  "reads_bucket un_invite ''invites''" "reads_bucket un_request ''requests''" "reads_bucket un_grant ''grants''"
  "reads_bucket un_mount ''mounts''" "reads_bucket un_trash ''trash''" "reads_bucket un_token ''tokens''"
  "reads_bucket un_trust ''managed_trust''" "reads_bucket un_string ''mount_bindings''" "reads_bucket un_string ''grant_bindings''"
  "reads_bucket un_configuration ''configuration''"
  by (auto simp: reads_bucket_def dest: fits_bucket)

lemma typed_get:
  assumes "typed_db db" "reads_bucket un b"
  shows "get_as un db b k = (case db_lookup db b k of None \<Rightarrow> Inl ErrNotFound | Some r \<Rightarrow> Inr (the (un (the (rec_Data r)))))"
proof (cases "db_lookup db b k")
  case None
  then show ?thesis by (simp add: get_as_lookup)
next
  case (Some r)
  then obtain v where "rec_Data r = Some v" "fits b k v"
    using typed_lookup [OF assms(1) Some] by (auto simp: well_typed_def split: option.splits)
  then show ?thesis using Some assms(2) by (force simp: get_as_lookup reads_bucket_def split: option.splits)
qed

lemma typed_get_all:
  assumes "typed_db db" "reads_bucket un b" "\<And>k. k \<in> set ks \<Longrightarrow> db_exists db b k"
  shows "\<exists>xs. get_all un db b ks = Inr xs"
  using assms(3)
proof (induction ks)
  case (Cons k ks)
  then obtain xs r where "get_all un db b ks = Inr xs" "db_lookup db b k = Some r" by (meson list.set_intros not_Some_eq)
  then show ?case by (simp add: typed_get [OF assms(1,2)])
qed simp

lemma typed_val_None: "typed_db db \<Longrightarrow> reads_bucket un b \<Longrightarrow> val_at un db b k = None \<longleftrightarrow> db_lookup db b k = None"
  by (simp add: val_at_def typed_get split: option.splits)

lemma write_ok_typed:
  assumes "write_ok U C node db rs r" "\<not> rec_Delete r" "rec_Key r \<noteq> []"
  shows "well_typed r"
  using assms by (cases rule: write_ok.cases) (auto simp: well_typed_def write_defs)

lemma writes_ok_commit_cases:
  assumes "writes_ok U C node db rs" "db_lookup (db_commit db rs) b k = Some r"
  obtains (old) "db_lookup db b k = Some r"
    | (new) "r \<in> set rs" "rec_id r = (b, k)" "\<not> rec_Delete r" "write_ok U C node db rs r" "well_typed r"
proof -
  have "db_lookup db b k = Some r \<or> r \<in> set rs \<and> rec_id r = (b, k) \<and> \<not> rec_Delete r"
    using put_recs_cases [of "\<lambda>bk. db_lookup db (fst bk) (snd bk)" rs "(b, k)" r] assms(2) by (simp add: db_lookup_commit)
  moreover have "write_ok U C node db rs r \<and> well_typed r" if "r \<in> set rs" "\<not> rec_Delete r"
    using assms(1) that check_records_identity [of "db_exists db" "[]" rs r] write_ok_typed [of U C node db rs r]
    by (simp add: writes_ok_def)
  ultimately show thesis using old new by blast
qed

lemma typed_db_quiet: "quiet db db' \<Longrightarrow> typed_db db' \<longleftrightarrow> typed_db db"
  by (simp add: typed_db_def quiet_lookup)

lemma typed_db_commit: "typed_db db \<Longrightarrow> writes_ok U C node db rs \<Longrightarrow> typed_db (db_commit db rs)"
  by (auto simp: typed_db_def elim!: writes_ok_commit_cases)

subsection \<open>Jobs, plans and leases after a transaction\<close>

abbreviation keyed_bucket :: "string \<Rightarrow> bool" where
  "keyed_bucket b \<equiv> b \<in> {''jobs'', ''destructive_plans'', ''job_authorizations''}"

lemma distinct_filter_id:
  "distinct (map f (filter P rs)) \<Longrightarrow> r \<in> set rs \<Longrightarrow> P r \<Longrightarrow> (\<And>q. f q = f r \<Longrightarrow> P q) \<Longrightarrow> filter (\<lambda>q. f q = f r) rs = [r]"
proof (induction rs)
  case (Cons x xs)
  have none: "filter (\<lambda>q. f q = f r) xs = []" if "f x = f r" "P x"
    using Cons.prems(1,4) that by (simp add: filter_empty_conv image_iff) metis
  show ?case
  proof (cases "x = r")
    case True
    then show ?thesis using none Cons.prems(3) by simp
  next
    case False
    then have r: "r \<in> set xs" using Cons.prems(2) by simp
    then have "f x \<noteq> f r" using Cons.prems(1,3,4) by (auto simp: image_iff split: if_splits)
    then show ?thesis using Cons r by (auto split: if_splits)
  qed
qed simp

lemma keyed_lookup:
  assumes "keyed rs" "r \<in> set rs" "keyed_bucket (rec_Bucket r)"
  shows "db_lookup (db_commit db rs) (rec_Bucket r) (rec_Key r) = (if rec_Delete r then None else Some r)"
proof -
  have "filter (\<lambda>q. rec_id q = rec_id r) rs = [r]"
    using assms by (intro distinct_filter_id [where P = "\<lambda>r. keyed_bucket (rec_Bucket r)"]) (auto simp: keyed_def)
  then show ?thesis by (simp add: db_lookup_commit put_recs_last)
qed

lemma unwritten_lookup:
  "(\<And>r. r \<in> set rs \<Longrightarrow> rec_id r \<noteq> (b, k)) \<Longrightarrow> db_lookup (db_commit db rs) b k = db_lookup db b k"
  by (subst db_lookup_commit, subst put_recs_other) auto

text \<open>What is found under a key after a transaction: the record before, or the last one written for it.\<close>

lemma commit_lookup_cases:
  obtains (kept) "db_lookup (db_commit db rs) b k = db_lookup db b k" "\<And>r. r \<in> set rs \<Longrightarrow> rec_id r \<noteq> (b, k)"
    | (written) r where "r \<in> set rs" "rec_Bucket r = b" "rec_Key r = k"
        "db_lookup (db_commit db rs) b k = (if rec_Delete r then None else Some r)"
proof (cases "filter (\<lambda>r. rec_id r = (b, k)) rs = []")
  case True
  then have "rec_id r \<noteq> (b, k)" if "r \<in> set rs" for r using that by (metis (mono_tags, lifting) filter_empty_conv)
  then show thesis using kept unwritten_lookup by blast
next
  case False
  let ?mine = "filter (\<lambda>r. rec_id r = (b, k)) rs"
  have "last ?mine \<in> set ?mine" using False by (rule last_in_set)
  moreover have "db_lookup (db_commit db rs) b k = (if rec_Delete (last ?mine) then None else Some (last ?mine))"
    using False by (cases ?mine) (simp_all add: db_lookup_commit put_recs_last)
  ultimately show thesis using written [of "last ?mine"] by simp
qed

lemma write_job:
  assumes "write_ok U C node db rs r" "rec_Bucket r = ''jobs''"
  obtains j where "r = put_job j" "job_change U C node db rs (job_at db (job_ID j)) j"
  using assms by (cases rule: write_ok.cases) auto

inductive plan_change :: "node_db \<Rightarrow> node_rec list \<Rightarrow> destructive_plan option \<Rightarrow> destructive_plan option \<Rightarrow> bool" for db rs where
  new: "dp_ConsumedJobID p = [] \<Longrightarrow> plan_change db rs None (Some p)"
| consumed: "dp_ConsumedJobID p = [] \<Longrightarrow> put_job j \<in> set rs \<Longrightarrow> job_at db (job_ID j) = None \<Longrightarrow> job_ID j \<noteq> [] \<Longrightarrow>
    job_DestructivePlanID j = dp_ID p \<Longrightarrow>
    plan_change db rs (Some p) (Some (p\<lparr>dp_ConsumedJobID := job_ID j, dp_IdempotencyKey := key, dp_RequestHash := hash\<rparr>))"
| purged: "dp_ConsumedJobID p = [] \<Longrightarrow> dp_ExpiresAt p \<le> now \<Longrightarrow> plan_change db rs (Some p) None"

inductive auth_change :: "unicode_tables \<Rightarrow> crypto \<Rightarrow> string \<Rightarrow> node_db \<Rightarrow> node_rec list \<Rightarrow> job_authorization option \<Rightarrow> job_authorization \<Rightarrow> bool"
  for U C node db rs where
  first: "job_at db (auth_JobID a) = Some j \<Longrightarrow> \<not> job_SignedAuthBound j \<Longrightarrow> put_job (renewed_job j now) \<in> set rs \<Longrightarrow> auth_Revision a = 1 \<Longrightarrow>
    lease_ok U C node db j a \<Longrightarrow> auth_change U C node db rs None a"
| later: "job_at db (auth_JobID a) = Some j \<Longrightarrow> job_SignedAuthBound j \<Longrightarrow> auth_Revision old \<noteq> - 1 \<Longrightarrow>
    auth_Revision a = auth_Revision old + 1 \<Longrightarrow> auth_Binding a = auth_Binding old \<Longrightarrow> lease_ok U C node db j a \<Longrightarrow>
    auth_change U C node db rs (Some old) a"

lemma write_plan:
  assumes "write_ok U C node db rs r" "rec_Bucket r = ''destructive_plans''"
  shows "plan_change db rs (plan_at db (rec_Key r)) (if rec_Delete r then None else Option.bind (rec_Data r) un_plan)"
  using assms by (cases rule: write_ok.cases) (auto intro: plan_change.intros)

lemma write_auth:
  assumes "write_ok U C node db rs r" "rec_Bucket r = ''job_authorizations''"
  shows "\<exists>a now. r = put_auth a now \<and> auth_change U C node db rs (auth_at db (auth_JobID a)) a"
  using assms(1)
proof (cases rule: write_ok.cases)
  case (auth_first a j now)
  then show ?thesis by (metis auth_change.first)
next
  case (auth_next a old j now)
  then show ?thesis by (metis auth_change.later)
qed (use assms(2) in auto)

text \<open>The job under a key after the transaction, against the one before.\<close>

inductive after_job :: "unicode_tables \<Rightarrow> crypto \<Rightarrow> string \<Rightarrow> node_db \<Rightarrow> node_rec list \<Rightarrow> string \<Rightarrow> job option \<Rightarrow> job option \<Rightarrow> bool"
  for U C node db rs k where
  kept: "(\<And>j. put_job j \<in> set rs \<Longrightarrow> job_ID j \<noteq> k) \<Longrightarrow> after_job U C node db rs k old old"
| changed: "put_job j \<in> set rs \<Longrightarrow> job_ID j = k \<Longrightarrow> job_change U C node db rs old j \<Longrightarrow> after_job U C node db rs k old (Some j)"

lemma after_job_commit:
  assumes "writes_ok U C node db rs"
  shows "after_job U C node db rs k (job_at db k) (job_at (db_commit db rs) k)"
proof (cases "\<exists>r\<in>set rs. rec_id r = (''jobs'', k)")
  case True
  then obtain r where r: "r \<in> set rs" "rec_Bucket r = ''jobs''" "rec_Key r = k" by auto
  with assms obtain j where j: "r = put_job j" "job_change U C node db rs (job_at db (job_ID j)) j"
    by (auto simp: writes_ok_def elim: write_job)
  have "job_at (db_commit db rs) k = Some j"
    using keyed_lookup [of rs r db] assms r j by (simp add: writes_ok_def val_at_lookup)
  then show ?thesis using r j by (auto intro: changed)
next
  case False
  then have "job_at (db_commit db rs) k = job_at db k"
    by (intro val_at_cong unwritten_lookup) auto
  moreover have "job_ID j \<noteq> k" if "put_job j \<in> set rs" for j using False that by auto
  ultimately show ?thesis by (simp add: kept)
qed

lemma put_job_found: "writes_ok U C node db rs \<Longrightarrow> put_job j \<in> set rs \<Longrightarrow> job_at (db_commit db rs) (job_ID j) = Some j"
  using keyed_lookup [of rs "put_job j" db] by (simp add: writes_ok_def val_at_lookup)

lemma put_plan_found: "writes_ok U C node db rs \<Longrightarrow> put_plan p \<in> set rs \<Longrightarrow> plan_at (db_commit db rs) (dp_ID p) = Some p"
  using keyed_lookup [of rs "put_plan p" db] by (simp add: writes_ok_def val_at_lookup)

lemma put_auth_found: "writes_ok U C node db rs \<Longrightarrow> put_auth a now \<in> set rs \<Longrightarrow> auth_at (db_commit db rs) (auth_JobID a) = Some a"
  using keyed_lookup [of rs "put_auth a now" db] by (simp add: writes_ok_def val_at_lookup)

lemma after_plan_commit:
  assumes "writes_ok U C node db rs"
  obtains (kept) "plan_at (db_commit db rs) k = plan_at db k" "\<And>p. put_plan p \<in> set rs \<Longrightarrow> dp_ID p \<noteq> k"
    | (changed) "plan_change db rs (plan_at db k) (plan_at (db_commit db rs) k)"
proof (cases "\<exists>r\<in>set rs. rec_id r = (''destructive_plans'', k)")
  case True
  then obtain r where r: "r \<in> set rs" "rec_Bucket r = ''destructive_plans''" "rec_Key r = k" by auto
  have "plan_at (db_commit db rs) k = (if rec_Delete r then None else Option.bind (rec_Data r) un_plan)"
    using keyed_lookup [of rs r db] assms r by (simp add: writes_ok_def val_at_lookup)
  then show thesis using changed write_plan [of U C node db rs r] assms r by (simp add: writes_ok_def)
next
  case False
  then have "plan_at (db_commit db rs) k = plan_at db k"
    by (intro val_at_cong unwritten_lookup) auto
  moreover have "dp_ID p \<noteq> k" if "put_plan p \<in> set rs" for p using False that by auto
  ultimately show thesis using kept by blast
qed

lemma after_auth_commit:
  assumes "writes_ok U C node db rs"
  obtains (kept) "auth_at (db_commit db rs) k = auth_at db k" "\<And>a now. put_auth a now \<in> set rs \<Longrightarrow> auth_JobID a \<noteq> k"
    | (changed) a now where "put_auth a now \<in> set rs" "auth_JobID a = k" "auth_at (db_commit db rs) k = Some a"
        "auth_change U C node db rs (auth_at db k) a"
proof (cases "\<exists>r\<in>set rs. rec_id r = (''job_authorizations'', k)")
  case True
  then obtain r where r: "r \<in> set rs" "rec_Bucket r = ''job_authorizations''" "rec_Key r = k" by auto
  with assms obtain a now where a: "r = put_auth a now" "auth_change U C node db rs (auth_at db (auth_JobID a)) a"
    using write_auth [of U C node db rs r] by (auto simp: writes_ok_def)
  then show thesis using changed [of a now] put_auth_found [OF assms, of a now] r by auto
next
  case False
  then have "auth_at (db_commit db rs) k = auth_at db k"
    by (intro val_at_cong unwritten_lookup) auto
  moreover have "auth_JobID a \<noteq> k" if "put_auth a now \<in> set rs" for a now using False that by auto
  ultimately show thesis using kept by blast
qed

end
