(* ===== verification/Node_Ops.thy ===== *)
theory Node_Ops
  imports Node_Laws
begin

text \<open>
  The operations of the node state are transactions of the specification: \<open>node_op\<close> has one rule per
  operation that writes, and each of them is a \<open>node_step\<close>.
\<close>

subsection \<open>From a body to a step\<close>

definition allowed :: "unicode_tables \<Rightarrow> crypto \<Rightarrow> string \<Rightarrow> node_db \<Rightarrow> node_rec list \<Rightarrow> bool" where
  "allowed U C node db rs \<longleftrightarrow> (\<forall>r\<in>set rs. write_ok U C node db rs r) \<and> keyed rs"

lemma update_step:
  assumes "db_update db f = (res, db')" "quiet db (snd (f db))"
    and "\<And>rs x. fst (f db) = Inr (rs, x) \<Longrightarrow> allowed U C node db rs"
  shows "node_step U C node db db'"
  using assms(1)
proof (cases rule: db_update_cases)
  case unwritten
  then show ?thesis using assms(2) by (simp add: node_step.quiet)
next
  case (written rs x)
  have "db_exists (snd (f db)) = db_exists db" using assms(2) by (simp add: quiet_lookup fun_eq_iff)
  then have "writes_ok U C node db rs"
    using assms(3) [OF written(1)] written(4) by (simp add: writes_ok_def allowed_def)
  then show ?thesis using written(5) assms(2) by (simp add: node_step.commit)
qed

lemma plain_step:
  assumes "db_update db (plain g) = (res, db')"
    and "\<And>rs x. g db = Inr (rs, x) \<Longrightarrow> allowed U C node db rs"
  shows "node_step U C node db db'"
  using assms by (intro update_step [of db "plain g" res db']) (simp_all add: plain_def)

lemma idle_step: "node_step U C node db db"
  by (simp add: node_step.quiet)

lemma keyed_Nil [simp]: "keyed []"
  by (simp add: keyed_def)

lemma keyed_Cons: "keyed (r # rs) \<longleftrightarrow> (keyed_bucket (rec_Bucket r) \<longrightarrow> (\<forall>q\<in>set rs. rec_id q \<noteq> rec_id r)) \<and> keyed rs"
proof (cases "keyed_bucket (rec_Bucket r)")
  case True
  then have "rec_id r \<in> rec_id ` {q \<in> set rs. keyed_bucket (rec_Bucket q)} \<longleftrightarrow> (\<exists>q\<in>set rs. rec_id q = rec_id r)"
    by (auto simp: image_iff)
  with True show ?thesis by (simp add: keyed_def del: insert_iff)
qed (simp add: keyed_def)

lemma keyed_simps [simp]:
  "\<not> keyed_bucket (rec_Bucket r) \<Longrightarrow> keyed (r # rs) = keyed rs"
  "keyed_bucket (rec_Bucket r) \<Longrightarrow> keyed (r # rs) \<longleftrightarrow> (\<forall>q\<in>set rs. rec_id q \<noteq> rec_id r) \<and> keyed rs"
  by (simp_all add: keyed_Cons)

lemma allowed_Nil [simp]: "allowed U C node db []"
  by (simp add: allowed_def)

lemma keyed_unkeyed: "(\<And>r. r \<in> set rs \<Longrightarrow> \<not> keyed_bucket (rec_Bucket r)) \<Longrightarrow> keyed rs"
  by (induction rs) auto

lemma keyed_append: "(\<And>r. r \<in> set qs \<Longrightarrow> \<not> keyed_bucket (rec_Bucket r)) \<Longrightarrow> keyed (rs @ qs) = keyed rs"
proof -
  assume "\<And>r. r \<in> set qs \<Longrightarrow> \<not> keyed_bucket (rec_Bucket r)"
  then have "filter (\<lambda>r. keyed_bucket (rec_Bucket r)) qs = []" by (simp add: filter_empty_conv)
  then show ?thesis by (simp add: keyed_def)
qed

lemma ValidKeyID_nonempty: "ValidKeyID v \<Longrightarrow> v \<noteq> []"
  by (auto simp: ValidKeyID_def sa_identifier_def)

subsection \<open>Jobs\<close>

lemma item_puts_items: "item_puts jid seen its = Inr rs \<Longrightarrow> r \<in> set rs \<Longrightarrow> \<exists>i. r = put_item i"
  by (induction jid seen its arbitrary: rs rule: item_puts.induct) (auto simp: Let_def split: if_splits sum.splits)

lemma item_puts_bucket: "item_puts jid seen its = Inr rs \<Longrightarrow> r \<in> set rs \<Longrightarrow> rec_Bucket r = ''items'' \<and> write_ok U C node db qs r"
  using item_puts_items by (metis put_sel write_ok.item)

lemma write_idempotency:
  "db_lookup db ''idempotency'' k = None \<Longrightarrow> put_job j \<in> set rs \<Longrightarrow> write_ok U C node db rs (put_idempotency k (job_ID j) hash)"
  unfolding put_idempotency_def by (rule write_ok.idempotency) auto

lemma create_new_job_ok:
  assumes "create_new_job j items key hash db = Inr (rs, x)" "unsecured j" "job_SignedAuthActorID j = []" "job_SignedAuthCredentialID j = []"
    and "key \<noteq> [] \<Longrightarrow> db_lookup db ''idempotency'' key = None"
  shows "allowed U C node db rs"
proof -
  obtain its where its: "item_puts (job_ID j) [] items = Inr its" and new: "db_lookup db ''jobs'' (job_ID j) = None"
    and rs: "rs = put_job j # its @ (if key \<noteq> [] then [put_idempotency key (job_ID j) hash] else [])"
    using assms(1) by (auto simp: create_new_job_def split: if_splits sum.splits)
  have job: "write_ok U C node db rs (put_job j)"
    using assms(2-4) new by (auto simp: val_at_None_lookup intro!: write_ok.job job_change.created)
  have "write_ok U C node db rs r" if "r \<in> set rs" for r
    using that job item_puts_bucket [OF its, of r U C node db rs] write_idempotency [of db key j rs U C node hash] assms(5)
    by (cases "r \<in> set its") (auto simp: rs split: if_splits)
  moreover have "keyed rs"
    using item_puts_bucket [OF its] by (auto simp: rs keyed_append intro!: keyed_unkeyed split: if_splits)
  ultimately show ?thesis by (simp add: allowed_def)
qed

lemma CreateJobWithItemsHashed_step:
  assumes "CreateJobWithItemsHashed j items key hash db = (res, db')"
  shows "node_step U C node db db'"
proof (cases "\<not> unsecured j \<or> job_SignedAuthActorID j \<noteq> [] \<or> job_SignedAuthCredentialID j \<noteq> []")
  case True
  then show ?thesis using assms by (auto simp: CreateJobWithItemsHashed_def idle_step)
next
  case False
  show ?thesis
    using assms False unfolding CreateJobWithItemsHashed_def
    by (auto elim!: plain_step create_new_job_ok simp: get_as_NotFound_iff split: if_splits sum.splits)
qed

lemma allowed_items:
  assumes "allowed U C node db qs" "item_puts jid seen its = Inr rs"
  shows "keyed (qs @ rs)"
  using assms item_puts_bucket [OF assms(2)] by (subst keyed_append) (auto simp: allowed_def)

lemma consumeMovePlan_ok:
  assumes "consumeMovePlan db b actorID j key hash = Inr (r, j1)" "typed_db db"
  obtains p where "plan_at db (dp_ID p) = Some p" "dp_ConsumedJobID p = []" "j1 = j\<lparr>job_DestructivePlanID := dp_ID p\<rparr>"
    "r = put_plan (p\<lparr>dp_ConsumedJobID := job_ID j, dp_IdempotencyKey := key, dp_RequestHash := hash\<rparr>)"
proof -
  obtain p where p: "get_plan db (mpb_PlanID b) = Inr p" "dp_ConsumedJobID p = []" "j1 = j\<lparr>job_DestructivePlanID := dp_ID p\<rparr>"
    "r = put_plan (p\<lparr>dp_ConsumedJobID := job_ID j, dp_IdempotencyKey := key, dp_RequestHash := hash\<rparr>)"
    using assms(1) by (auto simp: consumeMovePlan_def split: sum.splits if_splits)
  then have "plan_at db (dp_ID p) = Some p" using typed_plan [OF assms(2) p(1)] by (simp add: val_at_get)
  then show thesis using that p by blast
qed

text \<open>A new secured job, with the plan it consumes if it has one.\<close>

lemma create_secured_records_ok:
  assumes "typed_db db" "job_at db (job_ID j) = None" "job_ID j \<noteq> []" "unsecured j"
    and "db_lookup db ''idempotency'' key = None" "item_puts (job_ID j) [] items = Inr its"
    and consumed: "consumed = [] \<and> j1 = j \<or> (\<exists>b r. consumeMovePlan db b actorID j key hash = Inr (r, j1) \<and> consumed = [r])"
    and rs: "rs = consumed @ put_job (await_authorization j1 actorID credentialID) # its @ [put_idempotency key (job_ID j) hash]"
  shows "allowed U C node db rs"
proof -
  let ?j = "await_authorization j1 actorID credentialID"
  have plan: "consumed = [] \<and> j1 = j \<or> (\<exists>p. plan_at db (dp_ID p) = Some p \<and> dp_ConsumedJobID p = [] \<and> j1 = j\<lparr>job_DestructivePlanID := dp_ID p\<rparr>
    \<and> consumed = [put_plan (p\<lparr>dp_ConsumedJobID := job_ID j, dp_IdempotencyKey := key, dp_RequestHash := hash\<rparr>)])"
    using consumed assms(1) by (metis consumeMovePlan_ok)
  then have j1: "job_ID ?j = job_ID j" "job_ID j1 = job_ID j" "\<not> job_SignedAuthBound j1"
    using assms(4) by (auto simp: await_authorization_def unsecured_def)
  have "job_change U C node db rs None ?j"
  proof (rule job_change.awaiting)
    show "job_DestructivePlanID j1 = [] \<or> (\<exists>p. put_plan p \<in> set rs \<and> dp_ID p = job_DestructivePlanID j1 \<and> dp_ConsumedJobID p = job_ID j1)"
      using plan assms(4) by (fastforce simp: unsecured_def rs)
  qed (use j1 assms(3) in simp_all)
  then have "write_ok U C node db rs (put_job ?j)"
    using assms(2) j1 by (intro write_ok.job) simp
  moreover have "write_ok U C node db rs r" if m: "r \<in> set consumed" for r
  proof -
    have mem: "put_job ?j \<in> set rs" by (simp add: rs)
    obtain p where p: "plan_at db (dp_ID p) = Some p" "dp_ConsumedJobID p = []" "j1 = j\<lparr>job_DestructivePlanID := dp_ID p\<rparr>"
      "r = put_plan (p\<lparr>dp_ConsumedJobID := job_ID ?j, dp_IdempotencyKey := key, dp_RequestHash := hash\<rparr>)"
      using plan m j1 by (cases "consumed = []") auto
    show ?thesis unfolding p(4)
      by (rule write_ok.plan_consumed [OF p(1,2) mem]) (use j1 assms(2,3) p(3) in \<open>simp_all add: await_authorization_def\<close>)
  qed
  moreover have "write_ok U C node db rs (put_idempotency key (job_ID j) hash)"
    using write_idempotency [of db key ?j rs U C node hash] assms(5) j1 by (simp add: rs)
  moreover have "write_ok U C node db rs r \<and> rec_Bucket r = ''items''" if "r \<in> set its" for r
    using item_puts_bucket [OF assms(6) that] by blast
  ultimately have "\<forall>r\<in>set rs. write_ok U C node db rs r" by (auto simp: rs)
  moreover have "keyed rs"
  proof -
    have items: "rec_Bucket r = ''items''" if "r \<in> set its" for r using item_puts_bucket [OF assms(6) that] by blast
    then have "keyed (its @ [put_idempotency key (job_ID j) hash])" by (intro keyed_unkeyed) auto
    then show ?thesis using plan by (auto simp: rs items)
  qed
  ultimately show ?thesis by (simp add: allowed_def)
qed

lemma createJobAwaitingAuthorization_step:
  assumes "createJobAwaitingAuthorization j items actorID credentialID key hash plan db = (res, db')" "typed_db db"
  shows "node_step U C node db db'"
proof (cases "\<not> ValidKeyID (job_ID j) \<or> \<not> ValidKeyID (job_MountID j) \<or> \<not> ValidKeyID actorID \<or> \<not> ValidKeyID credentialID
    \<or> key = [] \<or> hash = [] \<or> job_State j \<noteq> ''queued'' \<or> \<not> unsecured j \<or> job_SignedAuthActorID j \<noteq> [] \<or> job_SignedAuthCredentialID j \<noteq> []")
  case True
  then show ?thesis using assms(1) by (simp add: createJobAwaitingAuthorization_def idle_step)
next
  case False
  let ?f = "create_secured_body j items actorID credentialID key hash plan"
  have "db_update db ?f = (res, db')" using assms(1) False by (simp add: createJobAwaitingAuthorization_def)
  then show ?thesis
  proof (rule update_step)
    show "quiet db (snd (?f db))" by (simp add: create_secured_body_def split: sum.splits)
    fix rs x assume rs: "fst (?f db) = Inr (rs, x)"
    show "allowed U C node db rs"
    proof (cases "get_as un_idem db ''idempotency'' key")
      case (Inr previous)
      with rs show ?thesis by (auto simp: create_secured_body_def split: if_splits sum.splits)
    next
      case (Inl e)
      with rs have new: "db_lookup db ''idempotency'' key = None" "db_lookup db ''jobs'' (job_ID j) = None"
        by (auto simp: create_secured_body_def get_as_NotFound_iff split: if_splits)
      let ?plan = "case plan of None \<Rightarrow> Inr ([], j)
        | Some b \<Rightarrow> (case consumeMovePlan db b actorID j key hash of Inl e \<Rightarrow> Inl e | Inr (r, j') \<Rightarrow> Inr ([r], j'))"
      from rs Inl obtain consumed j1 its where plan: "?plan = Inr (consumed, j1)" and
        "item_puts (job_ID j1) [] items = Inr its"
        "rs = consumed @ put_job (await_authorization j1 actorID credentialID) # its @ [put_idempotency key (job_ID j1) hash]"
        by (cases ?plan) (auto simp: create_secured_body_def await_authorization_def Let_def split: if_splits sum.splits)
      moreover have "consumed = [] \<and> j1 = j \<or> (\<exists>b r. consumeMovePlan db b actorID j key hash = Inr (r, j1) \<and> consumed = [r])"
        using plan by (auto split: option.splits sum.splits)
      moreover from this have "job_ID j1 = job_ID j"
        using assms(2) by (auto elim!: consumeMovePlan_ok)
      ultimately show ?thesis
        using create_secured_records_ok [OF assms(2), of j key items its consumed j1 actorID hash rs credentialID U C node] False new
        by (auto simp: val_at_None_lookup dest: ValidKeyID_nonempty)
    qed
  qed
qed

lemma updated_job_ok:
  assumes "updated_job j db = Inr r" "typed_db db"
  shows "write_ok U C node db rs r \<and> (\<exists>j'. r = put_job j')"
proof -
  obtain old where old: "get_job db (job_ID j) = Inr old" "validSecuredJobUpdate old j" "r = put_job (j\<lparr>job_CreatedAt := job_CreatedAt old\<rparr>)"
    using assms(1) by (auto simp: updated_job_def split: sum.splits if_splits)
  have "job_change U C node db rs (Some old) (j\<lparr>job_CreatedAt := job_CreatedAt old\<rparr>)"
    using old typed_job [OF assms(2) old(1)] by (intro job_change.updated) simp_all
  then have "write_ok U C node db rs (put_job (j\<lparr>job_CreatedAt := job_CreatedAt old\<rparr>))"
    using val_at_get [OF old(1)] by (intro write_ok.job) simp
  then show ?thesis using old(3) by blast
qed

lemma UpdateJob_step: "UpdateJob j db = (res, db') \<Longrightarrow> typed_db db \<Longrightarrow> node_step U C node db db'"
  unfolding UpdateJob_def
  by (erule plain_step) (auto simp: allowed_def updated_job_ok split: sum.splits dest: updated_job_ok)

lemma UpdateJobWithEvent_step: "UpdateJobWithEvent j ev db = (res, db') \<Longrightarrow> typed_db db \<Longrightarrow> node_step U C node db db'"
  unfolding UpdateJobWithEvent_def
  by (erule plain_step) (auto simp: allowed_def updated_job_ok write_ok.event split: sum.splits if_splits dest: updated_job_ok)

lemma put_job_change:
  "get_job db k = Inr j \<Longrightarrow> job_change U C node db rs (Some j) j' \<Longrightarrow> job_ID j' = k \<Longrightarrow> write_ok U C node db rs (put_job_at k j')"
  by (metis put_job_at_eq val_at_get write_ok.job)

lemma put_job_at_sel [simp]: "rec_Bucket (put_job_at k j) = ''jobs''" "rec_Key (put_job_at k j) = k"
  by (simp_all add: put_job_at_def)

lemma job_id_kept [simp]:
  "job_ID (start_job j now) = job_ID j" "job_ID (park_job j now) = job_ID j" "job_ID (wake_job j now rc) = job_ID j"
  "job_ID (renewed_job j now) = job_ID j" "job_ID (await_authorization j a c) = job_ID j" "job_ID (accepted_job j p) = job_ID j"
  by (simp_all add: start_job_def park_job_def wake_job_def renewed_job_def await_authorization_def accepted_job_def Let_def)

text \<open>The records of a scan over the jobs are written for keys of the scan, each once.\<close>

definition scan_ok :: "unicode_tables \<Rightarrow> crypto \<Rightarrow> string \<Rightarrow> node_db \<Rightarrow> node_rec list \<Rightarrow> string list \<Rightarrow> node_rec list \<Rightarrow> bool" where
  "scan_ok U C node db qs ids rs \<longleftrightarrow>
     (\<forall>r\<in>set rs. rec_Bucket r = ''jobs'' \<and> rec_Key r \<in> set ids \<and> write_ok U C node db qs r) \<and> distinct (map rec_Key rs)"

lemma scan_ok_Nil [simp]: "scan_ok U C node db qs ids []"
  by (simp add: scan_ok_def)

lemma scan_ok_skip: "scan_ok U C node db qs ids rs \<Longrightarrow> scan_ok U C node db qs (k # ids) rs"
  by (auto simp: scan_ok_def)

lemma scan_ok_put:
  assumes "scan_ok U C node db qs ids rs" "k \<notin> set ids" "typed_db db" "get_job db k = Inr j"
    and "job_change U C node db qs (Some j) j'" "job_ID j' = job_ID j"
  shows "scan_ok U C node db qs (k # ids) (put_job_at k j' # rs)"
  using assms(1,2) put_job_change [OF assms(4,5)] typed_job [OF assms(3,4)] assms(6) by (auto simp: scan_ok_def)

lemma scan_ok_allowed: "scan_ok U C node db rs ids rs \<Longrightarrow> allowed U C node db rs"
proof -
  assume scan: "scan_ok U C node db rs ids rs"
  then have "distinct (map snd (map rec_id rs))" by (simp add: scan_ok_def comp_def)
  then have "distinct (map rec_id rs)" by (subst (asm) distinct_map) (rule conjunct1)
  then have "keyed rs" unfolding keyed_def by (rule distinct_map_filter)
  with scan show ?thesis by (simp add: scan_ok_def allowed_def)
qed

lemma claim_secured_ok:
  assumes "typed_db db"
  shows "claim_secured U C node keys now db ids = Inr (rs, x) \<Longrightarrow> distinct ids \<Longrightarrow> scan_ok U C node db qs ids rs"
proof (induction ids arbitrary: rs x)
  case (Cons k ids)
  then show ?case
    by (auto split: sum.splits if_splits intro: scan_ok_skip
        intro!: scan_ok_put [OF _ _ assms] job_change.started_secured job_change.parked)
qed simp

lemma claim_plain_ok:
  assumes "typed_db db"
  shows "claim_plain now db ids = Inr (rs, x) \<Longrightarrow> distinct ids \<Longrightarrow> scan_ok U C node db qs ids rs"
proof (induction ids arbitrary: rs x)
  case (Cons k ids)
  then show ?case
    by (auto split: sum.splits if_splits intro: scan_ok_skip intro!: scan_ok_put [OF _ _ assms] job_change.started)
qed simp

lemma ClaimNextSecuredJob_step:
  "ClaimNextSecuredJob U C node keys now db = (res, db') \<Longrightarrow> typed_db db \<Longrightarrow> node_step U C node db db'"
  unfolding ClaimNextSecuredJob_def
  by (auto simp: idle_step db_keys_state_def distinct_selected split: if_splits prod.splits sum.splits option.splits
      intro!: scan_ok_allowed claim_secured_ok elim!: plain_step)

lemma ClaimNextJob_step: "ClaimNextJob now db = (res, db') \<Longrightarrow> typed_db db \<Longrightarrow> node_step U C node db db'"
  unfolding ClaimNextJob_def
  by (erule plain_step) (auto simp: db_keys_state_def distinct_selected intro!: scan_ok_allowed claim_plain_ok)

lemma change_scan_ok:
  assumes "typed_db db" "states \<subseteq> (if recovery then recovered_states else {''waiting_peer'', ''waiting_mount''})"
  shows "change_scan now states P recovery db ids = Inr (rs, out) \<Longrightarrow> distinct ids \<Longrightarrow> scan_ok U C node db qs ids rs"
proof (induction ids arbitrary: rs out)
  case (Cons k ids)
  show ?case
  proof (cases "rs = [] \<or> change_scan now states P recovery db ids = Inr (rs, out)")
    case True
    then show ?thesis using Cons by (auto intro: scan_ok_skip)
  next
    case False
    then obtain j rs' out' where j: "get_job db k = Inr j" "(case db_lookup db ''jobs'' k of None \<Rightarrow> [] | Some r \<Rightarrow> rec_State r) \<in> states"
      and sec: "recovery \<or> job_DestructivePlanID j = [] \<and> ((job_SignedAuthBound j \<or> job_RequiresSignedAuth j) \<longrightarrow> executableSecuredJob j)"
      and rest: "change_scan now states P recovery db ids = Inr (rs', out')" "rs = put_job_at k (wake_job j now recovery) # rs'"
      using Cons.prems(1) by (auto split: sum.splits if_splits)
    have st: "job_State j \<in> states"
      using j typed_lookup [OF assms(1), of "''jobs''" k] by (auto simp: get_as_Inr_iff well_typed_def)
    have "job_change U C node db qs (Some j) (wake_job j now recovery)"
    proof (cases recovery)
      case True
      then show ?thesis using st assms(2) by (auto intro: job_change.recovered)
    next
      case False
      then have "unsecured j \<or> executableSecuredJob j" "job_State j \<in> {''waiting_peer'', ''waiting_mount''}"
        using sec st assms(2) by (auto simp: unsecured_def)
      then show ?thesis using False job_change.woken [of j U C node db qs now] by (cases recovery) simp_all
    qed
    then show ?thesis
      unfolding rest(2) using Cons.prems(2) Cons.IH [OF rest(1)] j(1) by (intro scan_ok_put [OF _ _ assms(1)]) auto
  qed
qed simp

lemma changeJobs_step:
  assumes "changeJobs now states P recovery db = (res, db')" "typed_db db"
    "states \<subseteq> (if recovery then recovered_states else {''waiting_peer'', ''waiting_mount''})"
  shows "node_step U C node db db'"
  using assms(1) unfolding changeJobs_def
  by (rule plain_step) (auto simp: db_keys_def distinct_selected intro!: scan_ok_allowed change_scan_ok [OF assms(2,3)])

lemma wake_steps:
  "RecoverRunningJobs now db = (res, db') \<Longrightarrow> typed_db db \<Longrightarrow> node_step U C node db db'"
  "WakeWaitingPeerJobs peer now db = (res, db') \<Longrightarrow> typed_db db \<Longrightarrow> node_step U C node db db'"
  "WakeWaitingMountJobs mountID now db = (res, db') \<Longrightarrow> typed_db db \<Longrightarrow> node_step U C node db db'"
  unfolding RecoverRunningJobs_def WakeWaitingPeerJobs_def WakeWaitingMountJobs_def
  by (erule changeJobs_step; simp add: recovered_states_def)+

lemma ReplaceJobItems_step: "ReplaceJobItems jobID items db = (res, db') \<Longrightarrow> node_step U C node db db'"
  unfolding ReplaceJobItems_def
proof (erule plain_step)
  fix rs x assume "(case get_job db jobID of Inl e \<Rightarrow> Inl e
     | Inr j \<Rightarrow> if \<not> jobItemsWritable j then Inl ErrInUse
         else (case item_puts jobID [] items of Inl e \<Rightarrow> Inl e
               | Inr rs \<Rightarrow> Inr (map (tx_remove ''items'') (db_keys db ''items'' jobID) @ rs, ()))) = Inr (rs, x)"
  then obtain its where its: "item_puts jobID [] items = Inr its" "rs = map (tx_remove ''items'') (db_keys db ''items'' jobID) @ its"
    by (auto split: sum.splits if_splits)
  have "write_ok U C node db rs r \<and> rec_Bucket r = ''items''" if "r \<in> set rs" for r
    using that item_puts_bucket [OF its(1), of r U C node db rs] by (auto simp: its(2) write_ok.item_removed)
  then show "allowed U C node db rs" by (force simp: allowed_def intro: keyed_unkeyed)
qed

lemma item_event_steps:
  "UpdateJobItem item db = (res, db') \<Longrightarrow> node_step U C node db db'"
  "RecordJobEvent ev db = (res1, db') \<Longrightarrow> node_step U C node db db'"
  unfolding UpdateJobItem_def RecordJobEvent_def
  by (erule plain_step; auto simp: allowed_def write_ok.item write_ok.event split: sum.splits if_splits)+

subsection \<open>Plans and leases\<close>

lemma record_plan_step: "record_plan p db = (res, db') \<Longrightarrow> dp_ConsumedJobID p = [] \<Longrightarrow> node_step U C node db db'"
  unfolding record_plan_def
  by (erule update_step) (auto simp: allowed_def val_at_None_lookup intro!: write_ok.plan_new split: if_splits)

lemma plan_header_unconsumed: "plan_header_ok U p now \<Longrightarrow> dp_ConsumedJobID (dated_plan p now) = []"
  by (simp add: plan_header_ok_def dated_plan_def)

lemma CreateDestructivePlan_step: "CreateDestructivePlan U p now db = (res, db') \<Longrightarrow> node_step U C node db db'"
  unfolding CreateDestructivePlan_def
  by (simp add: idle_step plan_header_unconsumed record_plan_step split: if_split_asm)

lemma CreateTransferMovePlan_step: "CreateTransferMovePlan U p now db = (res, db') \<Longrightarrow> node_step U C node db db'"
  unfolding CreateTransferMovePlan_def
  by (simp split: if_split_asm) (blast intro: idle_step record_plan_step plan_header_unconsumed)+

definition purgeable :: "node_db \<Rightarrow> gotime \<Rightarrow> string \<Rightarrow> bool" where
  "purgeable db now k \<longleftrightarrow> (\<exists>p. plan_at db k = Some p \<and> dp_ConsumedJobID p = [] \<and> dp_ExpiresAt p \<le> now)"

lemma purge_scan_ok:
  "purge_scan now db n ids = Inr rs \<Longrightarrow>
   \<exists>ks. rs = map (tx_remove ''destructive_plans'') ks \<and> subseq ks ids \<and> (\<forall>k\<in>set ks. purgeable db now k)"
proof (induction ids arbitrary: n rs)
  case (Cons k ids)
  show ?case
  proof (cases "n = 1000")
    case True
    then show ?thesis using Cons.prems by simp
  next
    case False
    then obtain p where p: "get_plan db k = Inr p" using Cons.prems by (auto split: sum.splits)
    show ?thesis
    proof (cases "dp_ConsumedJobID p = [] \<and> \<not> now < dp_ExpiresAt p")
      case True
      then obtain rs' where rs: "purge_scan now db (n + 1) ids = Inr rs'" "rs = tx_remove ''destructive_plans'' k # rs'"
        using Cons.prems False p by (auto split: sum.splits)
      obtain ks where "rs' = map (tx_remove ''destructive_plans'') ks" "subseq ks ids" "\<forall>k\<in>set ks. purgeable db now k"
        using Cons.IH [OF rs(1)] by blast
      moreover have "purgeable db now k" using True val_at_get [OF p] by (auto simp: purgeable_def)
      ultimately show ?thesis by (intro exI [of _ "k # ks"]) (simp add: rs(2))
    next
      case no: False
      then have "purge_scan now db n ids = Inr rs" using Cons.prems False p by (simp split: if_splits)
      from Cons.IH [OF this] show ?thesis using list_emb_Cons by fastforce
    qed
  qed
qed simp

lemma PurgeExpiredDestructivePlans_step: "PurgeExpiredDestructivePlans now db = (res, db') \<Longrightarrow> node_step U C node db db'"
  unfolding PurgeExpiredDestructivePlans_def
proof (simp add: idle_step split: if_split_asm, erule plain_step)
  fix rs x assume "(case purge_scan now db 0 (db_keys db ''destructive_plans'' []) of Inl e \<Rightarrow> Inl e | Inr rs \<Rightarrow> Inr (rs, length rs)) = Inr (rs, x)"
  then have "purge_scan now db 0 (db_keys db ''destructive_plans'' []) = Inr rs" by (auto split: sum.splits)
  then obtain ks where ks: "rs = map (tx_remove ''destructive_plans'') ks" "subseq ks (db_keys db ''destructive_plans'' [])"
    "\<forall>k\<in>set ks. purgeable db now k"
    using purge_scan_ok by blast
  have "distinct ks"
    using ks(2) by (auto simp: subseq_conv_nths db_keys_def distinct_selected intro: distinct_nthsI)
  then have "distinct (map rec_id rs)" by (simp add: ks(1) comp_def distinct_map inj_on_def)
  then have "keyed rs" unfolding keyed_def by (rule distinct_map_filter)
  moreover have "write_ok U C node db rs r" if "r \<in> set rs" for r
    using that ks(3) by (auto simp: ks(1) purgeable_def intro: write_ok.plan_purged)
  ultimately show "allowed U C node db rs" by (simp add: allowed_def)
qed

lemma accept_body_ok:
  assumes "accept_body C planID subjectType subjectID tokenHash treeDigest dx dd j ik requestHash now db = Inr (rs, x)" "typed_db db"
  shows "allowed U C node db rs"
proof (cases "rs = []")
  case False
  let ?key = "destructiveIdempotencyKey C subjectType subjectID ik"
  obtain p where p: "get_plan db planID = Inr p" "dp_ConsumedJobID p = []" "\<not> plan_stale p treeDigest dx dd j now"
    and new: "db_lookup db ''jobs'' (job_ID j) = None" "db_lookup db ''destructive_idempotency'' ?key = None"
    and rs: "rs = [put_plan (p\<lparr>dp_ConsumedJobID := job_ID j, dp_IdempotencyKey := ik, dp_RequestHash := requestHash\<rparr>), put_job (accepted_job j p),
       put_val ''destructive_idempotency'' ?key [] [] (VIdempotency \<lparr>idem_JobID = job_ID j, idem_RequestHash = requestHash\<rparr>)]"
    using assms(1) False by (auto simp: accept_body_def get_as_NotFound_iff Let_def split: sum.splits if_split_asm)
  have j: "unsecured j" "job_SignedAuthActorID j = []" "job_SignedAuthCredentialID j = []" "job_ID j \<noteq> []"
    using p(3) by (auto simp: plan_stale_def dest: ValidKeyID_nonempty)
  have plan: "plan_at db (dp_ID p) = Some p" using val_at_get [OF p(1)] typed_plan [OF assms(2) p(1)] by simp
  have mem: "put_job (accepted_job j p) \<in> set rs" by (simp add: rs)
  have "job_change U C node db rs None (accepted_job j p)"
    by (rule job_change.accepted [OF j, of "p\<lparr>dp_ConsumedJobID := job_ID j, dp_IdempotencyKey := ik, dp_RequestHash := requestHash\<rparr>"])
      (simp_all add: rs)
  then have "write_ok U C node db rs (put_job (accepted_job j p))"
    using new(1) by (intro write_ok.job) (simp add: val_at_None_lookup)
  moreover have "write_ok U C node db rs (put_plan (p\<lparr>dp_ConsumedJobID := job_ID j, dp_IdempotencyKey := ik, dp_RequestHash := requestHash\<rparr>))"
    using write_ok.plan_consumed [OF plan p(2) mem] j(4) new(1) by (simp add: val_at_None_lookup accepted_job_def)
  moreover have "write_ok U C node db rs (put_val ''destructive_idempotency'' ?key [] [] (VIdempotency \<lparr>idem_JobID = job_ID j, idem_RequestHash = requestHash\<rparr>))"
    using write_ok.idempotency [OF _ new(2) mem] by simp
  ultimately show ?thesis by (simp add: allowed_def rs)
qed simp

lemma AcceptDestructivePlan_step:
  assumes "AcceptDestructivePlan U C planID subjectType subjectID tokenHash treeDigest dx dd j ik requestHash now db = (res, db')" "typed_db db"
  shows "node_step U C node db db'"
  using assms(1) unfolding AcceptDestructivePlan_def
  by (simp only: split: if_split_asm) (auto simp: idle_step elim!: plain_step intro: accept_body_ok [OF _ assms(2)])

lemma renewal_of_Next:
  assumes "renewal_of U C db j node envelope expected keys now = Inr (Next revision)"
  obtains (first) "db_lookup db ''job_authorizations'' (job_ID j) = None" "\<not> job_SignedAuthBound j" "revision = 1"
    | (later) old where "get_auth db (job_ID j) = Inr old" "job_SignedAuthBound j" "auth_Revision old \<noteq> - 1"
        "auth_Binding old = expected" "revision = auth_Revision old + 1"
  using assms by (auto simp: renewal_of_def get_as_NotFound_iff split: sum.splits if_split_asm option.splits)

lemma renew_records_ok:
  assumes "typed_db db" "get_job db jobID = Inr j" "renewable j" "renewal_of U C db j node envelope expected keys now = Inr (Next revision)"
    and a: "auth_JobID a = job_ID j" "auth_Revision a = revision" "auth_Binding a = expected" "lease_ok U C node db j a"
    and rs: "rs = (if job_State j = ''running'' then [put_auth a now] else [put_auth a now, put_job (renewed_job j now)])"
  shows "allowed U C node db rs"
proof -
  have job: "job_at db (job_ID j) = Some j" using typed_job [OF assms(1,2)] val_at_get [OF assms(2)] by simp
  have auth: "write_ok U C node db rs (put_auth a now)"
    using assms(4)
  proof (cases rule: renewal_of_Next)
    case first
    then have "job_State j \<noteq> ''running''" using assms(3) by (auto simp: renewable_def executableSecuredJob_def)
    with first job a show ?thesis
      by (intro write_ok.auth_first [where j = j]) (simp_all add: val_at_None_lookup rs)
  next
    case (later old)
    then show ?thesis
      using job a by (intro write_ok.auth_next [where j = j and old = old]) (simp_all add: val_at_get)
  qed
  moreover have "write_ok U C node db rs (put_job (renewed_job j now))" if "job_State j \<noteq> ''running''"
    using that assms(3) a(1) job by (intro write_ok.job) (auto simp: rs intro!: job_change.renewed [of _ a])
  ultimately show ?thesis by (auto simp: allowed_def rs)
qed

lemma renew_body_Next:
  assumes "fst (renew_body U C jobID node envelope expected keys now db) = Inr (rs, a)" "rs \<noteq> []"
  obtains j revision where "get_job db jobID = Inr j" "renewable j" "renewal_of U C db j node envelope expected keys now = Inr (Next revision)"
    "auth_JobID a = job_ID j" "auth_Revision a = revision" "auth_Binding a = expected" "lease_ok U C node db j a"
    "rs = (if job_State j = ''running'' then [put_auth a now] else [put_auth a now, put_job (renewed_job j now)])"
proof -
  obtain j where j: "get_job db jobID = Inr j" "renewable j" "jobAuthorizationMatches C j expected node" "plan_backs db j (b_ActorID expected)"
    using assms by (auto simp: renew_body_def split: sum.splits if_split_asm)
  then obtain revision where rev: "renewal_of U C db j node envelope expected keys now = Inr (Next revision)"
    using assms by (auto simp: renew_body_def split: sum.splits renewal.splits)
  then obtain cl flt where v: "VerifyJobLease U C envelope keys expected node revision now = Some (cl, flt)"
    using assms j by (auto simp: renew_body_def split: option.splits)
  have a: "a = \<lparr>auth_JobID = job_ID j, auth_Binding = expected, auth_Revision = revision, auth_Envelope = envelope,
      auth_ExpiresAt = of_Unix (c_ExpiresAt cl)\<rparr>"
    and rs: "rs = (if job_State j = ''running'' then [put_auth a now] else [put_auth a now, put_job (renewed_job j now)])"
    using assms(1) j rev v by (auto simp: renew_body_def Let_def)
  have "lease_ok U C node db j a" using j v by (auto simp: lease_ok_def a)
  then show thesis using that [OF j(1,2) rev] a rs by simp
qed

lemma renew_body_quiet: "quiet db (snd (renew_body U C jobID node envelope expected keys now db))"
  by (auto simp: renew_body_def Let_def split: sum.splits renewal.splits option.splits)

lemma RenewJobAuthorization_step:
  assumes "RenewJobAuthorization U C jobID node envelope expected keys now db = (res, db')" "typed_db db"
  shows "node_step U C node db db'"
proof (cases "\<not> ValidKeyID jobID \<or> \<not> ValidKeyID node \<or> IsZero now \<or> envelope = []")
  case True
  then show ?thesis using assms(1) by (auto simp: RenewJobAuthorization_def idle_step)
next
  case False
  then have "db_update db (renew_body U C jobID node envelope expected keys now) = (res, db')"
    using assms(1) by (simp add: RenewJobAuthorization_def)
  then show ?thesis
  proof (rule update_step)
    fix rs x assume x: "fst (renew_body U C jobID node envelope expected keys now db) = Inr (rs, x)"
    show "allowed U C node db rs"
    proof (cases "rs = []")
      case False
      with x show ?thesis by (rule renew_body_Next) (rule renew_records_ok [OF assms(2)])
    qed simp
  qed (rule renew_body_quiet)
qed

lemma RegisterSignedJobAuthorization_step:
  "RegisterSignedJobAuthorization U C jobID node envelope keys now db = (res, db') \<Longrightarrow> typed_db db \<Longrightarrow> node_step U C node db db'"
  unfolding RegisterSignedJobAuthorization_def
  by (auto simp: idle_step split: option.splits if_split_asm prod.splits sum.splits dest: RenewJobAuthorization_step)

subsection \<open>Uploads, trash, tokens, managed trust\<close>

lemma write_upload_kept:
  "get_upload db k = Inr u \<Longrightarrow> up_ID v = k \<Longrightarrow> same_authorization u v \<Longrightarrow> write_ok U C node db rs (put_upload k v)"
  by (metis val_at_get write_ok.upload_changed)

lemma CreateUploadSession_step: "CreateUploadSession u db = (res, db') \<Longrightarrow> node_step U C node db db'"
  unfolding CreateUploadSession_def
  by (simp only: split: if_split_asm)
    (auto simp: idle_step allowed_def intro!: write_ok.upload_new elim!: update_step split: if_split_asm option.splits)

lemma ReauthorizeUploadSession_step:
  assumes "ReauthorizeUploadSession C' sessionID actorID credentialID requestID db = (res, db')" "typed_db db"
  shows "node_step U C node db db'"
proof -
  let ?f = "\<lambda>db. case get_upload db sessionID of Inl e \<Rightarrow> (Inl e, db)
    | Inr v \<Rightarrow>
        if (up_AuthorizationActorID v = []) \<noteq> (up_AuthorizationCredentialID v = [])
           \<or> up_AuthorizationActorID v \<noteq> [] \<and> up_AuthorizationActorID v \<noteq> actorID
           \<or> up_AuthorizationRevision v = - 1
           \<or> UploadReauthorizationRequestID C' sessionID (up_AuthorizationCredentialID v) (up_AuthorizationRevision v) \<noteq> requestID
        then (Inl ErrInUse, db)
        else (Inr ([put_upload sessionID (v\<lparr>up_AuthorizationActorID := actorID, up_AuthorizationCredentialID := credentialID,
                      up_AuthorizationRevision := up_AuthorizationRevision v + 1\<rparr>)], ()),
              ensureSecurityVersion 3 db)"
  consider "db' = db" | "db_update db ?f = (res, db')" "ValidKeyID actorID"
    using assms(1) unfolding ReauthorizeUploadSession_def by (auto split: if_split_asm)
  then show ?thesis
  proof cases
    case 2
    from 2(1) show ?thesis
    proof (rule update_step)
      fix rs x assume "fst (?f db) = Inr (rs, x)"
      then obtain v where v: "get_upload db sessionID = Inr v" "up_AuthorizationRevision v \<noteq> - 1"
        "up_AuthorizationActorID v = [] \<or> up_AuthorizationActorID v = actorID"
        "rs = [put_upload sessionID (v\<lparr>up_AuthorizationActorID := actorID, up_AuthorizationCredentialID := credentialID,
                 up_AuthorizationRevision := up_AuthorizationRevision v + 1\<rparr>)]"
        by (auto split: sum.splits if_split_asm)
      then show "allowed U C node db rs"
        using typed_upload [OF assms(2) v(1)] ValidKeyID_nonempty [OF 2(2)]
        by (auto simp: allowed_def val_at_get intro!: write_ok.upload_reauthorized)
    qed (auto split: sum.splits)
  qed (simp add: idle_step)
qed

lemma upload_change_steps:
  "TouchUploadSession sessionID now expires db = (res, db') \<Longrightarrow> typed_db db \<Longrightarrow> node_step U C node db db'"
  "UpdateUploadSession u db = (res, db') \<Longrightarrow> node_step U C node db db'"
  "DeleteUploadSession sessionID db = (res, db') \<Longrightarrow> node_step U C node db db'"
  unfolding TouchUploadSession_def UpdateUploadSession_def DeleteUploadSession_def
  by (erule plain_step; auto simp: allowed_def same_authorization_def write_ok.upload_removed typed_upload split: sum.splits if_split_asm
      intro!: write_upload_kept)+

lemma other_value_steps:
  "PutTrashItem i db = (res, db') \<Longrightarrow> node_step U C node db db'"
  "DeleteTrashItem itemID db = (res, db') \<Longrightarrow> node_step U C node db db'"
  "StageOperationalToken hash correlation now db = (res, db') \<Longrightarrow> node_step U C node db db'"
  "CommitOperationalToken hash correlation now db = (res, db') \<Longrightarrow> node_step U C node db db'"
  "RecoverOperationalToken hash correlation now db = (res, db') \<Longrightarrow> node_step U C node db db'"
  "PutManagedTrust t db = (res, db') \<Longrightarrow> node_step U C node db db'"
  unfolding PutTrashItem_def DeleteTrashItem_def StageOperationalToken_def CommitOperationalToken_def RecoverOperationalToken_def PutManagedTrust_def
  by (auto simp: idle_step allowed_def write_ok.trash write_ok.trash_removed write_ok.token write_ok.trust
      elim!: plain_step update_step split: if_split_asm sum.splits)

subsection \<open>Peers\<close>

lemma pairing_steps:
  "CreatePairingInvite v hash db = (res, db') \<Longrightarrow> node_step U C node db db'"
  "CreatePairingRequest q hash db = (res, db') \<Longrightarrow> node_step U C node db db'"
  unfolding CreatePairingInvite_def CreatePairingRequest_def
  using write_ok.invite_new [of db "\<lparr>invr_Invite = v, invr_SecretHash = hash\<rparr>" U C node]
    write_ok.request [of U C node db _ "\<lparr>reqr_Request = q, reqr_SecretHash = hash\<rparr>"]
  by (auto simp: allowed_def elim!: plain_step split: if_split_asm)

lemma RevokePairingInvite_step: "RevokePairingInvite inviteID now db = (res, db') \<Longrightarrow> typed_db db \<Longrightarrow> node_step U C node db db'"
  unfolding RevokePairingInvite_def
proof (erule plain_step)
  fix rs x assume typed: "typed_db db" and "(case get_as un_invite db ''invites'' inviteID of Inl e \<Rightarrow> Inl e
     | Inr r \<Rightarrow> Inr ([put_invite inviteID (r\<lparr>invr_Invite := (invr_Invite r)\<lparr>inv_Status := ''revoked'', inv_RevokedAt := Some now\<rparr>\<rparr>)], ())) = Inr (rs, x)"
  then obtain r where r: "get_as un_invite db ''invites'' inviteID = Inr r"
    "rs = [put_invite inviteID (r\<lparr>invr_Invite := (invr_Invite r)\<lparr>inv_Status := ''revoked'', inv_RevokedAt := Some now\<rparr>\<rparr>)]"
    by (auto split: sum.splits)
  then show "allowed U C node db rs"
    using write_ok.invite_revoked [of db r] val_at_get [OF r(1)] typed_invite [OF typed r(1)] by (simp add: allowed_def)
qed

lemma write_trust: "write_ok U C node db rs (trust_rec v)"
  unfolding trust_rec_def using write_ok.peer [of U C node db rs "v\<lparr>peer_IdentityEpoch := max (peer_IdentityEpoch v) 1,
    peer_PreviousFingerprint := [], peer_ConsecutiveFailures := 0, peer_LastSeenAt := None\<rparr>"] by simp

lemma trust_bucket [simp]: "rec_Bucket (trust_rec v) = ''peers''"
  by (simp add: trust_rec_def)

lemma ApprovePairingInvite_step: "ApprovePairingInvite inviteID hash v now db = (res, db') \<Longrightarrow> typed_db db \<Longrightarrow> node_step U C node db db'"
  unfolding ApprovePairingInvite_def
proof (erule plain_step)
  fix rs x assume typed: "typed_db db" and body: "(case get_as un_invite db ''invites'' inviteID of Inl e \<Rightarrow> Inl e
     | Inr r \<Rightarrow> let i = invr_Invite r in
         if inv_Status i \<noteq> ''pending'' \<or> invr_SecretHash r \<noteq> hash \<or> inv_ExpiresAt i < now
            \<or> inv_TargetNodeID i \<noteq> [] \<and> inv_TargetNodeID i \<noteq> peer_NodeID v then Inl (Errorf ''invite cannot be approved'')
         else Inr ([trust_rec v, put_invite inviteID (r\<lparr>invr_Invite := i\<lparr>inv_Status := ''consumed''\<rparr>\<rparr>)], ())) = Inr (rs, x)"
  then obtain r where r: "get_as un_invite db ''invites'' inviteID = Inr r" "inv_Status (invr_Invite r) = ''pending''"
    "rs = [trust_rec v, put_invite inviteID (r\<lparr>invr_Invite := (invr_Invite r)\<lparr>inv_Status := ''consumed''\<rparr>\<rparr>)]"
    by (auto simp: Let_def split: sum.splits if_split_asm)
  then show "allowed U C node db rs"
    using write_ok.invite_consumed [of db r] val_at_get [OF r(1)] typed_invite [OF typed r(1)] by (simp add: allowed_def write_trust)
qed

lemma ResolvePairingRequest_step: "ResolvePairingRequest requestID status v now db = (res, db') \<Longrightarrow> typed_db db \<Longrightarrow> node_step U C node db db'"
  unfolding ResolvePairingRequest_def
proof (erule plain_step)
  fix rs x assume typed: "typed_db db" and body: "(case get_as un_request db ''requests'' requestID of Inl e \<Rightarrow> Inl e
     | Inr r \<Rightarrow> let q = reqr_Request r in
         if prq_Status q \<noteq> ''pending_review'' \<or> prq_ExpiresAt q < now then Inl (Errorf ''pairing request cannot be resolved'')
         else Inr ((case v of None \<Rightarrow> [] | Some p \<Rightarrow> [trust_rec p])
                   @ [put_request requestID (r\<lparr>reqr_Request := q\<lparr>prq_Status := status\<rparr>\<rparr>)], ())) = Inr (rs, x)"
  then obtain r where r: "get_as un_request db ''requests'' requestID = Inr r"
    "rs = (case v of None \<Rightarrow> [] | Some p \<Rightarrow> [trust_rec p]) @ [put_request requestID (r\<lparr>reqr_Request := (reqr_Request r)\<lparr>prq_Status := status\<rparr>\<rparr>)]"
    by (auto simp: Let_def split: sum.splits if_split_asm)
  then show "allowed U C node db rs"
    using write_ok.request [of U C node db rs "r\<lparr>reqr_Request := (reqr_Request r)\<lparr>prq_Status := status\<rparr>\<rparr>"] typed_request [OF typed r(1)]
    by (cases v) (simp_all add: allowed_def write_trust)
qed

lemma changePeer_step:
  assumes "changePeer peerID f db = (res, db')" "typed_db db" "\<And>v v'. f v = Inr v' \<Longrightarrow> peer_NodeID v' = peer_NodeID v"
  shows "node_step U C node db db'"
  using assms(1) unfolding changePeer_def
proof (rule plain_step)
  fix rs x assume "(case get_peer db peerID of Inl e \<Rightarrow> Inl e
     | Inr v \<Rightarrow> (case f v of Inl e \<Rightarrow> Inl e | Inr v' \<Rightarrow> Inr ([put_peer peerID v'], ()))) = Inr (rs, x)"
  then obtain v v' where v: "get_peer db peerID = Inr v" "f v = Inr v'" "rs = [put_peer peerID v']"
    by (auto split: sum.splits)
  then show "allowed U C node db rs"
    using write_ok.peer [of U C node db rs v'] typed_peer [OF assms(2) v(1)] assms(3) [OF v(2)] by (simp add: allowed_def)
qed

lemma peer_steps:
  "UpdatePeerHealth peerID st seen failures db = (res, db') \<Longrightarrow> typed_db db \<Longrightarrow> node_step U C node db db'"
  "UpdatePeerEndpoints peerID address mtls correlation db = (res, db') \<Longrightarrow> typed_db db \<Longrightarrow> node_step U C node db db'"
  "RecoverPeerIdentity peerID fingerprint correlation db = (res, db') \<Longrightarrow> typed_db db \<Longrightarrow> node_step U C node db db'"
  "ApplyPeerIdentityHandover peerID pe pf ne nf correlation db = (res, db') \<Longrightarrow> typed_db db \<Longrightarrow> node_step U C node db db'"
  "ConfirmPeerIdentityHandover peerID epoch fingerprint db = (res, db') \<Longrightarrow> typed_db db \<Longrightarrow> node_step U C node db db'"
  unfolding UpdatePeerHealth_def UpdatePeerEndpoints_def RecoverPeerIdentity_def ApplyPeerIdentityHandover_def ConfirmPeerIdentityHandover_def
  by (erule changePeer_step; auto split: if_split_asm)+

lemma revoke_bindings_ok:
  "revoke_bindings db peerID ks = Inr rs \<Longrightarrow> r \<in> set rs \<Longrightarrow> \<exists>k. r = tombstone k peerID"
  by (induction db peerID ks arbitrary: rs rule: revoke_bindings.induct) (auto split: sum.splits if_split_asm)

lemma revoke_grants_ok:
  assumes "typed_db db" "\<And>k g. k \<in> set ks \<Longrightarrow> get_grant db k = Inr g \<Longrightarrow> gr_PeerNodeID g = peerID"
    and "revoke_grants db peerID correlation now clock n ks = Inr rs" "r \<in> set rs"
  shows "write_ok U C node db qs r \<and> \<not> keyed_bucket (rec_Bucket r)"
  using assms(2-)
proof (induction ks arbitrary: n rs)
  case (Cons k ks)
  obtain g where g: "get_grant db k = Inr g" using Cons.prems(2) by (auto split: sum.splits)
  let ?g = "g\<lparr>gr_Enabled := False, gr_UpdatedAt := now, gr_CorrelationID := correlation\<rparr>"
  let ?ws = "tombstone k peerID # (if db_managed db then [] else [put_val ''grants'' k peerID (order_of (gr_CreatedAt ?g)) (VGrant ?g)])"
  let ?all = "?ws @ [audit_rec db (n + length ?ws) clock ''peer_revoked'' k (SnapGrant ?g)]"
  obtain rs' where rest: "revoke_grants db peerID correlation now clock (n + length ?all) ks = Inr rs'" and all: "rs = ?all @ rs'"
    using Cons.prems(2) unfolding revoke_grants.simps g sum.case Let_def
    by (cases "revoke_grants db peerID correlation now clock (n + length ?all) ks") simp_all
  have rs: "set rs \<subseteq> {tombstone k peerID, put_val ''grants'' k peerID (order_of (gr_CreatedAt ?g)) (VGrant ?g),
      audit_rec db (n + length ?ws) clock ''peer_revoked'' k (SnapGrant ?g)} \<union> set rs'"
    unfolding all by auto
  have "put_val ''grants'' k peerID (order_of (gr_CreatedAt ?g)) (VGrant ?g) = put_grant (gr_ID ?g) ?g"
    using Cons.prems(1) [OF _ g] typed_grant [OF assms(1) g] by (simp add: put_grant_def)
  then have "write_ok U C node db qs (put_val ''grants'' k peerID (order_of (gr_CreatedAt ?g)) (VGrant ?g))"
    by (simp only: write_ok.grant)
  moreover have "write_ok U C node db qs r \<and> \<not> keyed_bucket (rec_Bucket r)" if "r \<in> set rs'"
    using Cons.IH [OF _ rest that] Cons.prems(1) by auto
  ultimately show ?case
    using rs Cons.prems(3) by (fastforce simp: write_ok.tombstone write_ok.audit)
qed simp

lemma revoke_body_ok:
  assumes "revoke_body peerID correlation now clock db = Inr (rs, x)" "typed_db db"
  shows "allowed U C node db rs"
proof -
  let ?v = "\<lambda>v. v\<lparr>peer_State := ''revoked'', peer_ConsecutiveFailures := 0, peer_CorrelationID := correlation\<rparr>"
  let ?first = "\<lambda>v. [put_peer peerID (?v v), audit_rec db 1 clock ''peer_revoked'' peerID (SnapPeer (?v v))]"
  obtain v bs gs n where v: "get_peer db peerID = Inr v" "revoke_bindings db peerID (db_keys db ''grant_bindings'' []) = Inr bs"
    "revoke_grants db peerID correlation now clock n (db_keys db ''grants'' peerID) = Inr gs" "rs = ?first v @ bs @ gs"
    using assms(1) by (auto simp: revoke_body_def Let_def split: sum.splits)
  have "peerID \<noteq> []"
    using v(1) assms(2) by (auto simp: get_as_Inr_iff well_typed_def dest!: typed_lookup)
  then have "gr_PeerNodeID g = peerID" if "k \<in> set (db_keys db ''grants'' peerID)" "get_grant db k = Inr g" for k g
    using that assms(2) by (auto simp: set_db_keys get_as_Inr_iff well_typed_def dest!: typed_lookup)
  then have gs: "write_ok U C node db rs r \<and> \<not> keyed_bucket (rec_Bucket r)" if "r \<in> set gs" for r
    using revoke_grants_ok [OF assms(2) _ v(3) that] by blast
  have bs: "write_ok U C node db rs r \<and> \<not> keyed_bucket (rec_Bucket r)" if "r \<in> set bs" for r
    using revoke_bindings_ok [OF v(2) that] by (auto simp: write_ok.tombstone)
  have "write_ok U C node db rs (put_peer peerID (?v v))"
    using write_ok.peer [of U C node db rs "?v v"] typed_peer [OF assms(2) v(1)] by simp
  then have "write_ok U C node db rs r \<and> \<not> keyed_bucket (rec_Bucket r)" if "r \<in> set rs" for r
    using that gs [of r] bs [of r] unfolding v(4) by (auto simp: write_ok.audit)
  then show ?thesis by (simp add: allowed_def keyed_unkeyed)
qed

lemma RevokePeer_step: "RevokePeer peerID correlation now clock db = (res, db') \<Longrightarrow> typed_db db \<Longrightarrow> node_step U C node db db'"
  unfolding RevokePeer_def by (erule plain_step) (rule revoke_body_ok)

subsection \<open>Configuration\<close>

lemma apply_mounts_ok:
  "apply_mounts db now ms = Inr rs \<Longrightarrow> r \<in> set rs \<Longrightarrow> write_ok U C node db qs r \<and> \<not> keyed_bucket (rec_Bucket r)"
proof (induction ms arbitrary: rs)
  case (Cons m ms)
  then obtain rs' where rest: "apply_mounts db now ms = Inr rs'" "mount_check db m = None"
    "rs = put_val ''mount_bindings'' (mnt_ID m) [] [] (VString (mnt_LocalPath m)) # put_mount (stamp_mount db m now) # rs'"
    by (auto split: option.splits sum.splits)
  have "write_ok U C node db qs (put_val ''mount_bindings'' (mnt_ID m) [] [] (VString (mnt_LocalPath m)))"
    using rest(2) by (intro write_ok.binding) (auto simp: mount_check_def get_as_NotFound_iff val_at_def split: sum.splits if_split_asm)
  then show ?case using Cons.IH [OF rest(1)] Cons.prems(2) by (auto simp: rest(3) write_ok.mount)
qed simp

lemma grant_checks_ok:
  assumes "grant_checks db g = Inr ts"
  shows "(\<forall>r\<in>set ts. \<exists>k p. r = tombstone k p) \<and> write_ok U C node db qs (put_val ''grant_bindings'' (gr_ID g) [] [] (VString (grant_binding g)))"
proof -
  have "db_lookup db ''grant_bindings'' (gr_ID g) = None \<or> val_at un_string db ''grant_bindings'' (gr_ID g) = Some (grant_binding g)"
    using assms by (auto simp: grant_checks_def get_as_NotFound_iff val_at_def split: sum.splits if_split_asm)
  moreover have "ts = [] \<or> ts = [tombstone (gr_ID g) (gr_PeerNodeID g)]"
    using assms by (auto simp: grant_checks_def split: sum.splits if_split_asm)
  then have "\<forall>r\<in>set ts. \<exists>k p. r = tombstone k p" by (metis empty_iff list.set(1) set_ConsD)
  ultimately show ?thesis by (simp add: write_ok.binding)
qed

lemma stamp_grant_id [simp]: "gr_ID (stamp_grant db g now) = gr_ID g"
  by (simp add: stamp_grant_def Let_def)

lemma apply_grants_ok:
  "apply_grants db now gs = Inr rs \<Longrightarrow> r \<in> set rs \<Longrightarrow> write_ok U C node db qs r \<and> \<not> keyed_bucket (rec_Bucket r)"
proof (induction gs arbitrary: rs)
  case (Cons g gs)
  then obtain ts rs' where rest: "apply_grants db now gs = Inr rs'" "grant_checks db g = Inr ts"
    "rs = ts @ put_val ''grant_bindings'' (gr_ID g) [] [] (VString (grant_binding g)) # put_grant (gr_ID g) (stamp_grant db g now) # rs'"
    by (auto split: sum.splits)
  have "write_ok U C node db qs (put_grant (gr_ID g) (stamp_grant db g now))"
    using write_ok.grant [of U C node db qs "stamp_grant db g now"] by simp
  then show ?case
    using Cons.IH [OF rest(1)] Cons.prems(2) grant_checks_ok [OF rest(2), of U C node qs] by (auto simp: rest(3) write_ok.tombstone)
qed simp

lemma configuration_body_records:
  assumes "configuration_body revision mounts grants settings now clock db = Inr (rs, x)" "r \<in> set rs"
  obtains k where "r = tx_remove ''mounts'' k \<or> r = tx_remove ''grants'' k"
    | ms where "apply_mounts db now mounts = Inr ms" "r \<in> set ms"
    | gs where "apply_grants db now grants = Inr gs" "r \<in> set gs"
    | n snap where "r = audit_rec db n clock ''configuration_applied'' revision snap"
    | c where "r = put_val ''configuration'' ''applied'' [] [] (VConfiguration c)"
proof -
  obtain oldRevision oldSettings ms gs bm bg where
    "apply_mounts db now mounts = Inr ms" "apply_grants db now grants = Inr gs"
    "r \<in> set (let rs = (map (tx_remove ''mounts'') (db_keys db ''mounts'' []) @ map (tx_remove ''grants'') (db_keys db ''grants'' [])) @ ms @ gs in
      rs @ [audit_rec db (length rs) clock ''configuration_applied'' revision
              (SnapConfiguration oldRevision oldSettings settings bm mounts bg grants),
            put_val ''configuration'' ''applied'' [] [] (VConfiguration \<lparr>conf_Revision = revision, conf_AppliedAt = now, conf_Settings = settings\<rparr>)])"
    using assms unfolding configuration_body_def Let_def
    by (simp only: split: sum.splits if_split_asm prod.splits) fastforce+
  then show thesis using that by (fastforce simp: Let_def)
qed

lemma configuration_body_ok:
  assumes "configuration_body revision mounts grants settings now clock db = Inr (rs, x)"
  shows "allowed U C node db rs"
proof -
  have "write_ok U C node db rs r \<and> \<not> keyed_bucket (rec_Bucket r)" if "r \<in> set rs" for r
    using assms that
    by (rule configuration_body_records)
      (auto simp: write_ok.mount_removed write_ok.grant_removed write_ok.audit write_ok.configuration dest: apply_mounts_ok apply_grants_ok)
  then show ?thesis by (simp add: allowed_def keyed_unkeyed)
qed

lemma node_step_managed: "node_step U C node db db' \<Longrightarrow> node_step U C node db (db'\<lparr>db_managed := m\<rparr>)"
proof (erule node_step.cases)
  fix db0 db1 rs assume "db = db0" "db' = db_commit db1 rs" "quiet db0 db1" "writes_ok U C node db0 rs"
  moreover have "(db_commit db1 rs)\<lparr>db_managed := m\<rparr> = db_commit (db1\<lparr>db_managed := m\<rparr>) rs" by (simp add: db_commit_def)
  ultimately show ?thesis using node_step.commit [of db "db1\<lparr>db_managed := m\<rparr>" U C node rs] by (simp add: quiet_def)
qed (auto simp: quiet_def intro: node_step.quiet)

lemma ApplyConfiguration_step: "ApplyConfiguration revision mounts grants settings now clock db = (res, db') \<Longrightarrow> node_step U C node db db'"
  unfolding ApplyConfiguration_def Let_def
  by (auto split: prod.splits sum.splits intro!: node_step_managed elim!: plain_step configuration_body_ok)

lemma mount_grant_steps:
  "UpsertMount m db = (res, db') \<Longrightarrow> node_step U C node db db'"
  "DeleteMount mountID db = (res, db') \<Longrightarrow> node_step U C node db db'"
  "CreateTransferGrant g clock db = (res, db') \<Longrightarrow> node_step U C node db db'"
  "UpdateTransferGrant g clock db = (res, db') \<Longrightarrow> node_step U C node db db'"
  "DeleteTransferGrant grantID correlation now clock db = (res, db') \<Longrightarrow> node_step U C node db db'"
  unfolding UpsertMount_def DeleteMount_def CreateTransferGrant_def UpdateTransferGrant_def saveGrant_def DeleteTransferGrant_def
  by (erule plain_step; auto simp: allowed_def write_ok.mount write_ok.mount_removed write_ok.grant write_ok.grant_removed write_ok.audit
      split: if_split_asm sum.splits option.splits)+

subsection \<open>The operations\<close>

text \<open>
  One rule per operation that writes, with any arguments, any time and any result, and a new start of
  the process, which takes the managed flag from the records.
\<close>

inductive node_op :: "unicode_tables \<Rightarrow> crypto \<Rightarrow> string \<Rightarrow> node_db \<Rightarrow> node_db \<Rightarrow> bool" for U C node where
  CreateJobWithItemsHashed: "CreateJobWithItemsHashed j items key hash db = (res, db') \<Longrightarrow> node_op U C node db db'"
| CreateJob: "CreateJob j key db = (res, db') \<Longrightarrow> node_op U C node db db'"
| CreateJobWithItems: "CreateJobWithItems j items key db = (res, db') \<Longrightarrow> node_op U C node db db'"
| CreateJobAwaitingAuthorization: "CreateJobAwaitingAuthorization j actorID credentialID key hash db = (res, db') \<Longrightarrow> node_op U C node db db'"
| CreatePlannedJobAwaitingAuthorization: "CreatePlannedJobAwaitingAuthorization j items actorID credentialID key hash db = (res, db') \<Longrightarrow> node_op U C node db db'"
| CreatePlannedMoveAwaitingAuthorization: "CreatePlannedMoveAwaitingAuthorization U j items actorID credentialID key hash plan db = (res, db') \<Longrightarrow> node_op U C node db db'"
| UpdateJob: "UpdateJob j db = (res, db') \<Longrightarrow> node_op U C node db db'"
| UpdateJobWithEvent: "UpdateJobWithEvent j ev db = (res, db') \<Longrightarrow> node_op U C node db db'"
| ClaimNextSecuredJob: "ClaimNextSecuredJob U C node keys now db = (res, db') \<Longrightarrow> node_op U C node db db'"
| ClaimNextJob: "ClaimNextJob now db = (res, db') \<Longrightarrow> node_op U C node db db'"
| RecoverRunningJobs: "RecoverRunningJobs now db = (res, db') \<Longrightarrow> node_op U C node db db'"
| WakeWaitingPeerJobs: "WakeWaitingPeerJobs peer now db = (res, db') \<Longrightarrow> node_op U C node db db'"
| WakeWaitingMountJobs: "WakeWaitingMountJobs mountID now db = (res, db') \<Longrightarrow> node_op U C node db db'"
| ReplaceJobItems: "ReplaceJobItems jobID items db = (res, db') \<Longrightarrow> node_op U C node db db'"
| UpdateJobItem: "UpdateJobItem item db = (res, db') \<Longrightarrow> node_op U C node db db'"
| RecordJobEvent: "RecordJobEvent ev db = (res, db') \<Longrightarrow> node_op U C node db db'"
| CreateDestructivePlan: "CreateDestructivePlan U p now db = (res, db') \<Longrightarrow> node_op U C node db db'"
| CreateTransferMovePlan: "CreateTransferMovePlan U p now db = (res, db') \<Longrightarrow> node_op U C node db db'"
| PurgeExpiredDestructivePlans: "PurgeExpiredDestructivePlans now db = (res, db') \<Longrightarrow> node_op U C node db db'"
| AcceptDestructivePlan: "AcceptDestructivePlan U C planID subjectType subjectID tokenHash treeDigest destinationExists destinationDigest j key hash now db = (res, db') \<Longrightarrow> node_op U C node db db'"
| RenewJobAuthorization: "RenewJobAuthorization U C jobID node envelope expected keys now db = (res, db') \<Longrightarrow> node_op U C node db db'"
| RegisterSignedJobAuthorization: "RegisterSignedJobAuthorization U C jobID node envelope keys now db = (res, db') \<Longrightarrow> node_op U C node db db'"
| CreateUploadSession: "CreateUploadSession u db = (res, db') \<Longrightarrow> node_op U C node db db'"
| ReauthorizeUploadSession: "ReauthorizeUploadSession C sessionID actorID credentialID requestID db = (res, db') \<Longrightarrow> node_op U C node db db'"
| TouchUploadSession: "TouchUploadSession sessionID now expires db = (res, db') \<Longrightarrow> node_op U C node db db'"
| UpdateUploadSession: "UpdateUploadSession u db = (res, db') \<Longrightarrow> node_op U C node db db'"
| DeleteUploadSession: "DeleteUploadSession sessionID db = (res, db') \<Longrightarrow> node_op U C node db db'"
| PutTrashItem: "PutTrashItem i db = (res, db') \<Longrightarrow> node_op U C node db db'"
| DeleteTrashItem: "DeleteTrashItem itemID db = (res, db') \<Longrightarrow> node_op U C node db db'"
| StageOperationalToken: "StageOperationalToken hash correlation now db = (res, db') \<Longrightarrow> node_op U C node db db'"
| CommitOperationalToken: "CommitOperationalToken hash correlation now db = (res, db') \<Longrightarrow> node_op U C node db db'"
| RecoverOperationalToken: "RecoverOperationalToken hash correlation now db = (res, db') \<Longrightarrow> node_op U C node db db'"
| PutManagedTrust: "PutManagedTrust t db = (res, db') \<Longrightarrow> node_op U C node db db'"
| CreatePairingInvite: "CreatePairingInvite v hash db = (res, db') \<Longrightarrow> node_op U C node db db'"
| RevokePairingInvite: "RevokePairingInvite inviteID now db = (res, db') \<Longrightarrow> node_op U C node db db'"
| CreatePairingRequest: "CreatePairingRequest q hash db = (res, db') \<Longrightarrow> node_op U C node db db'"
| ApprovePairingInvite: "ApprovePairingInvite inviteID hash v now db = (res, db') \<Longrightarrow> node_op U C node db db'"
| ResolvePairingRequest: "ResolvePairingRequest requestID status v now db = (res, db') \<Longrightarrow> node_op U C node db db'"
| UpdatePeerHealth: "UpdatePeerHealth peerID st seen failures db = (res, db') \<Longrightarrow> node_op U C node db db'"
| UpdatePeerEndpoints: "UpdatePeerEndpoints peerID address mtls correlation db = (res, db') \<Longrightarrow> node_op U C node db db'"
| RecoverPeerIdentity: "RecoverPeerIdentity peerID fingerprint correlation db = (res, db') \<Longrightarrow> node_op U C node db db'"
| ApplyPeerIdentityHandover: "ApplyPeerIdentityHandover peerID pe pf ne nf correlation db = (res, db') \<Longrightarrow> node_op U C node db db'"
| ConfirmPeerIdentityHandover: "ConfirmPeerIdentityHandover peerID epoch fingerprint db = (res, db') \<Longrightarrow> node_op U C node db db'"
| RevokePeer: "RevokePeer peerID correlation now clock db = (res, db') \<Longrightarrow> node_op U C node db db'"
| ApplyConfiguration: "ApplyConfiguration revision mounts grants settings now clock db = (res, db') \<Longrightarrow> node_op U C node db db'"
| UpsertMount: "UpsertMount m db = (res, db') \<Longrightarrow> node_op U C node db db'"
| DeleteMount: "DeleteMount mountID db = (res, db') \<Longrightarrow> node_op U C node db db'"
| CreateTransferGrant: "CreateTransferGrant g clock db = (res, db') \<Longrightarrow> node_op U C node db db'"
| UpdateTransferGrant: "UpdateTransferGrant g clock db = (res, db') \<Longrightarrow> node_op U C node db db'"
| DeleteTransferGrant: "DeleteTransferGrant grantID correlation now clock db = (res, db') \<Longrightarrow> node_op U C node db db'"
| restarted: "db' = db\<lparr>db_managed := (db_keys db ''configuration'' [] \<noteq> [])\<rparr> \<Longrightarrow> node_op U C node db db'"

lemma creation_steps:
  "CreateJob j key db = (res, db') \<Longrightarrow> node_step U C node db db'"
  "CreateJobWithItems j items key db = (res, db') \<Longrightarrow> node_step U C node db db'"
  "CreateJobAwaitingAuthorization j actorID credentialID key hash db = (res, db') \<Longrightarrow> typed_db db \<Longrightarrow> node_step U C node db db'"
  "CreatePlannedJobAwaitingAuthorization j items actorID credentialID key hash db = (res, db') \<Longrightarrow> typed_db db \<Longrightarrow> node_step U C node db db'"
  "CreatePlannedMoveAwaitingAuthorization U j items actorID credentialID key hash b db = (res, db') \<Longrightarrow> typed_db db \<Longrightarrow> node_step U C node db db'"
  unfolding CreateJob_def CreateJobWithItems_def CreateJobAwaitingAuthorization_def CreatePlannedJobAwaitingAuthorization_def
    CreatePlannedMoveAwaitingAuthorization_def
  by (auto simp: idle_step elim!: CreateJobWithItemsHashed_step createJobAwaitingAuthorization_step split: if_split_asm)

lemmas op_steps = CreateJobWithItemsHashed_step creation_steps UpdateJob_step UpdateJobWithEvent_step
  ClaimNextSecuredJob_step ClaimNextJob_step wake_steps ReplaceJobItems_step item_event_steps CreateDestructivePlan_step
  CreateTransferMovePlan_step PurgeExpiredDestructivePlans_step AcceptDestructivePlan_step RenewJobAuthorization_step
  RegisterSignedJobAuthorization_step CreateUploadSession_step ReauthorizeUploadSession_step upload_change_steps other_value_steps
  pairing_steps RevokePairingInvite_step ApprovePairingInvite_step ResolvePairingRequest_step peer_steps RevokePeer_step
  ApplyConfiguration_step mount_grant_steps

lemma node_op_step: "node_op U C node db db' \<Longrightarrow> typed_db db \<Longrightarrow> node_step U C node db db'"
  by (erule node_op.cases) (simp_all add: op_steps node_step.quiet)

end
