(* ===== verification/Node_Invariants.thy ===== *)
theory Node_Invariants
  imports Node_Ops
begin

text \<open>
  Invariants of the reachable states of a node and relations between a state and any later one. Both
  follow from the specification of the transactions alone: the locale \<open>node_invariant\<close> takes an
  invariant from the transactions to every reachable state, \<open>node_history\<close> takes a relation to every
  later state, and each is interpreted for the invariants and relations of this theory.
\<close>

subsection \<open>Reachable states\<close>

definition fresh_db :: node_db where
  "fresh_db = \<lparr>db_recs = [], db_sequence = 0, db_version = 1, db_managed = False\<rparr>"

inductive reachable :: "unicode_tables \<Rightarrow> crypto \<Rightarrow> string \<Rightarrow> node_db \<Rightarrow> bool" for U C node where
  fresh: "reachable U C node fresh_db"
| step: "reachable U C node db \<Longrightarrow> node_op U C node db db' \<Longrightarrow> reachable U C node db'"

locale node_invariant =
  fixes I :: "unicode_tables \<Rightarrow> crypto \<Rightarrow> string \<Rightarrow> node_db \<Rightarrow> bool"
  assumes fresh: "I U C node fresh_db"
    and lookups: "I U C node db \<Longrightarrow> (\<And>b k. db_lookup db' b k = db_lookup db b k) \<Longrightarrow> I U C node db'"
    and kept: "typed_db db \<Longrightarrow> I U C node db \<Longrightarrow> writes_ok U C node db rs \<Longrightarrow> I U C node (db_commit db rs)"
begin

lemma step:
  assumes "node_step U C node db db'" "typed_db db" "I U C node db"
  shows "I U C node db'"
  using assms(1)
proof cases
  case quiet
  then show ?thesis using assms(3) by (elim lookups) (rule quiet_lookup)
next
  case (commit db1 rs)
  then show ?thesis using lookups [OF kept [OF assms(2,3) commit(3)]] by (simp add: quiet_commit)
qed

end

lemma typing_invariant: "node_invariant (\<lambda>U C node. typed_db)"
proof unfold_locales
  show "typed_db fresh_db" by (simp add: typed_db_def fresh_db_def db_lookup_def)
next
  fix db db' :: node_db assume "typed_db db" "\<And>b k. db_lookup db' b k = db_lookup db b k"
  then show "typed_db db'" by (simp add: typed_db_def)
qed (rule typed_db_commit)

interpretation typing: node_invariant "\<lambda>U C node. typed_db"
  by (rule typing_invariant)

lemma node_op_typed: "node_op U C node db db' \<Longrightarrow> typed_db db \<Longrightarrow> typed_db db'"
  using typing.step node_op_step by blast

lemma reachable_typed: "reachable U C node db \<Longrightarrow> typed_db db"
  by (induction rule: reachable.induct) (simp_all add: typing.fresh node_op_typed)

context node_invariant
begin

lemma op: "node_op U C node db db' \<Longrightarrow> typed_db db \<Longrightarrow> I U C node db \<Longrightarrow> I U C node db'"
  using step node_op_step by blast

lemma always: "reachable U C node db \<Longrightarrow> I U C node db"
proof (induction rule: reachable.induct)
  case (step db db')
  then show ?case using op reachable_typed by blast
qed (rule fresh)

end

locale node_history =
  fixes R :: "node_db \<Rightarrow> node_db \<Rightarrow> bool"
  assumes same: "(\<And>b k. db_lookup db' b k = db_lookup db b k) \<Longrightarrow> R db db'"
    and trans: "R db db' \<Longrightarrow> R db' db'' \<Longrightarrow> R db db''"
    and kept: "reachable U C node db \<Longrightarrow> writes_ok U C node db rs \<Longrightarrow> R db (db_commit db rs)"
begin

lemma op:
  assumes "reachable U C node db" "node_op U C node db db'"
  shows "R db db'"
  using node_op_step [OF assms(2) reachable_typed [OF assms(1)]]
proof cases
  case quiet
  then show ?thesis by (intro same) (rule quiet_lookup)
next
  case (commit db1 rs)
  then have "R (db_commit db rs) db'" by (intro same) (simp add: quiet_commit)
  with kept [OF assms(1) commit(3)] show ?thesis by (rule trans)
qed

lemma later:
  assumes "(node_op U C node)\<^sup>*\<^sup>* db db'" "reachable U C node db"
  shows "R db db' \<and> reachable U C node db'"
  using assms
proof (induction rule: rtranclp_induct)
  case (step db' db'')
  then show ?case using op trans reachable.step by blast
qed (simp add: same)

end

subsection \<open>Only executable jobs run\<close>

definition job_ok :: "job \<Rightarrow> bool" where
  "job_ok j \<longleftrightarrow> unsecured j \<or> executableSecuredJob j \<or> job_State j \<in> {''waiting_validation'', ''paused'', ''canceled''}"

lemma security_kept [simp]:
  "unsecured (start_job j now) = unsecured j" "executableSecuredJob (start_job j now) = executableSecuredJob j"
  "unsecured (park_job j now) = unsecured j" "executableSecuredJob (park_job j now) = executableSecuredJob j"
  "unsecured (wake_job j now rc) = unsecured j" "executableSecuredJob (wake_job j now rc) = executableSecuredJob j"
  by (simp_all add: start_job_def park_job_def wake_job_def unsecured_def executableSecuredJob_def securedJobKind_def Let_def)

lemma created_at_kept [simp]:
  "unsecured (j\<lparr>job_CreatedAt := t\<rparr>) = unsecured j" "executableSecuredJob (j\<lparr>job_CreatedAt := t\<rparr>) = executableSecuredJob j"
  "same_security j (i\<lparr>job_CreatedAt := t\<rparr>) = same_security j i" "same_operation j (i\<lparr>job_CreatedAt := t\<rparr>) = same_operation j i"
  by (simp_all add: unsecured_def executableSecuredJob_def securedJobKind_def same_security_def same_operation_def)

lemma update_executable:
  "same_security old next \<Longrightarrow> same_operation old next \<Longrightarrow> executableSecuredJob old \<Longrightarrow> executableSecuredJob next"
  unfolding same_security_def same_operation_def executableSecuredJob_def securedJobKind_def by metis

lemma states_after [simp]:
  "job_State (start_job j now) = ''running''" "job_State (park_job j now) = ''waiting_validation''"
  "job_State (wake_job j now True) = ''waiting_validation''" "job_State (wake_job j now False) = ''queued''"
  "job_State (await_authorization j a c) = ''waiting_validation''" "job_State (accepted_job j p) = ''waiting_validation''"
  by (simp_all add: start_job_def park_job_def wake_job_def await_authorization_def accepted_job_def Let_def)

lemma renewed_kind [simp]: "securedJobKind (renewed_job j now) = securedJobKind j" "job_SignedAuthBound (renewed_job j now)"
proof -
  have "job_Type (renewed_job j now) = job_Type j" "job_DestructivePlanID (renewed_job j now) = job_DestructivePlanID j"
    by (simp_all add: renewed_job_def Let_def)
  then show "securedJobKind (renewed_job j now) = securedJobKind j" by (simp add: securedJobKind_def)
qed (simp add: renewed_job_def Let_def)

lemma renewed_state:
  "job_State (renewed_job j now) \<in> {''paused'', ''waiting_validation''} \<or> job_State (renewed_job j now) = ''queued'' \<and> securedJobKind j"
  by (simp add: renewed_job_def Let_def)

lemma update_unsecured: "same_security old next \<Longrightarrow> unsecured next = unsecured old"
  by (simp add: same_security_def unsecured_def)

lemma update_cases:
  assumes "validSecuredJobUpdate old next"
  obtains (unsecured) "same_security old next" "unsecured old"
    | (executable) "same_security old next" "\<not> unsecured old" "same_operation old next" "executableSecuredJob old"
    | (held) "same_security old next" "\<not> unsecured old" "same_operation old next" "\<not> executableSecuredJob old"
        "job_State next \<in> {''waiting_validation'', ''paused'', ''canceled''}"
  using assms unfolding validSecuredJobUpdate_def by (metis (no_types))

lemma job_change_ok:
  "job_change U C node db rs old j \<Longrightarrow> (\<And>j'. old = Some j' \<Longrightarrow> job_ok j') \<Longrightarrow> job_ok j"
proof (induction rule: job_change.induct)
  case (updated old "next")
  from updated(1) show ?case
  proof (cases rule: update_cases)
    case unsecured
    then show ?thesis by (simp add: job_ok_def update_unsecured)
  next
    case executable
    then show ?thesis by (simp add: job_ok_def update_executable)
  qed (simp add: job_ok_def)
next
  case (renewed j a now)
  then show ?case
    using renewed_state [of j now] by (auto simp: job_ok_def executableSecuredJob_def)
qed (auto simp: job_ok_def)

definition secured_jobs :: "node_db \<Rightarrow> bool" where
  "secured_jobs db \<longleftrightarrow> (\<forall>k j. job_at db k = Some j \<longrightarrow> job_ok j)"

lemma fresh_val [simp]: "val_at un fresh_db b k = None"
  by (simp add: val_at_lookup fresh_db_def db_lookup_def)

interpretation secured: node_invariant "\<lambda>U C node. secured_jobs"
proof unfold_locales
  fix U C node db rs
  assume ok: "secured_jobs db" "writes_ok U C node db rs"
  have "job_ok j" if "job_at (db_commit db rs) k = Some j" for k j
    using after_job_commit [OF ok(2), of k]
  proof cases
    case kept
    then show ?thesis using ok(1) that unfolding secured_jobs_def by metis
  next
    case (changed j')
    have "job_ok j'" using job_change_ok [OF changed(4)] ok(1) unfolding secured_jobs_def by metis
    then show ?thesis using changed(1) that by simp
  qed
  then show "secured_jobs (db_commit db rs)" unfolding secured_jobs_def by blast
next
  fix db db' :: node_db
  assume "secured_jobs db" "\<And>b k. db_lookup db' b k = db_lookup db b k"
  then show "secured_jobs db'" by (simp add: secured_jobs_def val_at_lookup)
qed (simp add: secured_jobs_def)

subsection \<open>Leases of bound jobs\<close>

text \<open>What a lease is matched against stays the same, once the job is secured.\<close>

lemma matches_same:
  assumes "jobAuthorizationMatches C j b node" "same_operation j i" "job_ID i = job_ID j"
    "job_RequiresSignedAuth i = job_RequiresSignedAuth j" "job_SignedAuthActorID i = job_SignedAuthActorID j"
    "job_SignedAuthCredentialID i = job_SignedAuthCredentialID j"
  shows "jobAuthorizationMatches C i b node"
proof -
  have "options_of i = options_of j" using assms(2) by (simp add: options_of_def same_operation_def)
  moreover have "job_Type i = job_Type j" "job_MountID i = job_MountID j" "job_SourcePath i = job_SourcePath j"
    "job_Destination i = job_Destination j" "job_PeerNodeID i = job_PeerNodeID j" "job_SourceGrantID i = job_SourceGrantID j"
    "job_DestinationGrantID i = job_DestinationGrantID j"
    using assms(2) by (simp_all add: same_operation_def)
  ultimately show ?thesis using assms(1,3-) unfolding jobAuthorizationMatches_def by (simp only:)
qed

lemma same_operation_kept [simp]:
  "same_operation j (start_job j now)" "same_operation j (park_job j now)" "same_operation j (wake_job j now rc)" "same_operation j (renewed_job j now)"
  by (simp_all add: same_operation_def start_job_def park_job_def wake_job_def renewed_job_def Let_def)

text \<open>What no transaction changes of a job.\<close>

definition identity_kept :: "job \<Rightarrow> job \<Rightarrow> bool" where
  "identity_kept j i \<longleftrightarrow> job_ID i = job_ID j \<and> job_CreatedAt i = job_CreatedAt j \<and> job_DestructivePlanID i = job_DestructivePlanID j
     \<and> job_RequiresSignedAuth i = job_RequiresSignedAuth j \<and> job_SignedAuthActorID i = job_SignedAuthActorID j
     \<and> job_SignedAuthCredentialID i = job_SignedAuthCredentialID j \<and> (job_SignedAuthBound j \<longrightarrow> job_SignedAuthBound i)
     \<and> (\<not> unsecured j \<longrightarrow> same_operation j i)"

lemma identity_refl [simp]: "identity_kept j j"
  by (simp add: identity_kept_def same_operation_def)

lemma identity_secured: "identity_kept j i \<Longrightarrow> \<not> unsecured j \<Longrightarrow> \<not> unsecured i"
  by (auto simp: identity_kept_def unsecured_def)

lemma same_operation_trans: "same_operation i j \<Longrightarrow> same_operation j l \<Longrightarrow> same_operation i l"
  by (simp add: same_operation_def)

lemma identity_trans: "identity_kept i j \<Longrightarrow> identity_kept j l \<Longrightarrow> identity_kept i l"
  using identity_secured [of i j] by (auto simp: identity_kept_def intro: same_operation_trans)

lemma identity_steps [simp]:
  "identity_kept j (start_job j now)" "identity_kept j (park_job j now)" "identity_kept j (wake_job j now rc)" "identity_kept j (renewed_job j now)"
  by (simp_all add: identity_kept_def) (simp_all add: start_job_def park_job_def wake_job_def renewed_job_def Let_def)

lemma identity_change:
  assumes "job_change U C node db rs (Some j) i"
  shows "identity_kept j i"
  using assms
proof (cases rule: job_change.cases)
  case (updated "next")
  from updated(2) show ?thesis
    by (cases rule: update_cases) (auto simp: updated identity_kept_def same_security_def)
qed simp_all

lemma matches_kept: "jobAuthorizationMatches C j b node \<Longrightarrow> identity_kept j i \<Longrightarrow> \<not> unsecured j \<Longrightarrow> jobAuthorizationMatches C i b node"
  by (rule matches_same) (simp_all add: identity_kept_def)

lemma bound_secured: "job_SignedAuthBound j \<Longrightarrow> \<not> unsecured j"
  by (simp add: unsecured_def)

lemma new_job_unbound: "job_change U C node db rs None j \<Longrightarrow> \<not> job_SignedAuthBound j"
  by (auto elim!: job_change.cases simp: unsecured_def await_authorization_def accepted_job_def)

definition leases_ok :: "crypto \<Rightarrow> string \<Rightarrow> node_db \<Rightarrow> bool" where
  "leases_ok C node db \<longleftrightarrow>
     (\<forall>k j. job_at db k = Some j \<longrightarrow> job_SignedAuthBound j \<longrightarrow>
        (\<exists>a. auth_at db k = Some a \<and> jobAuthorizationMatches C j (auth_Binding a) node))
   \<and> (\<forall>k a. auth_at db k = Some a \<longrightarrow> auth_Revision a \<noteq> 0 \<and> (\<exists>j. job_at db k = Some j \<and> job_SignedAuthBound j))"

lemma leases_bound:
  "leases_ok C node db \<Longrightarrow> job_at db k = Some j \<Longrightarrow> job_SignedAuthBound j \<Longrightarrow>
   \<exists>a. auth_at db k = Some a \<and> jobAuthorizationMatches C j (auth_Binding a) node"
  by (simp add: leases_ok_def)

lemma leases_job: "leases_ok C node db \<Longrightarrow> auth_at db k = Some a \<Longrightarrow> auth_Revision a \<noteq> 0 \<and> (\<exists>j. job_at db k = Some j \<and> job_SignedAuthBound j)"
  by (simp add: leases_ok_def)

lemma becomes_bound:
  assumes "job_change U C node db rs (Some j0) j" "\<not> job_SignedAuthBound j0" "job_SignedAuthBound j"
  obtains a now where "put_auth a now \<in> set rs" "auth_JobID a = job_ID j0" "j = renewed_job j0 now"
  using assms(1)
proof (cases rule: job_change.cases)
  case (updated "next")
  from updated(2) show ?thesis using assms(2,3) by (cases rule: update_cases) (simp_all add: updated same_security_def)
next
  case (renewed a now)
  then show ?thesis using that by blast
qed (use assms(2,3) in \<open>simp_all add: start_job_def park_job_def wake_job_def Let_def executableSecuredJob_def split: if_split_asm\<close>)

text \<open>One key after a transaction: the job against the lease before, then against the lease after.\<close>

lemma bound_after:
  assumes ok: "leases_ok C node db" "writes_ok U C node db rs"
    and j: "job_at (db_commit db rs) k = Some j" "job_SignedAuthBound j"
  shows "\<exists>a. auth_at (db_commit db rs) k = Some a \<and> jobAuthorizationMatches C j (auth_Binding a) node"
proof (cases "\<exists>o'. job_at db k = Some o' \<and> job_SignedAuthBound o' \<and> identity_kept o' j")
  case True
  then obtain j0 a where j0: "job_at db k = Some j0" "job_SignedAuthBound j0" "identity_kept j0 j"
    and a: "auth_at db k = Some a" "jobAuthorizationMatches C j0 (auth_Binding a) node"
    using leases_bound [OF ok(1)] by blast
  have m: "jobAuthorizationMatches C j (auth_Binding a) node"
    using a(2) j0(3) bound_secured [OF j0(2)] by (rule matches_kept)
  show ?thesis
  proof (cases rule: after_auth_commit [OF ok(2), of k])
    case 1
    then show ?thesis using a m by simp
  next
    case (2 a' now)
    then have "auth_Binding a' = auth_Binding a" using a(1) by (auto elim: auth_change.cases)
    then show ?thesis using 2(3) m by simp
  qed
next
  case False
  from after_job_commit [OF ok(2), of k] show ?thesis
  proof cases
    case kept
    then show ?thesis using False j by (metis identity_refl)
  next
    case (changed i)
    then have i: "i = j" "job_change U C node db rs (job_at db k) j" using j(1) by simp_all
    then obtain j0 where j0: "job_at db k = Some j0"
      using new_job_unbound j(2) by (cases "job_at db k") auto
    then have "\<not> job_SignedAuthBound j0" using False identity_change i(2) by auto
    then obtain a now where a: "put_auth a now \<in> set rs" "auth_JobID a = job_ID j0" "j = renewed_job j0 now"
      using becomes_bound i(2) j0 j(2) by metis
    have k: "auth_JobID a = k" using a changed(3) i(1) by simp
    with a(1) ok(2) have found: "auth_at (db_commit db rs) k = Some a" using put_auth_found by blast
    from after_auth_commit [OF ok(2), of k] have "auth_change U C node db rs (auth_at db k) a"
      using a(1) k found by cases auto
    then have "jobAuthorizationMatches C j0 (auth_Binding a) node"
      using \<open>\<not> job_SignedAuthBound j0\<close> j0 k by cases (auto simp: lease_ok_def)
    then have "jobAuthorizationMatches C j (auth_Binding a) node"
      unfolding a(3) by (rule matches_same) (use identity_steps(4) [of j0 now] in \<open>simp_all add: identity_kept_def\<close>)
    with found show ?thesis by blast
  qed
qed

lemma lease_after:
  assumes ok: "leases_ok C node db" "writes_ok U C node db rs" "typed_db db" and a: "auth_at (db_commit db rs) k = Some a"
  shows "auth_Revision a \<noteq> 0 \<and> (\<exists>j. job_at (db_commit db rs) k = Some j \<and> job_SignedAuthBound j)"
proof -
  have kept: "\<exists>j. job_at (db_commit db rs) k = Some j \<and> job_SignedAuthBound j" if "job_at db k = Some j0" "job_SignedAuthBound j0" for j0
    using after_job_commit [OF ok(2), of k]
  proof cases
    case (changed i)
    then show ?thesis using identity_change [of U C node db rs j0 i] that by (auto simp: identity_kept_def)
  qed (use that in simp)
  show ?thesis
  proof (cases rule: after_auth_commit [OF ok(2), of k])
    case 1
    then show ?thesis using leases_job [OF ok(1), of k a] a kept by auto
  next
    case (2 a' now)
    then have [simp]: "a' = a" using a by simp
    from 2(4) show ?thesis
    proof cases
      case (first j now)
      then have "job_ID j = k" using typed_job [OF ok(3)] 2(2) by (simp add: val_at_Some_get)
      then show ?thesis using put_job_found [OF ok(2) first(4)] first(5) by simp
    next
      case (later j old)
      then show ?thesis using kept 2(2) by (auto simp: eq_neg_iff_add_eq_0)
    qed
  qed
qed

interpretation leases: node_invariant "\<lambda>U C node. leases_ok C node"
proof unfold_locales
  show "leases_ok C node (db_commit db rs)" if "leases_ok C node db" "writes_ok U C node db rs" "typed_db db" for U C node db rs
    unfolding leases_ok_def using bound_after [OF that(1,2)] lease_after [OF that] by blast
  show "leases_ok C node db'" if "leases_ok C node db" "\<And>b k. db_lookup db' b k = db_lookup db b k" for C node and db db' :: node_db
    using that by (simp add: leases_ok_def val_at_lookup)
qed (simp add: leases_ok_def)

subsection \<open>A plan and the job that consumed it\<close>

definition plans_ok :: "node_db \<Rightarrow> bool" where
  "plans_ok db \<longleftrightarrow>
     (\<forall>k p. plan_at db k = Some p \<longrightarrow> dp_ConsumedJobID p \<noteq> [] \<longrightarrow>
        (\<exists>j. job_at db (dp_ConsumedJobID p) = Some j \<and> job_DestructivePlanID j = k))
   \<and> (\<forall>k j. job_at db k = Some j \<longrightarrow> job_DestructivePlanID j \<noteq> [] \<longrightarrow>
        (\<exists>p. plan_at db (job_DestructivePlanID j) = Some p \<and> dp_ConsumedJobID p = k))"

lemma plans_consumed:
  "plans_ok db \<Longrightarrow> plan_at db k = Some p \<Longrightarrow> dp_ConsumedJobID p \<noteq> [] \<Longrightarrow>
   \<exists>j. job_at db (dp_ConsumedJobID p) = Some j \<and> job_DestructivePlanID j = k"
  by (simp add: plans_ok_def)

lemma plans_backed:
  "plans_ok db \<Longrightarrow> job_at db k = Some j \<Longrightarrow> job_DestructivePlanID j \<noteq> [] \<Longrightarrow>
   \<exists>p. plan_at db (job_DestructivePlanID j) = Some p \<and> dp_ConsumedJobID p = k"
  by (simp add: plans_ok_def)

lemma consumed_plan_kept:
  assumes "writes_ok U C node db rs" "plan_at db k = Some p" "dp_ConsumedJobID p \<noteq> []"
  shows "plan_at (db_commit db rs) k = Some p"
proof (cases rule: after_plan_commit [OF assms(1), of k])
  case 2
  then show ?thesis using assms(2,3) by cases simp_all
qed (use assms(2) in simp)

lemma job_kept:
  assumes "writes_ok U C node db rs" "job_at db k = Some j"
  shows "\<exists>i. job_at (db_commit db rs) k = Some i \<and> identity_kept j i"
  using after_job_commit [OF assms(1), of k]
proof cases
  case (changed i)
  then show ?thesis using identity_change [of U C node db rs j i] assms(2) by auto
qed (use assms(2) in simp)

lemma consumed_after:
  assumes ok: "plans_ok db" "writes_ok U C node db rs" "typed_db db"
    and p: "plan_at (db_commit db rs) k = Some p" "dp_ConsumedJobID p \<noteq> []"
  shows "\<exists>j. job_at (db_commit db rs) (dp_ConsumedJobID p) = Some j \<and> job_DestructivePlanID j = k"
proof -
  have old: ?thesis if h: "plan_at db k = Some p"
  proof -
    obtain j where "job_at db (dp_ConsumedJobID p) = Some j" "job_DestructivePlanID j = k"
      using plans_consumed [OF ok(1) h p(2)] by blast
    then show ?thesis using job_kept [OF ok(2)] by (auto simp: identity_kept_def)
  qed
  show ?thesis
  proof (cases rule: after_plan_commit [OF ok(2), of k])
    case 1
    then show ?thesis using old p(1) by simp
  next
    case 2
    then show ?thesis
    proof cases
      case (consumed q j key hash)
      have "dp_ID q = k" using typed_plan [OF ok(3)] consumed(1) by (simp add: val_at_Some_get)
      then show ?thesis using consumed p put_job_found [OF ok(2), of j] by simp
    qed (use p in simp_all)
  qed
qed

lemma new_job_plan:
  assumes "job_change U C node db rs None j" "job_DestructivePlanID j \<noteq> []"
  shows "\<exists>p. put_plan p \<in> set rs \<and> dp_ID p = job_DestructivePlanID j \<and> dp_ConsumedJobID p = job_ID j"
  using assms(1)
proof (cases rule: job_change.cases)
  case created
  then show ?thesis using assms(2) by (simp add: unsecured_def)
next
  case (awaiting j0 actorID credentialID)
  have "job_DestructivePlanID j = job_DestructivePlanID j0" "job_ID j = job_ID j0"
    unfolding awaiting(1) by (simp_all add: await_authorization_def)
  then show ?thesis using awaiting(4) assms(2) by metis
next
  case (accepted j0 p' p)
  have "job_DestructivePlanID j = dp_ID p" "job_ID j = job_ID j0"
    unfolding accepted(1) by (simp_all add: accepted_job_def)
  then show ?thesis using accepted by metis
qed

lemma typed_key: "typed_db db \<Longrightarrow> val_at un db b k = Some x \<Longrightarrow> k \<noteq> []"
  by (auto simp: val_at_Some_get get_as_Inr_iff well_typed_def dest!: typed_lookup)

lemma backed_after:
  assumes ok: "plans_ok db" "writes_ok U C node db rs" "typed_db db"
    and j: "job_at (db_commit db rs) k = Some j" "job_DestructivePlanID j \<noteq> []"
  shows "\<exists>p. plan_at (db_commit db rs) (job_DestructivePlanID j) = Some p \<and> dp_ConsumedJobID p = k"
proof (cases "job_at db k")
  case (Some j0)
  then have same: "job_DestructivePlanID j = job_DestructivePlanID j0"
    using job_kept [OF ok(2) Some] j(1) by (auto simp: identity_kept_def)
  obtain p where p: "plan_at db (job_DestructivePlanID j0) = Some p" "dp_ConsumedJobID p = k"
    using plans_backed [OF ok(1) Some] j(2) same by auto
  have "plan_at (db_commit db rs) (job_DestructivePlanID j0) = Some p"
    using consumed_plan_kept [OF ok(2) p(1)] typed_key [OF ok(3) Some] p(2) by simp
  then show ?thesis using p(2) same by metis
next
  case None
  from after_job_commit [OF ok(2), of k] show ?thesis
  proof cases
    case (changed i)
    then obtain p where "put_plan p \<in> set rs" "dp_ID p = job_DestructivePlanID j" "dp_ConsumedJobID p = k"
      using new_job_plan [of U C node db rs j] None j by auto
    then show ?thesis using put_plan_found [OF ok(2), of p] by auto
  qed (use None j in simp)
qed

interpretation plans: node_invariant "\<lambda>U C node. plans_ok"
proof unfold_locales
  show "plans_ok (db_commit db rs)" if "plans_ok db" "writes_ok U C node db rs" "typed_db db" for U C node db rs
    unfolding plans_ok_def using consumed_after [OF that] backed_after [OF that] by blast
  show "plans_ok db'" if "plans_ok db" "\<And>b k. db_lookup db' b k = db_lookup db b k" for db db' :: node_db
    using that by (simp add: plans_ok_def val_at_lookup)
qed (simp add: plans_ok_def)

subsection \<open>What stays\<close>

text \<open>A secured job that was canceled or has completed stays so.\<close>

definition terminal :: "string \<Rightarrow> bool" where
  "terminal st \<longleftrightarrow> st \<in> {''canceled'', ''completed'', ''completed_with_warnings''}"

definition job_lasts :: "job \<Rightarrow> job \<Rightarrow> bool" where
  "job_lasts j i \<longleftrightarrow> identity_kept j i \<and> (\<not> unsecured j \<and> terminal (job_State j) \<longrightarrow> job_State i = job_State j)"

lemma update_terminal:
  assumes "validSecuredJobUpdate old next" "\<not> unsecured old" "terminal (job_State old)" "job_ok old"
  shows "job_State next = job_State old"
proof (cases "job_State old = ''canceled''")
  case True
  then show ?thesis using assms(1,2) unfolding validSecuredJobUpdate_def by metis
next
  case False
  then have st: "job_State old \<in> {''completed'', ''completed_with_warnings''}" using assms(3) by (auto simp: terminal_def)
  then have "executableSecuredJob old" using assms(2,4) by (auto simp: job_ok_def)
  moreover have "\<not> active_state (job_State old)" using st by (auto simp: active_state_def)
  ultimately show ?thesis using assms(1,2) st unfolding validSecuredJobUpdate_def by metis
qed

lemma terminal_idle:
  "terminal (job_State j) \<Longrightarrow> job_State j \<noteq> ''queued'' \<and> job_State j \<noteq> ''waiting_peer'' \<and> job_State j \<noteq> ''waiting_mount''
     \<and> job_State j \<notin> recovered_states \<and> \<not> renewable j"
  unfolding terminal_def renewable_def recovered_states_def by (elim insertE emptyE) simp_all

lemma job_change_terminal:
  assumes "job_change U C node db rs (Some j) i" "job_ok j" "\<not> unsecured j" "terminal (job_State j)"
  shows "job_State i = job_State j"
  using assms(1)
proof (cases rule: job_change.cases)
  case (updated "next")
  have "job_State i = job_State next" unfolding updated(1) by simp
  then show ?thesis using update_terminal [OF updated(2) assms(3,4,2)] by (rule trans)
next
  case (started now)
  then show ?thesis using terminal_idle [OF assms(4)] by blast
next
  case (started_secured now)
  then show ?thesis using terminal_idle [OF assms(4)] by blast
next
  case (parked now)
  then show ?thesis using terminal_idle [OF assms(4)] by blast
next
  case (woken now)
  then show ?thesis using terminal_idle [OF assms(4)] by blast
next
  case (recovered now)
  then show ?thesis using terminal_idle [OF assms(4)] by blast
next
  case (renewed a now)
  then show ?thesis using terminal_idle [OF assms(4)] by blast
qed

lemma job_change_lasts: "job_change U C node db rs (Some j) i \<Longrightarrow> job_ok j \<Longrightarrow> job_lasts j i"
  unfolding job_lasts_def using identity_change job_change_terminal by blast

definition jobs_last :: "node_db \<Rightarrow> node_db \<Rightarrow> bool" where
  "jobs_last db db' \<longleftrightarrow> (\<forall>k j. job_at db k = Some j \<longrightarrow> (\<exists>i. job_at db' k = Some i \<and> job_lasts j i))"

lemma job_lasts_trans: "job_lasts i j \<Longrightarrow> job_lasts j l \<Longrightarrow> job_lasts i l"
  unfolding job_lasts_def by (metis identity_trans identity_secured)

lemma jobs_last_commit:
  assumes "secured_jobs db" "writes_ok U C node db rs"
  shows "jobs_last db (db_commit db rs)"
  unfolding jobs_last_def
proof (intro allI impI)
  fix k j assume j: "job_at db k = Some j"
  have ok: "job_ok j" using assms(1) j unfolding secured_jobs_def by blast
  from after_job_commit [OF assms(2), of k] show "\<exists>i. job_at (db_commit db rs) k = Some i \<and> job_lasts j i"
  proof cases
    case kept
    have "job_lasts j j" by (simp add: job_lasts_def)
    then show ?thesis using j kept(1) by metis
  next
    case (changed i)
    have "job_lasts j i" using changed(4) ok unfolding j by (rule job_change_lasts)
    then show ?thesis using changed(1) by metis
  qed
qed

interpretation jobs: node_history jobs_last
proof unfold_locales
  show "jobs_last db db'" if "\<And>b k. db_lookup db' b k = db_lookup db b k" for db db' :: node_db
    using that by (simp add: jobs_last_def val_at_lookup job_lasts_def)
  show "jobs_last db db''" if "jobs_last db db'" "jobs_last db' db''" for db db' db''
    using that unfolding jobs_last_def by (blast intro: job_lasts_trans)
  show "jobs_last db (db_commit db rs)" if "reachable U C node db" "writes_ok U C node db rs" for U C node db rs
    using secured.always [OF that(1)] that(2) by (rule jobs_last_commit)
qed

text \<open>A lease record keeps its binding; its revision only grows, and a record of the same revision is the same.\<close>

definition lease_lasts :: "job_authorization \<Rightarrow> job_authorization \<Rightarrow> bool" where
  "lease_lasts a a' \<longleftrightarrow> auth_Binding a' = auth_Binding a \<and> (a' = a \<or> auth_Revision a < auth_Revision a')"

definition leases_last :: "node_db \<Rightarrow> node_db \<Rightarrow> bool" where
  "leases_last db db' \<longleftrightarrow> (\<forall>k a. auth_at db k = Some a \<longrightarrow> (\<exists>a'. auth_at db' k = Some a' \<and> lease_lasts a a'))"

lemma revision_grows:
  assumes "(r :: 64 word) \<noteq> - 1"
  shows "r < r + 1"
proof -
  have "unat (r + 1) \<noteq> 0" using assms by (simp add: unat_eq_0 eq_neg_iff_add_eq_0)
  then have "unat r + 1 \<noteq> 2 ^ 64" by (auto simp: unat_word_ariths)
  moreover have "unat r < 2 ^ LENGTH(64)" by (rule unsigned_less)
  ultimately have "unat (r + 1) = unat r + 1" by (simp add: unat_word_ariths)
  then show ?thesis by (simp add: word_less_nat_alt)
qed

lemma lease_lasts_trans: "lease_lasts a b \<Longrightarrow> lease_lasts b c \<Longrightarrow> lease_lasts a c"
  unfolding lease_lasts_def by (metis less_trans)

lemma leases_last_commit:
  assumes "writes_ok U C node db rs"
  shows "leases_last db (db_commit db rs)"
  unfolding leases_last_def
proof (intro allI impI)
  fix k a assume a: "auth_at db k = Some a"
  show "\<exists>a'. auth_at (db_commit db rs) k = Some a' \<and> lease_lasts a a'"
  proof (cases rule: after_auth_commit [OF assms, of k])
    case 1
    then show ?thesis using a by (simp add: lease_lasts_def)
  next
    case (2 a' now)
    from 2(4) have "lease_lasts a a'"
      unfolding a by cases (simp add: lease_lasts_def revision_grows)
    then show ?thesis using 2(3) by blast
  qed
qed

interpretation leases_history: node_history leases_last
proof unfold_locales
  show "leases_last db db'" if "\<And>b k. db_lookup db' b k = db_lookup db b k" for db db' :: node_db
    using that by (simp add: leases_last_def val_at_lookup lease_lasts_def)
  show "leases_last db db''" if "leases_last db db'" "leases_last db' db''" for db db' db''
    using that unfolding leases_last_def by (blast intro: lease_lasts_trans)
qed (rule leases_last_commit)

text \<open>A consumed plan is never changed and never removed.\<close>

definition plans_last :: "node_db \<Rightarrow> node_db \<Rightarrow> bool" where
  "plans_last db db' \<longleftrightarrow> (\<forall>k p. plan_at db k = Some p \<longrightarrow> dp_ConsumedJobID p \<noteq> [] \<longrightarrow> plan_at db' k = Some p)"

interpretation plans_history: node_history plans_last
proof unfold_locales
  show "plans_last db db'" if "\<And>b k. db_lookup db' b k = db_lookup db b k" for db db' :: node_db
    using that by (simp add: plans_last_def val_at_lookup)
  show "plans_last db (db_commit db rs)" if "writes_ok U C node db rs" for U C node db rs
    unfolding plans_last_def using consumed_plan_kept [OF that] by blast
qed (auto simp: plans_last_def)

text \<open>Idempotency records, bindings of mounts and grants, tombstones of grants, events and audit records.\<close>

definition lasting_bucket :: "string \<Rightarrow> bool" where
  "lasting_bucket b \<longleftrightarrow> b \<in> {''idempotency'', ''destructive_idempotency'', ''mount_bindings'', ''grant_bindings'', ''revoked_grants'', ''events'', ''audit''}"

definition value_at :: "node_db \<Rightarrow> string \<Rightarrow> string \<Rightarrow> stval option" where
  "value_at db b k = Option.bind (db_lookup db b k) rec_Data"

definition records_last :: "node_db \<Rightarrow> node_db \<Rightarrow> bool" where
  "records_last db db' \<longleftrightarrow> (\<forall>b k v. lasting_bucket b \<longrightarrow> value_at db b k = Some v \<longrightarrow> value_at db' b k = Some v)"

lemma write_lasting:
  assumes "write_ok U C node db rs r" "lasting_bucket (rec_Bucket r)" "\<not> historyBucket (rec_Bucket r)"
    "value_at db (rec_Bucket r) (rec_Key r) = Some v" "typed_db db"
  shows "\<not> rec_Delete r \<and> rec_Data r = Some v"
  using assms(1)
proof (cases rule: write_ok.cases)
  case (idempotency b k j x)
  then show ?thesis using assms(4) by (simp add: value_at_def)
next
  case (binding b k s)
  then show ?thesis using assms(4) by (auto simp: value_at_def val_at_lookup split: bind_splits)
next
  case (tombstone k p)
  then have "fits ''revoked_grants'' (rec_Key r) v"
    using assms(4,5) by (auto simp: value_at_def well_typed_def dest!: typed_lookup split: bind_splits)
  then have "v = VBool True" by (cases v) simp_all
  then show ?thesis using tombstone by simp
qed (use assms(2,3) in \<open>auto simp: lasting_bucket_def historyBucket_def\<close>)

lemma records_last_commit:
  assumes "typed_db db" "writes_ok U C node db rs"
  shows "records_last db (db_commit db rs)"
  unfolding records_last_def
proof (intro allI impI)
  fix b k v assume b: "lasting_bucket b" and v: "value_at db b k = Some v"
  show "value_at (db_commit db rs) b k = Some v"
  proof (cases rule: commit_lookup_cases [of db rs b k])
    case kept
    then show ?thesis using v by (simp add: value_at_def)
  next
    case (written l)
    have "db_exists db b k" using v by (auto simp: value_at_def split: bind_splits)
    then have "\<not> historyBucket b"
      using check_records_history [of "db_exists db" "[]" rs l] assms(2) written by (auto simp: writes_ok_def)
    then have "\<not> rec_Delete l \<and> rec_Data l = Some v"
      using write_lasting [of U C node db rs l v] assms written b v by (simp add: writes_ok_def)
    then show ?thesis using written(4) by (simp add: value_at_def)
  qed
qed

interpretation records: node_history records_last
proof unfold_locales
  show "records_last db db'" if "\<And>b k. db_lookup db' b k = db_lookup db b k" for db db' :: node_db
    using that by (simp add: records_last_def value_at_def)
  show "records_last db (db_commit db rs)" if "reachable U C node db" "writes_ok U C node db rs" for U C node db rs
    using reachable_typed [OF that(1)] that(2) by (rule records_last_commit)
qed (auto simp: records_last_def)

text \<open>An invite that is no longer pending does not become pending again.\<close>

definition invite_lasts :: "invite_record \<Rightarrow> invite_record \<Rightarrow> bool" where
  "invite_lasts r r' \<longleftrightarrow> invr_SecretHash r' = invr_SecretHash r
     \<and> (inv_Status (invr_Invite r) \<noteq> ''pending'' \<longrightarrow> inv_Status (invr_Invite r') \<noteq> ''pending'')"

lemma invite_lasts_trans: "invite_lasts r r' \<Longrightarrow> invite_lasts r' r'' \<Longrightarrow> invite_lasts r r''"
  by (simp add: invite_lasts_def)

definition invites_last :: "node_db \<Rightarrow> node_db \<Rightarrow> bool" where
  "invites_last db db' \<longleftrightarrow> (\<forall>k r. invite_at db k = Some r \<longrightarrow> (\<exists>r'. invite_at db' k = Some r' \<and> invite_lasts r r'))"

lemma write_invite:
  assumes "write_ok U C node db rs q" "rec_Bucket q = ''invites''" "invite_at db (rec_Key q) = Some r"
  shows "\<exists>r'. \<not> rec_Delete q \<and> rec_Data q = Some (VInvite r') \<and> invr_SecretHash r' = invr_SecretHash r
    \<and> inv_Status (invr_Invite r') \<in> {''revoked'', ''consumed''}"
  using assms by (cases rule: write_ok.cases) (auto simp: val_at_None_lookup)

lemma invites_last_commit:
  assumes "writes_ok U C node db rs"
  shows "invites_last db (db_commit db rs)"
  unfolding invites_last_def
proof (intro allI impI)
  fix k r assume r: "invite_at db k = Some r"
  show "\<exists>r'. invite_at (db_commit db rs) k = Some r' \<and> invite_lasts r r'"
  proof (cases rule: commit_lookup_cases [of db rs "''invites''" k])
    case kept
    then have "invite_at (db_commit db rs) k = Some r" using r by (simp add: val_at_lookup)
    then show ?thesis by (simp add: invite_lasts_def)
  next
    case (written l)
    obtain r' where r': "\<not> rec_Delete l" "rec_Data l = Some (VInvite r')" "invr_SecretHash r' = invr_SecretHash r"
      "inv_Status (invr_Invite r') \<in> {''revoked'', ''consumed''}"
      using write_invite [of U C node db rs l r] assms written r by (auto simp: writes_ok_def)
    have "invite_at (db_commit db rs) k = Some r'" using written(4) r'(1,2) by (simp add: val_at_lookup)
    moreover have "invite_lasts r r'" using r'(3,4) by (auto simp: invite_lasts_def)
    ultimately show ?thesis by blast
  qed
qed

interpretation invites: node_history invites_last
proof unfold_locales
  show "invites_last db db'" if "\<And>b k. db_lookup db' b k = db_lookup db b k" for db db' :: node_db
    using that by (simp add: invites_last_def val_at_lookup invite_lasts_def)
  show "invites_last db db''" if "invites_last db db'" "invites_last db' db''" for db db' db''
    using that unfolding invites_last_def by (blast intro: invite_lasts_trans)
qed (rule invites_last_commit)

end
