(* ===== verification/Signedauth_Props.thy ===== *)
theory Signedauth_Props
  imports Signedauth
begin

text \<open>
  What signed authorizations guarantee: what is signed is accepted, nothing else is, for less than the
  maximal lifetime, for one kind of operation, and for one job at one revision.
\<close>

subsection \<open>Properties\<close>

lemma Sign_accepted:
  assumes sign: "Sign U C cl key = Some token" and wf: "well_formed_claims cl ctx"
    and key: "keys (c_KeyID cl) = Some pub" "length pub = PublicKeySize"
    and ed25519: "\<And>m. ed_verify C pub m (ed_sign C key m)" "\<And>m. length (ed_sign C key m) = SignatureSize"
    and now: "c_IssuedAt cl \<le> Unix now" "Unix now < c_ExpiresAt cl"
  shows "\<exists>flt. Context_Compile U ctx = Inr flt \<and> verifySigned U C token keys now = Some (cl, flt)"
proof -
  define payload sig where p: "payload = marshal_claims cl" and s: "sig = ed_sign C key (domain @ payload)"
  have valid: "sa_validate cl" "c_Context cl = marshal_context ctx" "context_utf8 ctx"
    using wf by (simp_all add: well_formed_claims_def)
  have "length (marshal_context ctx) \<le> MaxContextBytes"
    using valid(1) by (auto simp: sa_validate_def Let_def valid(2) split: if_splits)
  then have ctx: "DecodeContext U (c_Context cl) = Context_Compile U ctx"
    using valid DecodeContext_marshal_text by simp
  then obtain flt where flt: "Context_Compile U ctx = Inr flt"
    using sign by (auto simp: Sign_def split: if_splits sum.splits)
  have len: "length payload \<le> maxPayloadBytes" and token: "token = b64_encode payload @ ''.'' @ b64_encode sig"
    using sign by (auto simp: Sign_def p s Let_def split: if_splits sum.splits)
  have "length token \<le> EncodedLen maxPayloadBytes + 1 + EncodedLen SignatureSize"
    using EncodedLen_mono [OF len] ed25519(2) by (simp add: token length_b64_encode s)
  moreover have "split_byte (CHR ''.'') token = [b64_encode payload, b64_encode sig]"
    unfolding token by (rule split_token) (rule b64_encode_no_dot)+
  moreover obtain j where "parse_json payload = Some j" "dec_claims j = Some cl"
    using claims_text_read(2) [OF wf] p by blast
  ultimately show ?thesis
    using claims_text_read [OF wf] len valid key ed25519 now ctx flt unfolding p [symmetric]
    by (simp add: verifySigned_def Let_def s)
qed

text \<open>
  C12: What the control plane signs the node accepts: when the private key signs for the public key the
  node holds under the key identifier, and the time lies within the validity, the node gets back the
  claims that were signed and the filter compiled from the context that was signed.
\<close>

theorem Sign_verifySigned:
  assumes sign: "Sign U C cl key = Some token" and wf: "well_formed_claims cl ctx"
    and key: "keys (c_KeyID cl) = Some pub" "length pub = PublicKeySize"
    and ed25519: "\<And>m. ed_verify C pub m (ed_sign C key m)" "\<And>m. length (ed_sign C key m) = SignatureSize"
    and now: "c_IssuedAt cl \<le> Unix now" "Unix now < c_ExpiresAt cl"
  shows "\<exists>flt. Context_Compile U ctx = Inr flt \<and> verifySigned U C token keys now = Some (cl, flt)"
  using assms by (rule Sign_accepted)

text \<open>
  C4: A node acts on nothing but what was signed: if under the one key the node holds only messages
  of the issued claims verify, then every accepted token carries issued claims, within their time, and
  the filter is the one compiled from the issued context.
\<close>

theorem verifySigned_only_issued:
  assumes issued: "\<And>c. c \<in> issued \<Longrightarrow> well_formed_claims c (ctx c)"
    and unforged: "\<And>m sig. ed_verify C pub m sig \<Longrightarrow> m \<in> (\<lambda>c. domain @ marshal_claims c) ` issued"
    and keys: "ran keys \<subseteq> {pub}"
    and accepted: "verifySigned U C token keys now = Some (cl, flt)"
  shows "cl \<in> issued \<and> c_IssuedAt cl \<le> Unix now \<and> Unix now < c_ExpiresAt cl \<and> Context_Compile U (ctx cl) = Inr flt"
proof -
  obtain payload where tp: "token_payload U C token keys payload cl flt"
    and now: "c_IssuedAt cl \<le> Unix now" "Unix now < c_ExpiresAt cl"
    using verifySigned_payload [OF accepted] by blast
  then obtain j key sig where j: "parse_json payload = Some j" "dec_claims j = Some cl" and k: "keys (c_KeyID cl) = Some key"
    "ed_verify C key (domain @ payload) sig" and dc: "DecodeContext U (c_Context cl) = Inr flt"
    unfolding token_payload_def by blast
  have "key = pub" using keys k(1) by (auto simp: ran_def)
  then obtain c where c: "c \<in> issued" "payload = marshal_claims c" using unforged k(2) by blast
  then obtain j' where "parse_json payload = Some j'" "dec_claims j' = Some c"
    using claims_text_read(2) [OF issued] by blast
  then have "cl = c" using j by simp
  have w: "well_formed_claims c (ctx c)" using issued c(1) .
  then have "length (marshal_context (ctx c)) \<le> MaxContextBytes"
    by (auto simp: well_formed_claims_def sa_validate_def Let_def split: if_splits)
  then have "Context_Compile U (ctx c) = Inr flt"
    using dc w DecodeContext_marshal_text [of "ctx c" U] by (simp add: \<open>cl = c\<close> well_formed_claims_def)
  with c(1) now \<open>cl = c\<close> show ?thesis by simp
qed

text \<open>
  C28: An authorization is short-lived: the times at which one token is accepted lie less than the
  maximal lifetime of 30 seconds apart.
\<close>

theorem verifySigned_lifetime:
  assumes "verifySigned U C token keys now = Some v" "verifySigned U C token keys now' = Some v'"
  shows "\<bar>now' - now\<bar> < MaxLifetime"
proof -
  obtain cl flt cl' flt' where v: "v = (cl, flt)" "v' = (cl', flt')" by (cases v; cases v')
  note a = assms [unfolded v]
  have "cl' = cl" using verifySigned_same_claims [OF a] by simp
  have "c_IssuedAt cl \<le> Unix now" "Unix now < c_ExpiresAt cl" "c_IssuedAt cl \<le> Unix now'" "Unix now' < c_ExpiresAt cl"
    using verifySigned_payload [OF a(1)] verifySigned_payload [OF a(2)] \<open>cl' = cl\<close> by auto
  then have "of_Unix (c_IssuedAt cl) \<le> now" "now < of_Unix (c_ExpiresAt cl)" "of_Unix (c_IssuedAt cl) \<le> now'" "now' < of_Unix (c_ExpiresAt cl)"
    using Unix_less_iff [of now] Unix_less_iff [of now'] by (meson not_less)+
  moreover have "of_Unix (c_ExpiresAt cl) \<le> of_Unix (c_IssuedAt cl) + MaxLifetime"
    using validate_times [OF verifySigned_valid [OF a(1)]] by (simp add: of_Unix_def MaxLifetime_def)
  ultimately show ?thesis by linarith
qed

text \<open>
  C10: A lease is for one job at one revision: a token that a node accepts as the lease of a job at a
  revision is accepted, by any node at any time, for no other job, revision, ends, actor or options,
  provided the two request identities do not collide under SHA-256.
\<close>

theorem VerifyJobLease_no_replay:
  assumes lease: "VerifyJobLease U C token keys expected node revision now = Some v"
    and again: "VerifyJobLease U C token keys expected' node' revision' now' = Some v'"
    and collision_free: "sha256 C (lease_text (b_PlanID expected) revision) = sha256 C (lease_text (b_PlanID expected') revision')
      \<Longrightarrow> lease_text (b_PlanID expected) revision = lease_text (b_PlanID expected') revision'"
  shows "revision' = revision \<and> expected'\<lparr>b_RequestID := []\<rparr> = expected\<lparr>b_RequestID := []\<rparr>"
proof -
  obtain cl flt cl' flt' where v: "v = (cl, flt)" "v' = (cl', flt')" by (cases v; cases v')
  obtain b where b: "JobLeaseBinding C expected revision = Some b" "Verify U C token keys b node now = Some (cl, flt)"
    using lease v(1) by (cases "JobLeaseBinding C expected revision") (simp_all add: VerifyJobLease_def)
  obtain b' where b': "JobLeaseBinding C expected' revision' = Some b'" "Verify U C token keys b' node' now' = Some (cl', flt')"
    using again v(2) by (cases "JobLeaseBinding C expected' revision'") (simp_all add: VerifyJobLease_def)
  note d = JobLeaseBinding_SomeD [OF b(1)] and d' = JobLeaseBinding_SomeD [OF b'(1)]
  have "cl' = cl" using Verify_SomeD [OF b(2)] Verify_SomeD [OF b'(2)] verifySigned_same_claims by blast
  then have "b' = b" using Verify_SomeD [OF b(2)] Verify_SomeD [OF b'(2)] by simp
  then have "b_RequestID b' = b_RequestID b" by simp
  then have "sha256 C (lease_text (b_PlanID expected) revision) = sha256 C (lease_text (b_PlanID expected') revision')"
    using d d' by (simp add: hex_encode_inject)
  then have "lease_text (b_PlanID expected) revision = lease_text (b_PlanID expected') revision'" by (rule collision_free)
  then have "revision' = revision" using lease_text_inject [OF conjunct1 [OF d] conjunct1 [OF d'], of revision revision'] by simp
  moreover have "expected'\<lparr>b_RequestID := []\<rparr> = expected\<lparr>b_RequestID := []\<rparr>"
  proof -
    have "b\<lparr>b_RequestID := []\<rparr> = expected\<lparr>b_RequestID := []\<rparr>" using d by simp
    moreover have "b'\<lparr>b_RequestID := []\<rparr> = expected'\<lparr>b_RequestID := []\<rparr>" using d' by simp
    ultimately show ?thesis using \<open>b' = b\<close> by simp
  qed
  ultimately show ?thesis by simp
qed

lemma VerifyLocalRead_SomeD:
  "VerifyLocalRead U C token keys node operation mount root now = Some (cl, flt) \<Longrightarrow>
   verifySigned U C token keys now = Some (cl, flt) \<and> b_Operation (c_Binding cl) \<in> set read_operations"
  by (auto simp: VerifyLocalRead_def Let_def split: option.splits if_splits)

lemma read_operations_apart:
  "x \<in> set read_operations \<Longrightarrow> x \<notin> set upload_operations \<and> x \<notin> set job_operations
     \<and> x \<noteq> ''upload_create'' \<and> x \<noteq> ''upload_simple'' \<and> x \<noteq> ''upload_reauthorize''"
  by (auto simp: read_operations_def upload_operations_def job_operations_def)

lemma lease_topology_operation: "lease_topology b \<Longrightarrow> b_Operation b \<in> set job_operations"
  by (auto simp: lease_topology_def job_operations_def split: if_splits)

text \<open>
  C29: An authorization to read is good for nothing else: a token accepted for a local read is refused as
  an upload authorization of every kind and as the lease of a job, by every node and at every time.
\<close>

theorem VerifyLocalRead_only_reads:
  assumes "VerifyLocalRead U C token keys node operation mount root now = Some v"
  shows "VerifyLocalUpload U C token keys actor cred node' operation' mount' dest session now' = None
      \<and> VerifyUploadAdmission U C token keys node' mount' dest body now' = None
      \<and> VerifySimpleUpload U C token keys node' mount' dest query idem now' = None
      \<and> VerifyUploadReauthorization U C token keys actor cred node' mount' dest session revision now' = None
      \<and> VerifyJobLease U C token keys expected node' revision now' = None
      \<and> VerifiedJobLeaseBinding U C token keys node' now' = None"
proof -
  obtain cl flt where v: "v = (cl, flt)" by (cases v)
  have r: "verifySigned U C token keys now = Some (cl, flt)" "b_Operation (c_Binding cl) \<in> set read_operations"
    using VerifyLocalRead_SomeD [OF assms [unfolded v]] by simp_all
  have op: "b_Operation (c_Binding cl') \<in> set read_operations" if "verifySigned U C token keys now' = Some (cl', flt')" for cl' flt'
    using verifySigned_same_claims [OF r(1) that] r(2) by simp
  note apart = read_operations_apart [OF op]
  have lease: "b_Operation (c_Binding cl') \<in> set job_operations"
    if "JobLeaseBinding C b rev = Some b'" "b_Operation b = b_Operation (c_Binding cl')" for b b' rev cl'
    using JobLeaseBinding_SomeD [OF that(1)] lease_topology_operation [of b] that(2) by simp
  have "VerifyLocalUpload U C token keys actor cred node' operation' mount' dest session now' = None"
    using apart by (auto simp: VerifyLocalUpload_def Let_def split: option.split)
  moreover have "VerifyUploadAdmission U C token keys node' mount' dest body now' = None"
    using apart by (auto simp: VerifyUploadAdmission_def Let_def split: option.split)
  moreover have "VerifySimpleUpload U C token keys node' mount' dest query idem now' = None"
    using apart by (auto simp: VerifySimpleUpload_def Let_def split: option.split)
  moreover have "VerifyUploadReauthorization U C token keys actor cred node' mount' dest session revision now' = None"
    using apart by (auto simp: VerifyUploadReauthorization_def Let_def split: option.split)
  moreover have "VerifyJobLease U C token keys expected node' revision now' = None"
  proof (rule ccontr)
    assume "\<not> ?thesis"
    then obtain b cl' flt' where b: "JobLeaseBinding C expected revision = Some b" "Verify U C token keys b node' now' = Some (cl', flt')"
      by (cases "JobLeaseBinding C expected revision") (auto simp: VerifyJobLease_def)
    have s: "verifySigned U C token keys now' = Some (cl', flt')" "c_Binding cl' = b" using Verify_SomeD [OF b(2)] by simp_all
    have "b_Operation expected = b_Operation b" using JobLeaseBinding_SomeD [OF b(1)] by simp
    then show False using lease [OF b(1), of cl'] apart [OF s(1)] s(2) by simp
  qed
  moreover have "VerifiedJobLeaseBinding U C token keys node' now' = None"
  proof (rule ccontr)
    assume "\<not> ?thesis"
    then obtain cl' flt' b where s: "verifySigned U C token keys now' = Some (cl', flt')"
      and b: "JobLeaseBinding C ((c_Binding cl')\<lparr>b_RequestID := []\<rparr>) 1 = Some b"
      by (auto simp: VerifiedJobLeaseBinding_def Let_def split: option.splits if_splits)
    show False using lease [OF b, of cl'] apart [OF s] by simp
  qed
  ultimately show ?thesis by blast
qed

lemma reads_unique: "reads s j \<Longrightarrow> reads s j' \<Longrightarrow> j' = j"
  by (metis reads_parse option.inject)

definition options_members :: "job_options \<Rightarrow> (string \<times> string \<times> json) list" where
  "options_members opts =
     [(''overwrite'', json_bool (jo_Overwrite opts), JBool (jo_Overwrite opts)),
      (''recursive'', json_bool (jo_Recursive opts), JBool (jo_Recursive opts)),
      (''conflict_policy'', json_string (jo_ConflictPolicy opts), JStr (jo_ConflictPolicy opts)),
      (''source_change_policy'', json_string (jo_SourceChangePolicy opts), JStr (jo_SourceChangePolicy opts)),
      (''verify_checksum'', json_bool (jo_VerifyChecksum opts), JBool (jo_VerifyChecksum opts)),
      (''bandwidth_limit_bytes_per_second'', json_int (jo_BandwidthLimit opts), JNum (json_int (jo_BandwidthLimit opts))),
      (''max_parallel_files'', json_int (jo_MaxParallelFiles opts), JNum (json_int (jo_MaxParallelFiles opts))),
      (''max_parallel_chunks'', json_int (jo_MaxParallelChunks opts), JNum (json_int (jo_MaxParallelChunks opts))),
      (''max_attempts'', json_int (jo_MaxAttempts opts), JNum (json_int (jo_MaxAttempts opts)))]"

definition options_ok :: "job_options \<Rightarrow> bool" where
  "options_ok opts \<longleftrightarrow> valid_utf8 (jo_ConflictPolicy opts) \<and> valid_utf8 (jo_SourceChangePolicy opts)
     \<and> int64_range (jo_BandwidthLimit opts) \<and> int64_range (jo_MaxParallelFiles opts)
     \<and> int64_range (jo_MaxParallelChunks opts) \<and> int64_range (jo_MaxAttempts opts)"

lemma option_names_utf8:
  "list_all valid_utf8 [''overwrite'', ''recursive'', ''conflict_policy'', ''source_change_policy'', ''verify_checksum'',
     ''bandwidth_limit_bytes_per_second'', ''max_parallel_files'', ''max_parallel_chunks'', ''max_attempts'']"
  by code_simp

lemma reads_options: "options_ok opts \<Longrightarrow> reads (marshal_job_options opts) (JObj (options_members opts))"
proof -
  assume o: "options_ok opts"
  have "valid_utf8 k \<and> reads t v" if "(k, t, v) \<in> set (options_members opts)" for k t v
  proof
    show "valid_utf8 k" using that option_names_utf8 by (auto simp: options_members_def)
    show "reads t v" using that o by (auto simp: options_members_def options_ok_def intro: reads_string reads_int reads_literal)
  qed
  then have "reads (json_object (map (\<lambda>m. (fst m, fst (snd m))) (options_members opts))) (JObj (options_members opts))"
    by (rule reads_members)
  then show ?thesis by (simp add: marshal_job_options_def options_members_def)
qed

lemma json_int_inject: "int64_range m \<Longrightarrow> int64_range n \<Longrightarrow> json_int m = json_int n \<longleftrightarrow> m = n"
  by (metis parse_int64_json_int option.inject)

lemma marshal_job_options_inject:
  assumes "options_ok x" "options_ok y" "marshal_job_options x = marshal_job_options y"
  shows "x = y"
proof -
  have "JObj (options_members x) = JObj (options_members y)"
    using reads_unique reads_options [OF assms(1)] reads_options [OF assms(2)] assms(3) by metis
  then show ?thesis using assms(1,2)
    by (cases x; cases y) (auto simp: options_members_def options_ok_def json_int_inject)
qed

text \<open>
  C30: The digest of job options binds them: it is accepted as a digest, and options with the same digest
  are the same options, provided the two texts do not collide under SHA-256. This is for options whose
  policies are UTF-8 and whose numbers are in the range of \<open>int64\<close>.
\<close>

theorem JobOptionsDigest_binds:
  assumes "options_ok x" "options_ok y" and sha256: "\<And>m. length (sha256 C m) = 32"
    and collision_free: "\<And>m m'. sha256 C (''jolt-job-options-v1'' @ [CHR 0x00] @ m) = sha256 C (''jolt-job-options-v1'' @ [CHR 0x00] @ m')
      \<Longrightarrow> m \<in> {marshal_job_options x, marshal_job_options y} \<Longrightarrow> m' \<in> {marshal_job_options x, marshal_job_options y} \<Longrightarrow> m = m'"
  shows "validJobOptionsDigest (JobOptionsDigest C x) \<and> (JobOptionsDigest C x = JobOptionsDigest C y \<longleftrightarrow> x = y)"
proof
  show "validJobOptionsDigest (JobOptionsDigest C x)"
    by (simp add: validJobOptionsDigest_def JobOptionsDigest_def sha256)
  show "JobOptionsDigest C x = JobOptionsDigest C y \<longleftrightarrow> x = y"
    using collision_free [of "marshal_job_options x" "marshal_job_options y"] marshal_job_options_inject [OF assms(1,2)]
    by (auto simp: JobOptionsDigest_def b64_encode_inject)
qed

text \<open>
  C31: The plan of a simple upload binds the query and the idempotency key: the same plan identity is
  that of the same query and the same key, provided the two texts do not collide under SHA-256.
\<close>

theorem SimpleUploadPlanID_binds:
  assumes "sha256 C (upload_plan_text q k) = sha256 C (upload_plan_text q' k') \<Longrightarrow> upload_plan_text q k = upload_plan_text q' k'"
  shows "SimpleUploadPlanID C q k = SimpleUploadPlanID C q' k' \<longleftrightarrow> q = q' \<and> k = k'"
  using assms upload_plan_text_inject by (auto simp: SimpleUploadPlanID_def hex_encode_inject)

subsection \<open>Witnesses\<close>

text \<open>
  Stand-ins for the cryptography that satisfy the hypotheses above: a signature that is a fixed text of
  the right length, or that holds for one message only, and a digest that keeps the end of its input.
\<close>

definition sample_crypto :: crypto where
  "sample_crypto = \<lparr>ed_sign = \<lambda>k m. replicate 64 (CHR ''s''), ed_verify = \<lambda>k m s. s = replicate 64 (CHR ''s''),
     sha256 = \<lambda>m. take 32 (rev m @ replicate 32 (CHR 0x00))\<rparr>"

definition sample_keys :: "string \<rightharpoonup> string" where
  "sample_keys k = (if k = ''k1'' then Some (replicate 32 (CHR ''p'')) else None)"

definition sample_binding :: binding where
  "sample_binding = empty_binding\<lparr>b_ActorID := ''ann'', b_CredentialID := ''cr'', b_Operation := ''delete'',
     b_SourceNodeID := ''n1'', b_SourceMountID := ''m1'', b_SourceRoot := ''a/b'', b_PlanID := ''job1''\<rparr>"

definition small_context :: ft_context where
  "small_context = \<lparr>ctx_Version = 1, ctx_Rules = []\<rparr>"

definition sample_claims :: "binding \<Rightarrow> claims" where
  "sample_claims b = \<lparr>c_Version = 1, c_KeyID = ''k1'', c_Binding = b, c_IssuedAt = 1000, c_ExpiresAt = 1030,
     c_Context = marshal_context small_context\<rparr>"

definition lease_claims :: claims where
  "lease_claims = sample_claims (sample_binding\<lparr>b_RequestID := JobLeaseRequestID sample_crypto ''job1'' 1\<rparr>)"

definition read_claims :: claims where
  "read_claims = sample_claims (sample_binding\<lparr>b_Operation := ''list'', b_RequestID := ''r'', b_PlanID := []\<rparr>)"

definition sample_token :: "claims \<Rightarrow> string" where
  "sample_token cl = b64_encode (marshal_claims cl) @ ''.'' @ b64_encode (replicate 64 (CHR ''s''))"

lemma sample_sel [simp]:
  "c_KeyID lease_claims = ''k1''" "c_IssuedAt lease_claims = 1000" "c_ExpiresAt lease_claims = 1030" "c_Context lease_claims = marshal_context small_context"
  "c_KeyID read_claims = ''k1''" "c_IssuedAt read_claims = 1000" "c_ExpiresAt read_claims = 1030" "c_Context read_claims = marshal_context small_context"
  by (simp_all add: lease_claims_def read_claims_def sample_claims_def)

lemma small_context_length: "length (marshal_context small_context) = 24"
  by code_simp

lemma small_context_nonempty [simp]: "marshal_context small_context \<noteq> []"
  using small_context_length by auto

lemma small_context_facts: "context_utf8 small_context" "Context_Compile U small_context = Inr []"
  using small_context_length
  by (simp_all add: small_context_def context_utf8_def int64_range_def Context_Compile_def MaxContextBytes_def)

definition plain_char :: "char \<Rightarrow> bool" where
  "plain_char c \<longleftrightarrow> 33 \<le> byte c \<and> byte c < 127 \<and> byte c \<notin> {35, 47, 63, 92}"

lemma plain_identifier:
  assumes "list_all plain_char v" "v \<noteq> []" "length v \<le> 128"
  shows "sa_identifier v req"
proof -
  have "byte ` set [slash, bslash, bslash, CHR ''?'', CHR ''#''] = {35, 47, 63, 92}" by code_simp
  then have "identifier_rune_ok (byte c)" if "plain_char c" for c
    using that unfolding identifier_rune_ok_def plain_char_def by simp
  moreover have "list_all ascii v" using assms(1) by (auto simp: list_all_iff plain_char_def ascii_def)
  moreover have "\<not> space_byte c" if "plain_char c" for c
  proof -
    have "list_all (\<lambda>c. \<not> plain_char c) (map hd space_seqs @ map last space_seqs)" by code_simp
    then show ?thesis using that unfolding space_byte_def list_all_iff set_append by blast
  qed
  then have "TrimSpace v = v" using assms(1,2) by (intro TrimSpace_fixed) (simp add: list_all_iff)
  ultimately show ?thesis
    using assms by (simp add: sa_identifier_def valid_utf8_ascii runes_ascii list_all_iff)
qed

lemma plain_texts:
  "list_all (list_all plain_char) [''ann'', ''cr'', ''delete'', ''list'', ''r'', ''n1'', ''m1'', ''job1'', ''k1'']"
  by code_simp

lemma plain_request: "list_all plain_char (JobLeaseRequestID sample_crypto ''job1'' 1)" "length (JobLeaseRequestID sample_crypto ''job1'' 1) = 68"
  by code_simp+

lemma plain_identifiers:
  "v \<in> {''ann'', ''cr'', ''delete'', ''list'', ''r'', ''n1'', ''m1'', ''job1'', ''k1'', JobLeaseRequestID sample_crypto ''job1'' 1} \<Longrightarrow> sa_identifier v req"
proof (rule plain_identifier)
  assume v: "v \<in> {''ann'', ''cr'', ''delete'', ''list'', ''r'', ''n1'', ''m1'', ''job1'', ''k1'', JobLeaseRequestID sample_crypto ''job1'' 1}"
  then show "list_all plain_char v" using plain_texts plain_request by (auto simp only: insert_iff empty_iff list.pred_inject)
  show "v \<noteq> []" "length v \<le> 128" using v plain_request(2) by auto
qed

lemma sample_endpoints: "endpoint ''n1'' [] ''m1'' ''a/b''" "endpoint [] [] [] []" "sa_identifier [] False" "validJobOptionsDigest []"
  by code_simp+

lemma claims_facts: "sa_validate lease_claims" "sa_validate read_claims"
  using small_context_length
  by (simp_all add: sa_validate_def Let_def lease_claims_def read_claims_def sample_claims_def sample_binding_def empty_binding_def
      plain_identifiers sample_endpoints sa_Version_def MaxLifetime_def MaxContextBytes_def)

lemma claims_lengths:
  "length (marshal_claims lease_claims) \<le> maxPayloadBytes" "length (marshal_claims read_claims) \<le> maxPayloadBytes"
proof -
  have "length (marshal_claims lease_claims) < 1000" "length (marshal_claims read_claims) < 1000" by code_simp+
  then show "length (marshal_claims lease_claims) \<le> maxPayloadBytes" "length (marshal_claims read_claims) \<le> maxPayloadBytes"
    by (simp_all add: maxPayloadBytes_def)
qed

lemma claims_wf: "well_formed_claims lease_claims small_context" "well_formed_claims read_claims small_context"
  using claims_facts small_context_facts
  by (simp_all add: well_formed_claims_def int64_range_def)

lemma sample_keys_k1 [simp]: "sample_keys ''k1'' = Some (replicate 32 (CHR ''p''))"
  by (simp add: sample_keys_def)

lemma sample_signed:
  assumes "well_formed_claims cl small_context" "length (marshal_claims cl) \<le> maxPayloadBytes"
  shows "Sign ascii_tables sample_crypto cl (replicate 64 (CHR ''k'')) = Some (sample_token cl)"
proof -
  have "length (marshal_context small_context) \<le> MaxContextBytes"
    using assms(1) by (auto simp: well_formed_claims_def sa_validate_def Let_def split: if_splits)
  then have "DecodeContext ascii_tables (c_Context cl) = Context_Compile ascii_tables small_context"
    using assms(1) by (simp add: well_formed_claims_def DecodeContext_marshal_text)
  then show ?thesis
    using assms small_context_facts(2)
    by (auto simp: Sign_def well_formed_claims_def Let_def sample_token_def sample_crypto_def split: sum.splits)
qed

lemma sample_accepted:
  assumes "well_formed_claims cl small_context" "length (marshal_claims cl) \<le> maxPayloadBytes" "c_KeyID cl = ''k1''"
    and "c_IssuedAt cl \<le> s" "s < c_ExpiresAt cl"
  shows "\<exists>flt. verifySigned ascii_tables sample_crypto (sample_token cl) sample_keys (of_Unix s) = Some (cl, flt)"
  using Sign_accepted [OF sample_signed [OF assms(1,2)] assms(1), of sample_keys "replicate 32 (CHR ''p'')" "of_Unix s"] assms(3-5)
  by (auto simp: sample_crypto_def)

lemma lease_token_accepted:
  "1000 \<le> s \<Longrightarrow> s < 1030 \<Longrightarrow> \<exists>flt. verifySigned ascii_tables sample_crypto (sample_token lease_claims) sample_keys (of_Unix s) = Some (lease_claims, flt)"
  by (rule sample_accepted) (simp_all add: claims_wf claims_lengths)

lemma read_token_accepted:
  "1000 \<le> s \<Longrightarrow> s < 1030 \<Longrightarrow> \<exists>flt. verifySigned ascii_tables sample_crypto (sample_token read_claims) sample_keys (of_Unix s) = Some (read_claims, flt)"
  by (rule sample_accepted) (simp_all add: claims_wf claims_lengths)

theorem Sign_verifySigned_witness:
  "\<exists>token flt. Sign ascii_tables sample_crypto lease_claims (replicate 64 (CHR ''k'')) = Some token
     \<and> verifySigned ascii_tables sample_crypto token sample_keys (of_Unix 1005) = Some (lease_claims, flt)"
  using Sign_verifySigned [OF sample_signed [OF claims_wf(1) claims_lengths(1)] claims_wf(1), of sample_keys "replicate 32 (CHR ''p'')" "of_Unix 1005"]
    sample_signed [OF claims_wf(1) claims_lengths(1)]
  by (auto simp: sample_crypto_def)

theorem verifySigned_lifetime_witness: "\<bar>of_Unix 1029 - of_Unix 1001\<bar> < MaxLifetime"
proof -
  obtain f g where "verifySigned ascii_tables sample_crypto (sample_token lease_claims) sample_keys (of_Unix 1001) = Some (lease_claims, f)"
    "verifySigned ascii_tables sample_crypto (sample_token lease_claims) sample_keys (of_Unix 1029) = Some (lease_claims, g)"
    using lease_token_accepted [of 1001] lease_token_accepted [of 1029] by auto
  then show ?thesis by (rule verifySigned_lifetime)
qed

text \<open>A signature scheme under which nothing but the sample message verifies.\<close>

definition strict_crypto :: crypto where
  "strict_crypto = sample_crypto\<lparr>ed_verify := \<lambda>k m s. m = domain @ marshal_claims lease_claims \<and> length s = 64\<rparr>"

lemma strict_accepted:
  "\<exists>flt. verifySigned ascii_tables strict_crypto (sample_token lease_claims) sample_keys (of_Unix 1005) = Some (lease_claims, flt)"
proof -
  obtain flt where "verifySigned ascii_tables sample_crypto (sample_token lease_claims) sample_keys (of_Unix 1005) = Some (lease_claims, flt)"
    using lease_token_accepted [of 1005] by auto
  then have "verifySigned ascii_tables strict_crypto (sample_token lease_claims) sample_keys (of_Unix 1005) = Some (lease_claims, flt)"
    using split_token [OF b64_encode_no_dot b64_encode_no_dot, of "marshal_claims lease_claims" "replicate 64 (CHR ''s'')"]
    by (auto simp: verifySigned_def sample_token_def strict_crypto_def sample_crypto_def Let_def split: if_splits option.splits sum.splits)
  then show ?thesis ..
qed

theorem verifySigned_only_issued_witness:
  "\<exists>cl flt. verifySigned ascii_tables strict_crypto (sample_token lease_claims) sample_keys (of_Unix 1005) = Some (cl, flt) \<and> cl \<in> {lease_claims}"
proof -
  obtain flt where a: "verifySigned ascii_tables strict_crypto (sample_token lease_claims) sample_keys (of_Unix 1005) = Some (lease_claims, flt)"
    using strict_accepted by blast
  have "lease_claims \<in> {lease_claims} \<and> c_IssuedAt lease_claims \<le> Unix (of_Unix 1005) \<and> Unix (of_Unix 1005) < c_ExpiresAt lease_claims
     \<and> Context_Compile ascii_tables small_context = Inr flt"
  proof (rule verifySigned_only_issued)
    show "verifySigned ascii_tables strict_crypto (sample_token lease_claims) sample_keys (of_Unix 1005) = Some (lease_claims, flt)" by (rule a)
    show "ran sample_keys \<subseteq> {replicate 32 (CHR ''p'')}" by (auto simp: ran_def sample_keys_def split: if_splits)
    show "\<And>c. c \<in> {lease_claims} \<Longrightarrow> well_formed_claims c small_context" using claims_wf(1) by simp
    show "\<And>m sig. ed_verify strict_crypto (replicate 32 (CHR ''p'')) m sig \<Longrightarrow> m \<in> (\<lambda>c. domain @ marshal_claims c) ` {lease_claims}"
      by (simp add: strict_crypto_def)
  qed
  with a show ?thesis by blast
qed

lemma lease_verified:
  "\<exists>v. VerifyJobLease ascii_tables sample_crypto (sample_token lease_claims) sample_keys sample_binding ''n1'' 1 (of_Unix 1005) = Some v"
proof -
  obtain flt where a: "verifySigned ascii_tables sample_crypto (sample_token lease_claims) sample_keys (of_Unix 1005) = Some (lease_claims, flt)"
    using lease_token_accepted [of 1005] by auto
  have "JobLeaseBinding sample_crypto sample_binding 1 = Some (c_Binding lease_claims)"
    using plain_request(2) by (auto simp: JobLeaseBinding_def Let_def lease_claims_def sample_claims_def sample_binding_def empty_binding_def
        plain_identifiers sample_endpoints lease_topology_def)
  with a show ?thesis
    by (auto simp: VerifyJobLease_def Verify_def) (simp_all add: lease_claims_def sample_claims_def sample_binding_def)
qed

theorem VerifyJobLease_no_replay_witness:
  "\<exists>token. VerifyJobLease ascii_tables sample_crypto token sample_keys sample_binding ''n1'' 1 (of_Unix 1005) \<noteq> None
     \<and> VerifyJobLease ascii_tables sample_crypto token sample_keys sample_binding ''n1'' 2 (of_Unix 1005) = None"
proof -
  let ?token = "sample_token lease_claims"
  obtain v where v: "VerifyJobLease ascii_tables sample_crypto ?token sample_keys sample_binding ''n1'' 1 (of_Unix 1005) = Some v"
    using lease_verified by blast
  have "b_PlanID sample_binding = ''job1''" by (simp add: sample_binding_def)
  moreover have "sha256 sample_crypto (lease_text ''job1'' 1) \<noteq> sha256 sample_crypto (lease_text ''job1'' 2)" by code_simp
  ultimately have "VerifyJobLease ascii_tables sample_crypto ?token sample_keys sample_binding ''n1'' 2 (of_Unix 1005) \<noteq> Some v'" for v'
    using VerifyJobLease_no_replay [OF v, of sample_binding "''n1''" 2 "of_Unix 1005" v'] by fastforce
  then have "VerifyJobLease ascii_tables sample_crypto ?token sample_keys sample_binding ''n1'' 2 (of_Unix 1005) = None"
    by (meson option.exhaust)
  with v show ?thesis by (intro exI [of _ ?token]) simp
qed

theorem VerifyLocalRead_only_reads_witness:
  "VerifyLocalRead ascii_tables sample_crypto (sample_token read_claims) sample_keys ''n1'' ''list'' ''m1'' ''a/b'' (of_Unix 1005) \<noteq> None
   \<and> VerifiedJobLeaseBinding ascii_tables sample_crypto (sample_token read_claims) sample_keys ''n1'' (of_Unix 1006) = None"
proof -
  obtain flt where "verifySigned ascii_tables sample_crypto (sample_token read_claims) sample_keys (of_Unix 1005) = Some (read_claims, flt)"
    using read_token_accepted [of 1005] by auto
  then have a: "VerifyLocalRead ascii_tables sample_crypto (sample_token read_claims) sample_keys ''n1'' ''list'' ''m1'' ''a/b'' (of_Unix 1005) = Some (read_claims, flt)"
    by (simp add: VerifyLocalRead_def read_claims_def sample_claims_def sample_binding_def empty_binding_def read_operations_def)
  from VerifyLocalRead_only_reads [OF this] have "VerifiedJobLeaseBinding ascii_tables sample_crypto (sample_token read_claims) sample_keys ''n1'' (of_Unix 1006) = None"
    by simp
  with a show ?thesis by simp
qed

definition sample_options :: job_options where
  "sample_options = \<lparr>jo_Overwrite = False, jo_Recursive = True, jo_ConflictPolicy = ''fail'', jo_SourceChangePolicy = ''fail'',
     jo_VerifyChecksum = True, jo_BandwidthLimit = 0, jo_MaxParallelFiles = 2, jo_MaxParallelChunks = 4, jo_MaxAttempts = 3\<rparr>"

theorem JobOptionsDigest_binds_witness:
  "JobOptionsDigest sample_crypto sample_options \<noteq> JobOptionsDigest sample_crypto (sample_options\<lparr>jo_MaxAttempts := 4\<rparr>)"
proof -
  have "options_ok sample_options" "options_ok (sample_options\<lparr>jo_MaxAttempts := 4\<rparr>)" by code_simp+
  moreover have "\<And>m. length (sha256 sample_crypto m) = 32" by (simp add: sample_crypto_def)
  moreover have "sha256 sample_crypto (''jolt-job-options-v1'' @ [CHR 0x00] @ marshal_job_options sample_options)
      \<noteq> sha256 sample_crypto (''jolt-job-options-v1'' @ [CHR 0x00] @ marshal_job_options (sample_options\<lparr>jo_MaxAttempts := 4\<rparr>))"
    by code_simp
  ultimately have "JobOptionsDigest sample_crypto sample_options = JobOptionsDigest sample_crypto (sample_options\<lparr>jo_MaxAttempts := 4\<rparr>)
      \<longleftrightarrow> sample_options = sample_options\<lparr>jo_MaxAttempts := 4\<rparr>"
    by (intro conjunct2 [OF JobOptionsDigest_binds]) auto
  then show ?thesis by (simp add: sample_options_def)
qed

theorem SimpleUploadPlanID_binds_witness: "SimpleUploadPlanID sample_crypto ''a=1'' ''k'' \<noteq> SimpleUploadPlanID sample_crypto ''a='' ''1k''"
proof -
  have "sha256 sample_crypto (upload_plan_text ''a=1'' ''k'') \<noteq> sha256 sample_crypto (upload_plan_text ''a='' ''1k'')" by code_simp
  then show ?thesis using SimpleUploadPlanID_binds [of sample_crypto "''a=1''" "''k''" "''a=''" "''1k''"] by simp
qed

end
