(* ===== verification/Node_Runs.thy ===== *)
theory Node_Runs
  imports Node_Invariants Signedauth_Props
begin

text \<open>
  A run of a node, on which the properties of the node state are seen at work: a plan to delete is
  confirmed, accepted by a job, the job gets its lease, is claimed, and runs.
\<close>

definition blank_job :: job where
  "blank_job = \<lparr>job_ParentJobID = [], job_DestructivePlanID = [], job_SignedAuthBound = False, job_RequiresSignedAuth = False,
     job_SignedAuthActorID = [], job_SignedAuthCredentialID = [], job_SourcesOmitted = 0, job_ID = [], job_Type = [], job_State = ''queued'',
     job_Phase = [], job_MountID = [], job_PeerNodeID = [], job_SourceGrantID = [], job_DestinationGrantID = [], job_SourceETag = [],
     job_SourcePath = [], job_Destination = [], job_BytesTotal = 0, job_BytesCompleted = 0, job_BytesPerSecond = 0, job_ETASeconds = None,
     job_ETAConfidence = [], job_FilesTotal = 0, job_FilesCompleted = 0, job_FilesFailed = 0, job_ConflictPolicy = [],
     job_SourceChangePolicy = [], job_VerifyChecksum = False, job_BandwidthLimit = 0, job_MaxParallelFiles = 0, job_MaxParallelChunks = 0,
     job_Overwrite = False, job_Recursive = False, job_Attempt = 0, job_MaxAttempts = 0, job_Error = [], job_CorrelationID = [],
     job_CreatedAt = of_Unix 1000, job_UpdatedAt = of_Unix 1000, job_StartedAt = None, job_NextAttemptAt = None, job_CompletedAt = None\<rparr>"

definition run_job :: job where
  "run_job = blank_job\<lparr>job_ID := ''job1'', job_Type := ''delete'', job_MountID := ''m1'', job_SourcePath := ''a/b'', job_Recursive := True\<rparr>"

definition run_digest :: string where
  "run_digest = replicate 64 (CHR ''a'')"

definition run_plan :: destructive_plan where
  "run_plan = \<lparr>dp_ID = ''r'', dp_TokenHash = run_digest, dp_SubjectType = ''user'', dp_SubjectID = ''ann'', dp_Operation = ''delete'',
     dp_MountID = ''m1'', dp_Source = ''a/b'', dp_Destination = [], dp_Overwrite = False, dp_DestinationExists = False,
     dp_TreeDigest = run_digest, dp_DestinationDigest = [], dp_CreatedAt = 0, dp_ExpiresAt = 0, dp_ConsumedJobID = [],
     dp_IdempotencyKey = [], dp_RequestHash = []\<rparr>"

definition run_consumed :: destructive_plan where
  "run_consumed = (dated_plan run_plan (of_Unix 1000))\<lparr>dp_ConsumedJobID := ''job1'', dp_IdempotencyKey := ''k1'', dp_RequestHash := run_digest\<rparr>"

definition run_lease :: job_authorization where
  "run_lease = \<lparr>auth_JobID = ''job1'', auth_Binding = sample_binding, auth_Revision = 1, auth_Envelope = sample_token lease_claims,
     auth_ExpiresAt = of_Unix 1030\<rparr>"

abbreviation run_waiting :: job where "run_waiting \<equiv> accepted_job run_job (dated_plan run_plan (of_Unix 1000))"
abbreviation run_queued :: job where "run_queued \<equiv> renewed_job run_waiting (of_Unix 1005)"
abbreviation run_running :: job where "run_running \<equiv> start_job run_queued (of_Unix 1005)"

definition run_key :: string where
  "run_key = destructiveIdempotencyKey sample_crypto ''user'' ''ann'' ''k1''"

definition run_db1 :: node_db where
  "run_db1 = db_commit (ensureSecurityVersion 4 fresh_db) [put_plan (dated_plan run_plan (of_Unix 1000))]"

definition run_db2 :: node_db where
  "run_db2 = db_commit run_db1 [put_plan run_consumed, put_job run_waiting,
     put_val ''destructive_idempotency'' run_key [] [] (VIdempotency \<lparr>idem_JobID = ''job1'', idem_RequestHash = run_digest\<rparr>)]"

definition run_db3 :: node_db where
  "run_db3 = db_commit (ensureSecurityVersion 5 run_db2) [put_auth run_lease (of_Unix 1005), put_job run_queued]"

definition run_db4 :: node_db where
  "run_db4 = db_commit run_db3 [put_job_at ''job1'' run_running]"

subsection \<open>Lookups\<close>

lemma fresh_lookup: "db_lookup fresh_db b k = None"
  by (simp add: fresh_db_def db_lookup_def)

lemma run_lookups:
  "db_lookup run_db1 b k = (if (b, k) = (''destructive_plans'', ''r'') then Some (put_plan (dated_plan run_plan (of_Unix 1000))) else None)"
  "db_lookup run_db2 b k = (if (b, k) = (''destructive_idempotency'', run_key)
      then Some (put_val ''destructive_idempotency'' run_key [] [] (VIdempotency \<lparr>idem_JobID = ''job1'', idem_RequestHash = run_digest\<rparr>))
      else if (b, k) = (''jobs'', ''job1'') then Some (put_job run_waiting)
      else if (b, k) = (''destructive_plans'', ''r'') then Some (put_plan run_consumed) else None)"
  "db_lookup run_db3 b k = (if (b, k) = (''jobs'', ''job1'') then Some (put_job run_queued)
      else if (b, k) = (''job_authorizations'', ''job1'') then Some (put_auth run_lease (of_Unix 1005)) else db_lookup run_db2 b k)"
  "db_lookup run_db4 b k = (if (b, k) = (''jobs'', ''job1'') then Some (put_job_at ''job1'' run_running) else db_lookup run_db3 b k)"
proof -
  have ids: "dp_ID run_consumed = ''r''" "dp_ID (dated_plan run_plan t) = ''r''" "job_ID run_job = ''job1''" "auth_JobID run_lease = ''job1''" for t
    by (simp_all add: run_consumed_def dated_plan_def run_plan_def run_job_def blank_job_def run_lease_def)
  show 1: "db_lookup run_db1 b k = (if (b, k) = (''destructive_plans'', ''r'') then Some (put_plan (dated_plan run_plan (of_Unix 1000))) else None)" for b k
    by (simp add: run_db1_def db_lookup_commit put_rec_def ids fresh_lookup)
  show 2: "db_lookup run_db2 b k = (if (b, k) = (''destructive_idempotency'', run_key)
      then Some (put_val ''destructive_idempotency'' run_key [] [] (VIdempotency \<lparr>idem_JobID = ''job1'', idem_RequestHash = run_digest\<rparr>))
      else if (b, k) = (''jobs'', ''job1'') then Some (put_job run_waiting)
      else if (b, k) = (''destructive_plans'', ''r'') then Some (put_plan run_consumed) else None)" for b k
    by (simp add: run_db2_def db_lookup_commit put_rec_def ids 1)
  show "db_lookup run_db3 b k = (if (b, k) = (''jobs'', ''job1'') then Some (put_job run_queued)
      else if (b, k) = (''job_authorizations'', ''job1'') then Some (put_auth run_lease (of_Unix 1005)) else db_lookup run_db2 b k)"
    by (simp add: run_db3_def db_lookup_commit put_rec_def ids)
  show "db_lookup run_db4 b k = (if (b, k) = (''jobs'', ''job1'') then Some (put_job_at ''job1'' run_running) else db_lookup run_db3 b k)"
    by (simp add: run_db4_def db_lookup_commit put_job_at_def)
qed

lemma run_found:
  "get_plan run_db1 ''r'' = Inr (dated_plan run_plan (of_Unix 1000))"
  "get_plan run_db2 ''r'' = Inr run_consumed" "get_job run_db2 ''job1'' = Inr run_waiting" "get_auth run_db2 ''job1'' = Inl ErrNotFound"
  "get_plan run_db3 ''r'' = Inr run_consumed" "get_job run_db3 ''job1'' = Inr run_queued" "get_auth run_db3 ''job1'' = Inr run_lease"
  "get_job run_db4 ''job1'' = Inr run_running"
  by (simp_all add: get_as_lookup run_lookups put_job_at_def)

subsection \<open>Steps\<close>

lemma run_valid:
  "ValidKeyID ''r''" "ValidKeyID ''ann''" "ValidKeyID ''m1''" "ValidKeyID ''job1''" "ValidKeyID ''n1''"
  "planDigest ascii_tables run_digest" "planPath ''a/b''" "run_key \<noteq> []" "\<not> IsZero (of_Unix 1000)" "\<not> IsZero (of_Unix 1005)"
proof -
  show "ValidKeyID ''r''" "ValidKeyID ''ann''" "ValidKeyID ''m1''" "ValidKeyID ''job1''" "ValidKeyID ''n1''"
    by (simp_all add: ValidKeyID_def plain_identifiers)
  show "planDigest ascii_tables run_digest" by code_simp
  show "planPath ''a/b''" by code_simp
  show "run_key \<noteq> []" by code_simp
  show "\<not> IsZero (of_Unix 1000)" "\<not> IsZero (of_Unix 1005)" by (simp_all add: IsZero_def of_Unix_def unix_offset_def)
qed

lemma run_step1: "CreateDestructivePlan ascii_tables run_plan (of_Unix 1000) fresh_db = (Inr (), run_db1)"
proof -
  have p: "dp_ID run_plan = ''r''" "dp_TokenHash run_plan = run_digest" "dp_SubjectType run_plan = ''user''" "dp_SubjectID run_plan = ''ann''"
    "dp_Operation run_plan = ''delete''" "dp_MountID run_plan = ''m1''" "dp_Source run_plan = ''a/b''" "dp_Destination run_plan = []"
    "\<not> dp_Overwrite run_plan" "\<not> dp_DestinationExists run_plan" "dp_TreeDigest run_plan = run_digest" "dp_DestinationDigest run_plan = []"
    "dp_ConsumedJobID run_plan = []" "dp_IdempotencyKey run_plan = []" "dp_RequestHash run_plan = []"
    by (simp_all add: run_plan_def)
  have "plan_header_ok ascii_tables run_plan (of_Unix 1000)" by (simp add: plan_header_ok_def p run_valid)
  moreover have "dp_ID (dated_plan run_plan (of_Unix 1000)) = ''r''" by (simp add: dated_plan_def p)
  ultimately show ?thesis
    by (simp add: CreateDestructivePlan_def p run_valid record_plan_def db_update_def fresh_lookup historyBucket_def run_db1_def)
qed

lemma run_step2:
  "AcceptDestructivePlan ascii_tables sample_crypto ''r'' ''user'' ''ann'' run_digest run_digest False [] run_job ''k1'' run_digest (of_Unix 1000) run_db1
     = (Inr (run_waiting, False), run_db2)"
proof -
  let ?p = "dated_plan run_plan (of_Unix 1000)"
  have j: "job_ID run_job = ''job1''" by (simp add: run_job_def)
  have m: "\<not> plan_mismatch ?p ''user'' ''ann'' run_digest run_job"
    by (simp add: plan_mismatch_def dated_plan_def run_plan_def run_job_def blank_job_def)
  have s: "\<not> plan_stale ?p run_digest False [] run_job (of_Unix 1000)"
    by (simp add: plan_stale_def dated_plan_def run_plan_def run_job_def blank_job_def run_valid unsecured_def plan_lifetime_def)
  have c: "dp_ConsumedJobID ?p = []" by (simp add: dated_plan_def run_plan_def)
  have i: "get_as un_idem run_db1 ''destructive_idempotency'' run_key = Inl ErrNotFound" by (simp add: get_as_lookup run_lookups)
  have "accept_body sample_crypto ''r'' ''user'' ''ann'' run_digest run_digest False [] run_job ''k1'' run_digest (of_Unix 1000) run_db1
     = Inr ([put_plan run_consumed, put_job run_waiting,
         put_val ''destructive_idempotency'' run_key [] [] (VIdempotency \<lparr>idem_JobID = ''job1'', idem_RequestHash = run_digest\<rparr>)], (run_waiting, False))"
    using i by (simp add: accept_body_def run_found m s c run_lookups j Let_def run_key_def [symmetric] run_consumed_def)
  then show ?thesis
    by (simp add: AcceptDestructivePlan_def run_valid db_update_def plain_def historyBucket_def j run_db2_def run_consumed_def dated_plan_def run_plan_def)
qed

lemma lease_checked:
  "\<exists>flt. VerifyJobLease ascii_tables sample_crypto (sample_token lease_claims) sample_keys sample_binding ''n1'' 1 (of_Unix 1005) = Some (lease_claims, flt)"
proof -
  obtain cl flt where v: "VerifyJobLease ascii_tables sample_crypto (sample_token lease_claims) sample_keys sample_binding ''n1'' 1 (of_Unix 1005) = Some (cl, flt)"
    using lease_verified by auto
  then have "verifySigned ascii_tables sample_crypto (sample_token lease_claims) sample_keys (of_Unix 1005) = Some (cl, flt)"
    by (auto simp: VerifyJobLease_def split: option.splits dest: Verify_SomeD)
  moreover obtain flt' where "verifySigned ascii_tables sample_crypto (sample_token lease_claims) sample_keys (of_Unix 1005) = Some (lease_claims, flt')"
    using lease_token_accepted [of 1005] by auto
  ultimately show ?thesis using v by simp
qed

lemma run_job_id [simp]: "job_ID run_job = ''job1''"
  by (simp add: run_job_def)

lemma run_fields:
  "job_ID run_waiting = ''job1''" "job_State run_waiting = ''waiting_validation''" "job_Phase run_waiting = ''waiting_authorization''"
  "\<not> job_SignedAuthBound run_waiting" "job_DestructivePlanID run_waiting = ''r''" "securedJobKind run_waiting" "\<not> unsecured run_waiting"
  by (simp_all add: accepted_job_def run_job_def blank_job_def dated_plan_def run_plan_def securedJobKind_def unsecured_def)

lemma run_matches: "jobAuthorizationMatches sample_crypto run_waiting sample_binding ''n1''"
  by (simp add: jobAuthorizationMatches_def sample_binding_def empty_binding_def accepted_job_def run_job_def blank_job_def)

lemma run_queued_fields:
  "job_ID run_queued = ''job1''" "job_State run_queued = ''queued''" "job_SignedAuthBound run_queued" "job_DestructivePlanID run_queued = ''r''"
  "executableSecuredJob run_queued" "\<not> not_due run_queued now" "\<not> unsecured run_queued"
proof -
  show "job_State run_queued = ''queued''" "job_DestructivePlanID run_queued = ''r''" "\<not> not_due run_queued now" "\<not> unsecured run_queued"
    using run_fields by (simp_all add: renewed_job_def Let_def not_due_def unsecured_def)
      (simp add: accepted_job_def run_job_def blank_job_def)
qed (simp_all add: executableSecuredJob_def run_fields)

lemma run_backed: "plan_backs run_db2 run_waiting ''ann''" "plan_backs run_db3 run_queued ''ann''"
  by (simp_all add: plan_backs_def run_fields run_queued_fields run_found)
    (simp_all add: run_consumed_def dated_plan_def run_plan_def run_job_def)

lemma sample_actor: "b_ActorID sample_binding = ''ann''" "b_PlanID sample_binding = ''job1''"
  by (simp_all add: sample_binding_def)

lemma run_step3:
  "RenewJobAuthorization ascii_tables sample_crypto ''job1'' ''n1'' (sample_token lease_claims) sample_binding sample_keys (of_Unix 1005) run_db2
     = (Inr run_lease, run_db3)"
proof -
  obtain flt where v: "VerifyJobLease ascii_tables sample_crypto (sample_token lease_claims) sample_keys sample_binding ''n1'' 1 (of_Unix 1005)
      = Some (lease_claims, flt)"
    using lease_checked by blast
  have "renewable run_waiting" by (simp add: renewable_def run_fields)
  moreover have "renewal_of ascii_tables sample_crypto run_db2 run_waiting ''n1'' (sample_token lease_claims) sample_binding sample_keys (of_Unix 1005) = Inr (Next 1)"
    by (simp add: renewal_of_def run_fields run_found)
  ultimately have "renew_body ascii_tables sample_crypto ''job1'' ''n1'' (sample_token lease_claims) sample_binding sample_keys (of_Unix 1005) run_db2
     = (Inr ([put_auth run_lease (of_Unix 1005), put_job run_queued], run_lease), ensureSecurityVersion 5 run_db2)"
    by (simp add: renew_body_def run_found run_matches sample_actor run_backed v run_fields Let_def run_lease_def)
  moreover have "sample_token lease_claims \<noteq> []" by (simp add: sample_token_def)
  ultimately show ?thesis
    by (simp add: RenewJobAuthorization_def run_valid db_update_def historyBucket_def run_db3_def run_fields run_lease_def)
qed

lemma run_lease_sel:
  "auth_JobID run_lease = ''job1''" "auth_Binding run_lease = sample_binding" "auth_Revision run_lease = 1"
  "auth_Envelope run_lease = sample_token lease_claims" "auth_ExpiresAt run_lease = of_Unix 1030"
  by (simp_all add: run_lease_def)

lemma lease_verifies:
  assumes "identity_kept run_waiting j" "job_SignedAuthBound j" "get_auth db ''job1'' = Inr run_lease" "plan_backs db j ''ann''"
  shows "\<exists>flt. verifiedJobLease ascii_tables sample_crypto db j ''n1'' sample_keys (of_Unix 1005) = Inr (run_lease, flt)"
proof -
  obtain flt where v: "VerifyJobLease ascii_tables sample_crypto (sample_token lease_claims) sample_keys sample_binding ''n1'' 1 (of_Unix 1005)
      = Some (lease_claims, flt)"
    using lease_checked by blast
  have "jobAuthorizationMatches sample_crypto j sample_binding ''n1''"
    by (rule matches_same [OF run_matches]) (use assms(1) run_fields(7) in \<open>simp_all add: identity_kept_def\<close>)
  moreover have "job_ID j = ''job1''" using assms(1) by (simp add: identity_kept_def)
  moreover have "Unix (of_Unix 1030) = 1030" by (simp add: Unix_def of_Unix_def)
  ultimately show ?thesis
    using v assms(2-4) by (simp add: verifiedJobLease_def run_lease_sel sample_actor)
qed

lemma run_verified: "\<exists>flt. verifiedJobLease ascii_tables sample_crypto run_db3 run_queued ''n1'' sample_keys (of_Unix 1005) = Inr (run_lease, flt)"
  by (rule lease_verifies) (simp_all add: identity_steps run_queued_fields run_found run_backed)

lemma singleton_list: "distinct xs \<Longrightarrow> set xs = {x} \<Longrightarrow> xs = [x]"
  by (cases xs rule: remdups_adj.cases) auto

lemma run_queue: "db_keys_state run_db3 ''jobs'' ''queued'' = [''job1'']"
proof (rule singleton_list)
  show "distinct (db_keys_state run_db3 ''jobs'' ''queued'')" by (simp only: db_keys_state_def distinct_selected)
  have "rec_State (put_job run_queued) = ''queued''" by (simp add: put_job_def run_queued_fields)
  then have "k \<in> set (db_keys_state run_db3 ''jobs'' ''queued'') \<longleftrightarrow> k = ''job1''" for k
    by (simp add: set_db_keys_state run_lookups(2,3))
  then show "set (db_keys_state run_db3 ''jobs'' ''queued'') = {''job1''}" by (simp add: set_eq_iff)
qed

lemma run_step4: "ClaimNextSecuredJob ascii_tables sample_crypto ''n1'' sample_keys (of_Unix 1005) run_db3 = (Inr run_running, run_db4)"
proof -
  obtain flt where "verifiedJobLease ascii_tables sample_crypto run_db3 run_queued ''n1'' sample_keys (of_Unix 1005) = Inr (run_lease, flt)"
    using run_verified by blast
  then show ?thesis
    by (simp add: ClaimNextSecuredJob_def run_valid db_update_def plain_def run_queue run_found run_queued_fields historyBucket_def run_db4_def)
qed

lemma run_reachable:
  "reachable ascii_tables sample_crypto ''n1'' run_db1" "reachable ascii_tables sample_crypto ''n1'' run_db2"
  "reachable ascii_tables sample_crypto ''n1'' run_db3" "reachable ascii_tables sample_crypto ''n1'' run_db4"
proof -
  show 1: "reachable ascii_tables sample_crypto ''n1'' run_db1"
    by (rule reachable.step [OF reachable.fresh node_op.CreateDestructivePlan [OF run_step1]])
  show 2: "reachable ascii_tables sample_crypto ''n1'' run_db2"
    by (rule reachable.step [OF 1 node_op.AcceptDestructivePlan [OF run_step2]])
  show 3: "reachable ascii_tables sample_crypto ''n1'' run_db3"
    by (rule reachable.step [OF 2 node_op.RenewJobAuthorization [OF run_step3]])
  show "reachable ascii_tables sample_crypto ''n1'' run_db4"
    by (rule reachable.step [OF 3 node_op.ClaimNextSecuredJob [OF run_step4]])
qed

subsection \<open>A plain job\<close>

definition plain_job :: job where
  "plain_job = blank_job\<lparr>job_ID := ''job2'', job_Type := ''copy_local''\<rparr>"

definition plain_db :: node_db where
  "plain_db = db_commit fresh_db [put_job plain_job, put_idempotency ''k2'' ''job2'' ''h'']"

lemma plain_fields: "job_ID plain_job = ''job2''" "job_State plain_job = ''queued''" "unsecured plain_job" "\<not> not_due plain_job now"
  "job_SignedAuthActorID plain_job = []" "job_SignedAuthCredentialID plain_job = []"
  by (simp_all add: plain_job_def blank_job_def unsecured_def not_due_def)

lemma plain_created: "CreateJobWithItemsHashed plain_job [] ''k2'' ''h'' fresh_db = (Inr (plain_job, False), plain_db)"
  by (simp add: CreateJobWithItemsHashed_def plain_fields db_update_def plain_def get_as_lookup fresh_lookup create_new_job_def
      historyBucket_def plain_db_def)

lemma plain_reachable: "reachable U C node plain_db"
  by (rule reachable.step [OF reachable.fresh node_op.CreateJobWithItemsHashed [OF plain_created]])

lemma plain_found: "job_at plain_db ''job2'' = Some plain_job"
  by (simp add: val_at_lookup plain_db_def db_lookup_commit put_rec_def plain_fields)

subsection \<open>A peer with a grant\<close>

definition run_request :: pairing_request where
  "run_request = \<lparr>prq_ID = ''q'', prq_InviteID = ''i'', prq_IssuerNodeID = ''n2'', prq_IssuerName = ''two'', prq_IssuerFingerprint = ''f'',
     prq_IssuerIdentityEpoch = 0, prq_IssuerEndpoint = [], prq_IssuerMTLSEndpoint = [], prq_TransferMode = [], prq_IssuerRole = [],
     prq_InviteeRole = [], prq_Purpose = [], prq_ClusterID = [], prq_Status = ''pending_review'', prq_ExpiresAt = 9, prq_CreatedAt = 1,
     prq_CorrelationID = []\<rparr>"

definition run_peer :: peer where
  "run_peer = \<lparr>peer_NodeID = ''n2'', peer_Name = ''two'', peer_Fingerprint = ''f'', peer_PreviousFingerprint = [], peer_IdentityEpoch = 0,
     peer_Endpoint = [], peer_MTLSEndpoint = [], peer_TransferMode = [], peer_LocalRole = [], peer_RemoteRole = [], peer_ClusterID = [],
     peer_State = ''online'', peer_LastSeenAt = None, peer_ConsecutiveFailures = 0, peer_TrustedAt = 2, peer_CorrelationID = []\<rparr>"

definition run_grant :: transfer_grant where
  "run_grant = \<lparr>gr_ConfiguredEnabled = False, gr_InactiveReason = [], gr_ID = ''g'', gr_PeerNodeID = ''n2'', gr_MountID = ''m1'', gr_Path = ''a'',
     gr_Direction = ''send'', gr_Permissions = \<lparr>gp_Read = True, gp_Write = False, gp_Delete = False, gp_Rename = False\<rparr>,
     gr_ConflictPolicies = [], gr_Exclude = [], gr_VisibleToPeer = True, gr_Enabled = True, gr_CorrelationID = [], gr_CreatedAt = 3,
     gr_UpdatedAt = 3\<rparr>"

definition grant_db :: node_db where
  "grant_db = snd (ApplyConfiguration ''r1'' [] [run_grant] [] 3 (\<lambda>_. 3)
     (snd (ResolvePairingRequest ''q'' ''approved'' (Some run_peer) 2 (snd (CreatePairingRequest run_request ''s'' fresh_db)))))"

lemma grant_reachable: "reachable U C node grant_db"
  unfolding grant_db_def
  by (rule reachable.step [OF reachable.step [OF reachable.step [OF reachable.fresh]]])
    (rule node_op.CreatePairingRequest node_op.ResolvePairingRequest node_op.ApplyConfiguration, rule surjective_pairing)+

lemma grant_found: "get_grant grant_db ''g'' = Inr (run_grant\<lparr>gr_UpdatedAt := 3\<rparr>)" by code_simp

lemma grant_revoked: "fst (RevokePeer ''n2'' ''c'' 4 (\<lambda>_. 4) grant_db) = Inr ()" by code_simp

subsection \<open>An upload session\<close>

definition run_upload :: upload_session where
  "run_upload = \<lparr>up_AuthorizationActorID = ''ann'', up_AuthorizationCredentialID = ''c1'', up_AuthorizationRevision = 0, up_State = [],
     up_CompletedAt = None, up_PublishChecksum = [], up_ID = ''u1'', up_MountID = ''m1'', up_Destination = ''a'', up_Size = 5, up_Offset = 0,
     up_Overwrite = False, up_Checksum = [], up_ChunkSize = 5, up_CorrelationID = [], up_CreatedAt = 1, up_UpdatedAt = 1, up_ExpiresAt = 9\<rparr>"

definition upload_db :: node_db where
  "upload_db = snd (CreateUploadSession run_upload fresh_db)"

definition upload_db' :: node_db where
  "upload_db' = snd (ReauthorizeUploadSession sample_crypto ''u1'' ''ann'' ''c2'' (UploadReauthorizationRequestID sample_crypto ''u1'' ''c1'' 0) upload_db)"

lemma upload_steps: "reachable U C node upload_db" "node_op U sample_crypto node upload_db upload_db'"
proof -
  show "reachable U C node upload_db"
    unfolding upload_db_def by (rule reachable.step [OF reachable.fresh node_op.CreateUploadSession [OF surjective_pairing]])
  show "node_op U sample_crypto node upload_db upload_db'"
    unfolding upload_db'_def by (rule node_op.ReauthorizeUploadSession [OF surjective_pairing])
qed

lemma upload_found: "upload_at upload_db ''u1'' = Some run_upload"
  "upload_at upload_db' ''u1'' = Some (run_upload\<lparr>up_AuthorizationCredentialID := ''c2'', up_AuthorizationRevision := 1\<rparr>)" by code_simp+

subsection \<open>What the run shows\<close>

lemma run_at:
  "job_at run_db2 ''job1'' = Some run_waiting" "job_at run_db3 ''job1'' = Some run_queued" "job_at run_db4 ''job1'' = Some run_running"
  "plan_at run_db2 ''r'' = Some run_consumed" "auth_at run_db3 ''job1'' = Some run_lease"
  by (simp_all add: val_at_get run_found)

lemma run_later:
  "(node_op ascii_tables sample_crypto ''n1'')\<^sup>*\<^sup>* run_db2 run_db4" "(node_op ascii_tables sample_crypto ''n1'')\<^sup>*\<^sup>* run_db3 run_db4"
  using node_op.RenewJobAuthorization [OF run_step3] node_op.ClaimNextSecuredJob [OF run_step4]
  by (meson converse_rtranclp_into_rtranclp rtranclp.rtrancl_refl)+

lemma run_verified_later: "\<exists>flt. verifiedJobLease ascii_tables sample_crypto run_db4 run_running ''n1'' sample_keys (of_Unix 1005) = Inr (run_lease, flt)"
proof (rule lease_verifies)
  show "get_auth run_db4 ''job1'' = Inr run_lease" by (simp add: get_as_lookup run_lookups)
  show "plan_backs run_db4 run_running ''ann''"
    using run_backed(2) identity_steps(1) [of run_queued "of_Unix 1005"]
    by (simp add: plan_backs_def get_as_lookup run_lookups run_queued_fields identity_kept_def)
  show "identity_kept run_waiting run_running" by (rule identity_trans [OF identity_steps(4) identity_steps(1)])
qed (simp add: start_job_def run_queued_fields)

lemma run_guarded:
  "\<exists>g flt. guard_start ascii_tables sample_crypto ''job1'' ''n1'' sample_keys 1000 (of_Unix 1005) run_db4 = Inr (g, flt)
     \<and> guard_tick ascii_tables sample_crypto ''job1'' ''n1'' sample_keys (of_Unix 1005) run_db4 g = Inr g"
proof -
  obtain flt where "verifiedJobLease ascii_tables sample_crypto run_db4 run_running ''n1'' sample_keys (of_Unix 1005) = Inr (run_lease, flt)"
    using run_verified_later by blast
  then have v: "ValidateJobAuthorization ascii_tables sample_crypto ''job1'' ''n1'' sample_keys (of_Unix 1005) run_db4 = Inr (run_lease, flt)"
    by (simp add: ValidateJobAuthorization_def run_valid run_found)
  obtain flt' where l: "VerifyJobLease ascii_tables sample_crypto (sample_token lease_claims) sample_keys sample_binding ''n1'' 1 (of_Unix 1005)
      = Some (lease_claims, flt')"
    using lease_checked by blast
  have "of_Unix 1005 < of_Unix 1030" by (simp add: of_Unix_def)
  then show ?thesis using v l by (simp add: guard_start_def guard_tick_def run_lease_sel)
qed

end
