(* ===== verification/Node_Props.thy ===== *)
theory Node_Props
  imports Node_Runs
begin

text \<open>
  What the node state guarantees, over every reachable state and every sequence of operations: types,
  the conditions under which a secured job runs, the one use of a destructive plan, revocation,
  idempotency, recovery and claims.
\<close>

subsection \<open>Helpers\<close>

lemma job_step:
  assumes "reachable U C node db" "node_op U C node db db'"
  shows "job_at db' k = job_at db k \<or> (\<exists>rs j. job_change U C node db rs (job_at db k) j \<and> job_at db' k = Some j)"
  using node_op_step [OF assms(2) reachable_typed [OF assms(1)]]
proof cases
  case quiet
  then show ?thesis by (simp add: val_at_lookup quiet_lookup)
next
  case (commit db1 rs)
  have same: "job_at db' k = job_at (db_commit db rs) k" by (simp add: commit(1) val_at_lookup quiet_commit [OF commit(2)])
  from after_job_commit [OF commit(3), of k] show ?thesis
  proof cases
    case kept
    then show ?thesis using same by simp
  next
    case (changed j)
    then show ?thesis using same by metis
  qed
qed

lemma change_to_active:
  assumes "job_change U C node db rs (Some j) i" "\<not> unsecured j" "\<not> active_state (job_State j)" "active_state (job_State i)"
  shows "\<exists>keys now lease. job_State j = ''queued'' \<and> executableSecuredJob j \<and> verifiedJobLease U C db j node keys now = Inr lease \<and> i = start_job j now"
  using assms(1)
proof (cases rule: job_change.cases)
  case (updated "next")
  have "active_state (job_State next)" using assms(4) unfolding updated(1) by simp
  moreover have "\<not> active_state (job_State next)"
    using updated(2) assms(2,3) unfolding validSecuredJobUpdate_def by (auto simp: active_state_def split: if_split_asm)
  ultimately show ?thesis by contradiction
next
  case (renewed a now)
  then show ?thesis using assms(4) renewed_state [of j now] by (auto simp: active_state_def)
qed (use assms in \<open>auto simp: active_state_def\<close>)

lemma new_job_idle:
  assumes "job_change U C node db rs None i" "\<not> unsecured i"
  shows "job_State i = ''waiting_validation''"
  using assms by (auto elim: job_change.cases)

subsection \<open>Types\<close>

lemma listed_ids:
  assumes "typed_db db" "\<And>k. k \<in> set ks \<Longrightarrow> db_exists db ''jobs'' k"
  shows "\<exists>js. get_all un_job db ''jobs'' ks = Inr js \<and> map job_ID js = ks"
  using assms(2)
proof (induction ks)
  case (Cons k ks)
  then obtain js r where js: "get_all un_job db ''jobs'' ks = Inr js" "map job_ID js = ks" "db_lookup db ''jobs'' k = Some r"
    by (metis list.set_intros not_Some_eq)
  then obtain j where j: "get_job db k = Inr j" using typed_get [OF assms(1), of un_job "''jobs''" k] by simp
  then show ?case using js typed_job [OF assms(1) j] by simp
qed simp

text \<open>
  C35: Every operation keeps the records typed: each record holds a value of the type of its bucket, under the
  key, group, order and state of its value. So a read never meets a value of another type: for a job, a
  plan or a lease it finds the value with that key, or that there is no record, and the list of the jobs
  holds all of them, the newest first, up to the limit. This is about the records; that a closed store or
  one whose files cannot be read refuses the operation is not part of the view.
\<close>

theorem operations_keep_types:
  assumes "node_op U C node db db'" "typed_db db"
  shows "typed_db db'
    \<and> (\<forall>k. GetJob k db' = Inl ErrNotFound \<and> db_lookup db' ''jobs'' k = None \<or> (\<exists>j. GetJob k db' = Inr j \<and> job_ID j = k))
    \<and> (\<forall>k. get_plan db' k = Inl ErrNotFound \<and> db_lookup db' ''destructive_plans'' k = None \<or> (\<exists>p. get_plan db' k = Inr p \<and> dp_ID p = k))
    \<and> (\<forall>k. GetJobAuthorization k db' = Inl ErrNotFound \<and> db_lookup db' ''job_authorizations'' k = None
         \<or> (\<exists>a. GetJobAuthorization k db' = Inr a \<and> auth_JobID a = k))
    \<and> (\<forall>limit. \<exists>js. ListJobs limit db' = Inr js
         \<and> map job_ID js = (if limit < 0 then rev (db_keys db' ''jobs'' []) else take (nat limit) (rev (db_keys db' ''jobs'' []))))"
proof (intro conjI allI)
  show t: "typed_db db'" using assms by (rule node_op_typed)
  show "GetJob k db' = Inl ErrNotFound \<and> db_lookup db' ''jobs'' k = None \<or> (\<exists>j. GetJob k db' = Inr j \<and> job_ID j = k)" for k
    using typed_get [OF t, of un_job "''jobs''" k] typed_job [OF t, of k] by (auto simp: GetJob_def split: option.splits)
  show "get_plan db' k = Inl ErrNotFound \<and> db_lookup db' ''destructive_plans'' k = None \<or> (\<exists>p. get_plan db' k = Inr p \<and> dp_ID p = k)" for k
    using typed_get [OF t, of un_plan "''destructive_plans''" k] typed_plan [OF t, of k] by (auto split: option.splits)
  show "GetJobAuthorization k db' = Inl ErrNotFound \<and> db_lookup db' ''job_authorizations'' k = None
      \<or> (\<exists>a. GetJobAuthorization k db' = Inr a \<and> auth_JobID a = k)" for k
    using typed_get [OF t, of un_auth "''job_authorizations''" k] typed_auth [OF t, of k]
    by (auto simp: GetJobAuthorization_def split: option.splits)
  show "\<exists>js. ListJobs limit db' = Inr js
      \<and> map job_ID js = (if limit < 0 then rev (db_keys db' ''jobs'' []) else take (nat limit) (rev (db_keys db' ''jobs'' [])))" for limit
    unfolding ListJobs_def Let_def
    by (rule listed_ids [OF t]) (auto simp: set_db_keys split: if_splits dest: in_set_takeD)
qed

theorem operations_keep_types_witness:
  "typed_db run_db3 \<and> typed_db run_db4 \<and> (\<exists>js. ListJobs (- 1) run_db4 = Inr js \<and> map job_ID js = rev (db_keys run_db4 ''jobs'' []))
   \<and> GetJob ''job1'' run_db4 = Inr run_running"
proof -
  note o = operations_keep_types [OF node_op.ClaimNextSecuredJob [OF run_step4] reachable_typed [OF run_reachable(3)]]
  have "\<forall>limit. \<exists>js. ListJobs limit run_db4 = Inr js
      \<and> map job_ID js = (if limit < 0 then rev (db_keys run_db4 ''jobs'' []) else take (nat limit) (rev (db_keys run_db4 ''jobs'' [])))"
    using o by blast
  from spec [OF this, of "- 1"] show ?thesis
    using o by (simp add: reachable_typed [OF run_reachable(3)] GetJob_def run_found)
qed

text \<open>
  C1: Each operation of the node state is a transaction of the specification \<open>node_step\<close>: the records
  it writes follow the life of jobs, plans, leases, uploads and invites, and are written as a whole.
\<close>

theorem operations_refine_specification:
  assumes "node_op U C node db db'" "typed_db db"
  shows "node_step U C node db db'"
  using assms by (rule node_op_step)

theorem operations_refine_specification_witness:
  "typed_db run_db2 \<and> node_step ascii_tables sample_crypto ''n1'' run_db2 run_db3"
  using operations_refine_specification [OF node_op.RenewJobAuthorization [OF run_step3] reachable_typed [OF run_reachable(2)]]
    reachable_typed [OF run_reachable(2)]
  by blast

subsection \<open>Secured jobs\<close>

text \<open>
  C5: In every reachable state, a secured job that is queued, running, about to pause or about to
  stop is bound to a lease and of an executable kind; the lease record matches the job's
  operation, paths and options on this node, and a job with a destructive plan is the one that
  consumed it.
\<close>

theorem secured_job_runs_under_lease:
  assumes "reachable U C node db" "job_at db k = Some j" "\<not> unsecured j" "job_State j = ''queued'' \<or> active_state (job_State j)"
  shows "executableSecuredJob j \<and> (\<exists>a. auth_at db k = Some a \<and> auth_Revision a \<noteq> 0 \<and> jobAuthorizationMatches C j (auth_Binding a) node)
    \<and> (job_DestructivePlanID j \<noteq> [] \<longrightarrow> (\<exists>p. plan_at db (job_DestructivePlanID j) = Some p \<and> dp_ConsumedJobID p = k))"
proof -
  have "job_ok j" using secured.always [OF assms(1)] assms(2) unfolding secured_jobs_def by blast
  then have ex: "executableSecuredJob j" using assms(3,4) by (auto simp: job_ok_def active_state_def)
  then have "job_SignedAuthBound j" by (simp add: executableSecuredJob_def)
  then obtain a where a: "auth_at db k = Some a" "jobAuthorizationMatches C j (auth_Binding a) node"
    using leases_bound [OF leases.always [OF assms(1)] assms(2)] by blast
  moreover have "auth_Revision a \<noteq> 0" using leases_job [OF leases.always [OF assms(1)] a(1)] by blast
  ultimately show ?thesis using ex plans_backed [OF plans.always [OF assms(1)] assms(2)] by blast
qed

theorem secured_job_runs_under_lease_witness:
  "\<exists>a. auth_at run_db4 ''job1'' = Some a \<and> jobAuthorizationMatches sample_crypto run_running (auth_Binding a) ''n1''"
  using secured_job_runs_under_lease [OF run_reachable(4), of "''job1''" run_running]
  by (auto simp: run_at run_queued_fields active_state_def)

text \<open>
  C3: A secured job gets into a running state only by the claim of a queued job whose lease verifies
  at that time, on the records as they are.
\<close>

theorem secured_job_starts_only_with_lease:
  assumes "reachable U C node db" "node_op U C node db db'" "job_at db' k = Some i" "\<not> unsecured i" "active_state (job_State i)"
    and "\<And>j. job_at db k = Some j \<Longrightarrow> \<not> unsecured j \<and> \<not> active_state (job_State j)"
  shows "\<exists>j keys now lease. job_at db k = Some j \<and> job_State j = ''queued'' \<and> executableSecuredJob j
    \<and> verifiedJobLease U C db j node keys now = Inr lease \<and> i = start_job j now"
proof -
  consider "job_at db' k = job_at db k" | rs where "job_change U C node db rs (job_at db k) i"
    using job_step [OF assms(1,2), of k] assms(3) by auto
  then show ?thesis
  proof cases
    case 1
    then show ?thesis using assms(3,5,6) by auto
  next
    case (2 rs)
    show ?thesis
    proof (cases "job_at db k")
      case None
      then show ?thesis using new_job_idle [of U C node db rs i] 2 assms(4,5) by (simp add: active_state_def)
    next
      case (Some j)
      then show ?thesis using change_to_active [of U C node db rs j i] 2 assms(5,6) by auto
    qed
  qed
qed

theorem secured_job_starts_only_with_lease_witness:
  "\<exists>j keys now lease. job_at run_db3 ''job1'' = Some j \<and> verifiedJobLease ascii_tables sample_crypto run_db3 j ''n1'' keys now = Inr lease
     \<and> run_running = start_job j now"
  using secured_job_starts_only_with_lease [OF run_reachable(3) node_op.ClaimNextSecuredJob [OF run_step4], of "''job1''" run_running]
  by (auto simp: run_at run_queued_fields active_state_def)

text \<open>
  C17: Whatever happens later, a job is still there; its plan, its need for a signed authorization,
  its actor and credential do not change; of a secured job nothing of the operation changes, and once
  it is canceled or completed it stays so.
\<close>

theorem job_identity_lasts:
  assumes "reachable U C node db" "(node_op U C node)\<^sup>*\<^sup>* db db'" "job_at db k = Some j"
  shows "\<exists>i. job_at db' k = Some i \<and> job_DestructivePlanID i = job_DestructivePlanID j
    \<and> job_RequiresSignedAuth i = job_RequiresSignedAuth j \<and> job_SignedAuthActorID i = job_SignedAuthActorID j
    \<and> job_SignedAuthCredentialID i = job_SignedAuthCredentialID j \<and> (\<not> unsecured j \<longrightarrow> same_operation j i)
    \<and> (\<not> unsecured j \<and> terminal (job_State j) \<longrightarrow> job_State i = job_State j)"
  using jobs.later [OF assms(2,1)] assms(3) unfolding jobs_last_def job_lasts_def identity_kept_def by blast

theorem job_identity_lasts_witness:
  "\<exists>i. job_at run_db4 ''job1'' = Some i \<and> same_operation run_waiting i"
  using job_identity_lasts [OF run_reachable(2) run_later(1), of "''job1''" run_waiting]
  by (auto simp: run_at run_fields)

text \<open>
  C8: A destructive plan that was consumed is never changed or removed, and no job other than the one
  that consumed it ever carries it.
\<close>

theorem plan_consumed_once:
  assumes "reachable U C node db" "(node_op U C node)\<^sup>*\<^sup>* db db'" "plan_at db k = Some p" "dp_ConsumedJobID p \<noteq> []"
  shows "plan_at db' k = Some p \<and> (\<forall>i j. job_at db' i = Some j \<and> job_DestructivePlanID j = k \<longrightarrow> i = dp_ConsumedJobID p)"
proof -
  have kept: "plan_at db' k = Some p" and r: "reachable U C node db'"
    using plans_history.later [OF assms(2,1)] assms(3,4) by (auto simp: plans_last_def)
  have "k \<noteq> []" using typed_key [OF reachable_typed [OF assms(1)] assms(3)] .
  then show ?thesis using kept plans_backed [OF plans.always [OF r]] by fastforce
qed

theorem plan_consumed_once_witness:
  "plan_at run_db4 ''r'' = Some run_consumed \<and> dp_ConsumedJobID run_consumed = ''job1''"
  using plan_consumed_once [OF run_reachable(2) run_later(1), of "''r''" run_consumed]
  by (simp add: run_at) (simp add: run_consumed_def)

text \<open>
  C18: The lease of a job keeps its binding for good and its revision only grows: a record with the same
  revision is the same record.
\<close>

theorem lease_revisions_grow:
  assumes "reachable U C node db" "(node_op U C node)\<^sup>*\<^sup>* db db'" "auth_at db k = Some a"
  shows "\<exists>a'. auth_at db' k = Some a' \<and> auth_Binding a' = auth_Binding a \<and> (a' = a \<or> auth_Revision a < auth_Revision a')"
  using leases_history.later [OF assms(2,1)] assms(3) unfolding leases_last_def lease_lasts_def by blast

theorem lease_revisions_grow_witness:
  "\<exists>a. auth_at run_db4 ''job1'' = Some a \<and> auth_Binding a = sample_binding"
  using lease_revisions_grow [OF run_reachable(3) run_later(2), of "''job1''" run_lease]
  by (auto simp: run_at run_lease_def)

subsection \<open>Recovery and claims\<close>

lemma check_records_plain:
  "(\<And>r. r \<in> set rs \<Longrightarrow> rec_Bucket r \<noteq> [] \<and> rec_Key r \<noteq> [] \<and> \<not> historyBucket (rec_Bucket r)) \<Longrightarrow> check_records present seen rs = None"
  by (induction present seen rs rule: check_records.induct) auto

lemma update_plain_ok:
  assumes "g db = Inr (rs, x)" "\<And>p. check_records p [] rs = None"
  shows "db_update db (plain g) = (Inr x, if rs = [] then db else db_commit db rs)"
  by (simp add: db_update_def plain_def assms)

lemma state_of_key:
  assumes "typed_db db" "job_at db k = Some j"
  obtains r where "db_lookup db ''jobs'' k = Some r" "rec_State r = job_State j" "rec_Order r = order_of (job_CreatedAt j)" "get_job db k = Inr j"
  using assms by (auto simp: val_at_Some_get get_as_Inr_iff well_typed_def dest!: typed_lookup)

lemma listed_jobs:
  assumes "typed_db db"
  shows "k \<in> set (db_keys db ''jobs'' []) \<longleftrightarrow> (\<exists>j. job_at db k = Some j)"
    and "k \<in> set (db_keys_state db ''jobs'' st) \<longleftrightarrow> (\<exists>j. job_at db k = Some j \<and> job_State j = st)"
proof -
  have "db_lookup db ''jobs'' k \<noteq> None \<longleftrightarrow> job_at db k \<noteq> None"
    using typed_val_None [OF assms, of un_job "''jobs''" k] by simp
  then show "k \<in> set (db_keys db ''jobs'' []) \<longleftrightarrow> (\<exists>j. job_at db k = Some j)" by (simp add: set_db_keys)
  show "k \<in> set (db_keys_state db ''jobs'' st) \<longleftrightarrow> (\<exists>j. job_at db k = Some j \<and> job_State j = st)" (is "?l \<longleftrightarrow> ?r")
  proof
    assume ?l
    then obtain r where r: "db_lookup db ''jobs'' k = Some r" "rec_State r = st" by (auto simp: set_db_keys_state)
    then obtain j where "job_at db k = Some j" using typed_val_None [OF assms, of un_job "''jobs''" k] by (cases "job_at db k") auto
    then show ?r using r by (metis assms option.inject state_of_key)
  next
    assume ?r
    then show ?l using assms by (metis set_db_keys_state state_of_key)
  qed
qed

lemma change_scan_total:
  assumes "typed_db db"
  shows "(\<And>k. k \<in> set ids \<Longrightarrow> \<exists>j. job_at db k = Some j) \<Longrightarrow>
    \<exists>out. change_scan now states (\<lambda>_. True) True db ids
      = Inr (map (\<lambda>k. put_job_at k (wake_job (the (job_at db k)) now True)) (filter (\<lambda>k. job_State (the (job_at db k)) \<in> states) ids), out)"
proof (induction ids)
  case (Cons k ids)
  then obtain j where j: "job_at db k = Some j" by auto
  obtain r where r: "db_lookup db ''jobs'' k = Some r" "rec_State r = job_State j" "get_job db k = Inr j"
    using state_of_key [OF assms j] by metis
  obtain out where "change_scan now states (\<lambda>_. True) True db ids
      = Inr (map (\<lambda>k. put_job_at k (wake_job (the (job_at db k)) now True)) (filter (\<lambda>k. job_State (the (job_at db k)) \<in> states) ids), out)"
    using Cons by auto
  then show ?case using j r by auto
qed simp

text \<open>Several jobs written under their keys.\<close>

abbreviation put_jobs :: "(string \<Rightarrow> job) \<Rightarrow> string list \<Rightarrow> node_rec list" where
  "put_jobs f ks \<equiv> map (\<lambda>k. put_job_at k (f k)) ks"

lemma job_at_put_jobs: "job_at (db_commit db (put_jobs f ks)) k = (if k \<in> set ks then Some (f k) else job_at db k)"
proof -
  have "foldl put_rec m (put_jobs f ks) (''jobs'', k) = (if k \<in> set ks then Some (put_job_at k (f k)) else m (''jobs'', k))" for m
    by (induction ks arbitrary: m) (auto simp: put_job_at_def)
  then show ?thesis by (simp add: val_at_lookup db_lookup_commit put_job_at_def)
qed

lemma check_put_jobs: "(\<And>k. k \<in> set ks \<Longrightarrow> k \<noteq> []) \<Longrightarrow> check_records p [] (put_jobs f ks) = None"
  by (rule check_records_plain) (auto simp: put_job_at_def historyBucket_def)

text \<open>
  C32: The recovery at a start always succeeds and leaves no job in a state that a worker or a wake-up
  would go on with: every such job waits for an explicit validation.
\<close>

theorem recovery_leaves_no_job_running:
  assumes "reachable U C node db" "RecoverRunningJobs now db = (res, db')"
  shows "(\<exists>js. res = Inr js) \<and> (\<forall>k j. job_at db' k = Some j \<longrightarrow> job_State j \<notin> recovered_states)
    \<and> (\<forall>k j. job_at db k = Some j \<longrightarrow> (\<exists>i. job_at db' k = Some i \<and> (if job_State j \<in> recovered_states then i = wake_job j now True else i = j)))"
proof -
  have t: "typed_db db" using assms(1) by (rule reachable_typed)
  let ?ids = "db_keys db ''jobs'' []" and ?new = "\<lambda>k. wake_job (the (job_at db k)) now True"
  let ?hit = "filter (\<lambda>k. job_State (the (job_at db k)) \<in> recovered_states) ?ids"
  obtain out where scan: "change_scan now recovered_states (\<lambda>_. True) True db ?ids = Inr (put_jobs ?new ?hit, out)"
    using change_scan_total [OF t, of ?ids] listed_jobs(1) [OF t] by blast
  have hit: "k \<in> set ?hit \<longleftrightarrow> (\<exists>j. job_at db k = Some j \<and> job_State j \<in> recovered_states)" for k
    using listed_jobs(1) [OF t, of k] by auto
  have "k \<noteq> []" if h: "k \<in> set ?hit" for k
  proof -
    obtain j where "job_at db k = Some j" using hit [of k] h by auto
    then show ?thesis by (rule typed_key [OF t])
  qed
  then have "check_records p [] (put_jobs ?new ?hit) = None" for p by (rule check_put_jobs)
  then have "RecoverRunningJobs now db = (Inr out, if put_jobs ?new ?hit = [] then db else db_commit db (put_jobs ?new ?hit))"
    unfolding RecoverRunningJobs_def changeJobs_def recovered_states_def [symmetric] by (intro update_plain_ok) (rule scan)
  with assms(2) have run: "res = Inr out" "db' = (if ?hit = [] then db else db_commit db (put_jobs ?new ?hit))" by simp_all
  have "job_at db' k = (if k \<in> set ?hit then Some (?new k) else job_at db k)" for k
    unfolding run(2) by (cases "?hit = []") (simp_all only: job_at_put_jobs if_True if_False list.set empty_iff refl)
  then have "job_at db' k = (case job_at db k of None \<Rightarrow> None | Some j \<Rightarrow> Some (if job_State j \<in> recovered_states then wake_job j now True else j))" for k
    using hit [of k] by (cases "job_at db k") auto
  then show ?thesis using run(1) by (auto simp: recovered_states_def split: option.splits if_split_asm)
qed

theorem recovery_leaves_no_job_running_witness:
  "\<exists>js db. RecoverRunningJobs (of_Unix 2000) run_db4 = (Inr js, db) \<and> job_at db ''job1'' = Some (wake_job run_running (of_Unix 2000) True)"
proof -
  obtain res db where e: "RecoverRunningJobs (of_Unix 2000) run_db4 = (res, db)" by fastforce
  note r = recovery_leaves_no_job_running [OF run_reachable(4) e]
  have "job_State run_running \<in> recovered_states" by (simp add: recovered_states_def)
  moreover have "\<exists>i. job_at db ''job1'' = Some i \<and> (if job_State run_running \<in> recovered_states then i = wake_job run_running (of_Unix 2000) True else i = run_running)"
    using r run_at(3) by blast
  ultimately show ?thesis using r e by auto
qed

text \<open>The first key that satisfies a predicate, in a list that is sorted by position.\<close>

lemma first_in_order:
  assumes "sorted (map f ks)" "k \<in> set ks" "P k"
  obtains xs k' ys where "ks = xs @ k' # ys" "P k'" "\<forall>x\<in>set xs. \<not> P x" "\<forall>x\<in>set ks. P x \<longrightarrow> f k' \<le> f x" "\<forall>x\<in>set xs. f x \<le> f k'"
proof -
  obtain xs k' ys where ks: "ks = xs @ k' # ys" "P k'" "\<forall>x\<in>set xs. \<not> P x"
    using split_list_first_prop [of ks P] assms(2,3) by blast
  then have "\<forall>x\<in>set ks. P x \<longrightarrow> f k' \<le> f x" "\<forall>x\<in>set xs. f x \<le> f k'" using assms(1) by (auto simp: sorted_append)
  with ks show thesis using that by blast
qed

abbreviation queue_pos :: "job \<Rightarrow> string \<Rightarrow> string \<times> string" where
  "queue_pos j k \<equiv> (order_of (job_CreatedAt j), k)"

text \<open>The first queued job that satisfies a predicate, and the queued jobs before it.\<close>

lemma claim_order:
  assumes "typed_db db" "job_at db k = Some j" "job_State j = ''queued''" "P j"
  obtains xs k' j' ys where "db_keys_state db ''jobs'' ''queued'' = xs @ k' # ys" "job_at db k' = Some j'" "job_State j' = ''queued''" "P j'"
    "\<forall>x. x \<in> set xs \<longleftrightarrow> (\<exists>jx. job_at db x = Some jx \<and> job_State jx = ''queued'' \<and> queue_pos jx x < queue_pos j' k')"
    "\<forall>x jx. job_at db x = Some jx \<and> job_State jx = ''queued'' \<and> P jx \<longrightarrow> queue_pos j' k' \<le> queue_pos jx x"
proof -
  let ?pos = "key_pos (map_of (db_recs db)) ''jobs''" and ?ks = "db_keys_state db ''jobs'' ''queued''"
  have pos: "?pos x = queue_pos jx x" if h: "job_at db x = Some jx" for x jx
  proof -
    obtain r where "db_lookup db ''jobs'' x = Some r" "rec_Order r = order_of (job_CreatedAt jx)" using state_of_key [OF assms(1) h] .
    then show ?thesis by (simp add: key_pos_def db_lookup_def)
  qed
  let ?Q = "\<lambda>x. \<exists>j. job_at db x = Some j \<and> P j"
  note listed = listed_jobs(2) [OF assms(1), of _ "''queued''"]
  have k: "k \<in> set ?ks" "?Q k" using listed assms(2-4) by auto
  have sorted: "sorted (map ?pos ?ks)" by (simp add: db_keys_state_def sorted_selected)
  obtain xs k' ys where ks: "?ks = xs @ k' # ys" "?Q k'" "\<forall>x\<in>set xs. \<not> ?Q x"
    "\<forall>x\<in>set ?ks. ?Q x \<longrightarrow> ?pos k' \<le> ?pos x" "\<forall>x\<in>set xs. ?pos x \<le> ?pos k'"
    by (rule first_in_order [OF sorted k(1), where P = ?Q, OF k(2)])
  obtain j' where j': "job_at db k' = Some j'" "P j'" using ks(2) by auto
  have st: "job_State j' = ''queued''" using listed [of k'] j'(1) ks(1) by simp
  have "distinct ?ks" by (simp add: db_keys_state_def distinct_selected)
  then have neq: "k' \<notin> set xs" unfolding ks(1) by simp
  show thesis
  proof (rule that [OF ks(1) j'(1) st j'(2)])
    have "queue_pos j' k' \<le> queue_pos jx x" if "job_at db x = Some jx" "job_State jx = ''queued''" "P jx" for x jx
    proof -
      have "x \<in> set ?ks" "?Q x" using listed [of x] that by auto
      then have "?pos k' \<le> ?pos x" using ks(4) by simp
      then show ?thesis by (simp only: pos [OF j'(1)] pos [OF that(1)])
    qed
    then show "\<forall>x jx. job_at db x = Some jx \<and> job_State jx = ''queued'' \<and> P jx \<longrightarrow> queue_pos j' k' \<le> queue_pos jx x" by blast
    have "x \<in> set xs \<longleftrightarrow> (\<exists>jx. job_at db x = Some jx \<and> job_State jx = ''queued'' \<and> queue_pos jx x < queue_pos j' k')" for x
    proof
      assume x: "x \<in> set xs"
      then have "x \<in> set ?ks" by (simp add: ks(1))
      then obtain jx where jx: "job_at db x = Some jx" "job_State jx = ''queued''" using listed by blast
      have "?pos x \<le> ?pos k'" using ks(5) x by simp
      then have "queue_pos jx x \<le> queue_pos j' k'" by (simp only: pos [OF j'(1)] pos [OF jx(1)])
      moreover have "queue_pos jx x \<noteq> queue_pos j' k'" using x neq by auto
      ultimately show "\<exists>jx. job_at db x = Some jx \<and> job_State jx = ''queued'' \<and> queue_pos jx x < queue_pos j' k'" using jx by auto
    next
      assume "\<exists>jx. job_at db x = Some jx \<and> job_State jx = ''queued'' \<and> queue_pos jx x < queue_pos j' k'"
      then obtain jx where jx: "job_at db x = Some jx" "job_State jx = ''queued''" "queue_pos jx x < queue_pos j' k'" by blast
      then have "x \<in> set (xs @ k' # ys)" using listed [of x] ks(1) by auto
      moreover have "\<not> ?pos k' \<le> ?pos x" using jx(3) by (simp only: pos [OF j'(1)] pos [OF jx(1)] not_le)
      ultimately show "x \<in> set xs" using sorted unfolding ks(1) by (auto simp: sorted_append)
    qed
    then show "\<forall>x. x \<in> set xs \<longleftrightarrow> (\<exists>jx. job_at db x = Some jx \<and> job_State jx = ''queued'' \<and> queue_pos jx x < queue_pos j' k')" by blast
  qed
qed

subsection \<open>Claims of jobs without authorization\<close>

definition claimable :: "gotime \<Rightarrow> job \<Rightarrow> bool" where
  "claimable now j \<longleftrightarrow> job_State j = ''queued'' \<and> unsecured j \<and> \<not> not_due j now"

lemma claim_plain_skip:
  assumes "\<And>x. x \<in> set xs \<Longrightarrow> \<exists>j. job_at db x = Some j \<and> \<not> claimable now j"
  shows "claim_plain now db (xs @ ks) = claim_plain now db ks"
  using assms by (induction xs) (fastforce simp: val_at_Some_get claimable_def)+

text \<open>
  C33: \<open>ClaimNextJob\<close> starts a job exactly when an unsecured queued job is due. The one it starts is such a
  job, and the first of them by time of creation and then by ID; no other job changes. When there is none
  it answers that there is no job, and changes nothing.
\<close>

theorem ClaimNextJob_takes_first:
  assumes "reachable U C node db"
  shows "if \<exists>k j. job_at db k = Some j \<and> claimable now j
    then \<exists>k' j' db'. ClaimNextJob now db = (Inr (start_job j' now), db') \<and> job_at db k' = Some j' \<and> claimable now j'
      \<and> (\<forall>k j. job_at db k = Some j \<and> claimable now j \<longrightarrow> queue_pos j' k' \<le> queue_pos j k)
      \<and> (\<forall>k. job_at db' k = (if k = k' then Some (start_job j' now) else job_at db k))
    else ClaimNextJob now db = (Inl ErrNotFound, db)"
proof -
  have t: "typed_db db" using assms by (rule reachable_typed)
  let ?ks = "db_keys_state db ''jobs'' ''queued''"
  show ?thesis
  proof (cases "\<exists>k j. job_at db k = Some j \<and> claimable now j")
    case True
    then obtain k j where kj: "job_at db k = Some j" "job_State j = ''queued''" "claimable now j" by (auto simp: claimable_def)
    obtain xs k' j' ys where ks: "?ks = xs @ k' # ys" and j': "job_at db k' = Some j'" "job_State j' = ''queued''" "claimable now j'"
      and all: "\<forall>x. x \<in> set xs \<longleftrightarrow> (\<exists>jx. job_at db x = Some jx \<and> job_State jx = ''queued'' \<and> queue_pos jx x < queue_pos j' k')"
        "\<forall>x jx. job_at db x = Some jx \<and> job_State jx = ''queued'' \<and> claimable now jx \<longrightarrow> queue_pos j' k' \<le> queue_pos jx x"
      by (rule claim_order [where P = "claimable now", OF t kj])
    note xs = spec [OF all(1)] and le = all(2) [rule_format, OF conjI, OF _ conjI]
    have "\<exists>j. job_at db x = Some j \<and> \<not> claimable now j" if "x \<in> set xs" for x
      using xs [of x] that le [of x] by (meson not_le)
    then have "claim_plain now db ?ks = claim_plain now db (k' # ys)" unfolding ks by (rule claim_plain_skip)
    then have "claim_plain now db ?ks = Inr (put_jobs (\<lambda>_. start_job j' now) [k'], start_job j' now)"
      using j' by (simp add: val_at_Some_get claimable_def)
    moreover have "check_records p [] (put_jobs (\<lambda>_. start_job j' now) [k']) = None" for p
      using typed_key [OF t j'(1)] by (intro check_put_jobs) simp
    ultimately have c: "ClaimNextJob now db = (Inr (start_job j' now), db_commit db (put_jobs (\<lambda>_. start_job j' now) [k']))"
      unfolding ClaimNextJob_def by (subst update_plain_ok) auto
    have "\<forall>k. job_at (db_commit db (put_jobs (\<lambda>_. start_job j' now) [k'])) k = (if k = k' then Some (start_job j' now) else job_at db k)"
      using job_at_put_jobs [of db "\<lambda>_. start_job j' now" "[k']"] by simp
    moreover have "\<forall>k j. job_at db k = Some j \<and> claimable now j \<longrightarrow> queue_pos j' k' \<le> queue_pos j k"
      using le by (simp add: claimable_def)
    ultimately show ?thesis using True c j'(1,3) by (simp only: if_True) blast
  next
    case False
    have "\<exists>j. job_at db x = Some j \<and> \<not> claimable now j" if "x \<in> set ?ks" for x
      using listed_jobs(2) [OF t, of x "''queued''"] that False by blast
    then have "claim_plain now db (?ks @ []) = claim_plain now db []" by (rule claim_plain_skip)
    then have "ClaimNextJob now db = (Inl ErrNotFound, db)" by (simp add: ClaimNextJob_def db_update_def plain_def)
    then show ?thesis using False by (simp only: if_False)
  qed
qed

theorem ClaimNextJob_takes_first_witness:
  "\<exists>j db. ClaimNextJob (of_Unix 1005) plain_db = (Inr (start_job j (of_Unix 1005)), db) \<and> \<not> not_due j (of_Unix 1005)"
proof -
  have "claimable (of_Unix 1005) plain_job" using plain_fields by (simp add: claimable_def)
  then show ?thesis
    using ClaimNextJob_takes_first [OF plain_reachable, of "of_Unix 1005"] plain_found
    by (auto simp: claimable_def split: if_split_asm)
qed

subsection \<open>Claims of secured jobs\<close>

text \<open>A queued secured job that is due; it starts when its lease verifies, and is parked otherwise.\<close>

definition due_secured :: "gotime \<Rightarrow> job \<Rightarrow> bool" where
  "due_secured now j \<longleftrightarrow> job_State j = ''queued'' \<and> executableSecuredJob j \<and> \<not> not_due j now"

definition lease_verifies_at :: "unicode_tables \<Rightarrow> crypto \<Rightarrow> node_db \<Rightarrow> string \<Rightarrow> keyring \<Rightarrow> gotime \<Rightarrow> job \<Rightarrow> bool" where
  "lease_verifies_at U C db node keys now j \<longleftrightarrow> (\<exists>lease. verifiedJobLease U C db j node keys now = Inr lease)"

abbreviation parked :: "node_db \<Rightarrow> gotime \<Rightarrow> string \<Rightarrow> job" where
  "parked db now x \<equiv> park_job (the (job_at db x)) now"

lemma claim_secured_skip:
  assumes "\<And>x. x \<in> set xs \<Longrightarrow> \<exists>j. job_at db x = Some j \<and> \<not> (due_secured now j \<and> lease_verifies_at U C db node keys now j)"
    and "claim_secured U C node keys now db ks = Inr (rs, c)"
  shows "claim_secured U C node keys now db (xs @ ks)
    = Inr (put_jobs (parked db now) (filter (\<lambda>x. due_secured now (the (job_at db x))) xs) @ rs, c)"
  using assms(1)
proof (induction xs)
  case (Cons x xs)
  then have ih: "claim_secured U C node keys now db (xs @ ks)
      = Inr (put_jobs (parked db now) (filter (\<lambda>x. due_secured now (the (job_at db x))) xs) @ rs, c)" by simp
  obtain j where j: "job_at db x = Some j" "\<not> (due_secured now j \<and> lease_verifies_at U C db node keys now j)"
    using Cons.prems [of x] by auto
  then have get: "get_job db x = Inr j" by (simp add: val_at_Some_get)
  show ?case
  proof (cases "due_secured now j")
    case True
    then obtain e where "verifiedJobLease U C db j node keys now = Inl e"
      using j(2) by (cases "verifiedJobLease U C db j node keys now") (auto simp: lease_verifies_at_def)
    then show ?thesis using True ih j(1) get by (simp add: due_secured_def)
  next
    case False
    then show ?thesis using ih j(1) get by (simp add: due_secured_def)
  qed
qed (simp add: assms(2))

lemma claim_secured_commit:
  assumes "ValidKeyID node" "\<not> IsZero now" "\<And>k. k \<in> set ks \<Longrightarrow> k \<noteq> []"
    and "claim_secured U C node keys now db (db_keys_state db ''jobs'' ''queued'') = Inr (put_jobs f ks, c)"
    and "\<And>j. c = Some j \<Longrightarrow> job_ID j \<noteq> []"
  shows "ClaimNextSecuredJob U C node keys now db
    = (case c of None \<Rightarrow> Inl ErrNotFound | Some j \<Rightarrow> Inr j, if ks = [] then db else db_commit db (put_jobs f ks))"
proof -
  have "db_update db (plain (\<lambda>db. claim_secured U C node keys now db (db_keys_state db ''jobs'' ''queued'')))
      = (Inr c, if put_jobs f ks = [] then db else db_commit db (put_jobs f ks))"
    using assms(3,4) by (intro update_plain_ok check_put_jobs) auto
  then show ?thesis using assms(1,2,5) by (simp add: ClaimNextSecuredJob_def split: option.split)
qed

text \<open>A due job whose lease verifies: the first of them starts.\<close>

lemma claim_secured_first:
  assumes "reachable U C node db" "ValidKeyID node" "\<not> IsZero now"
    and "\<exists>k j. job_at db k = Some j \<and> due_secured now j \<and> lease_verifies_at U C db node keys now j"
  shows "\<exists>k' j' db'. ClaimNextSecuredJob U C node keys now db = (Inr (start_job j' now), db') \<and> job_at db k' = Some j'
      \<and> due_secured now j' \<and> lease_verifies_at U C db node keys now j'
      \<and> (\<forall>k j. job_at db k = Some j \<and> due_secured now j \<and> lease_verifies_at U C db node keys now j \<longrightarrow> queue_pos j' k' \<le> queue_pos j k)
      \<and> (\<forall>k. job_at db' k = (if k = k' then Some (start_job j' now)
           else map_option (\<lambda>j. if due_secured now j \<and> queue_pos j k < queue_pos j' k' then park_job j now else j) (job_at db k)))"
proof -
  have t: "typed_db db" using assms(1) by (rule reachable_typed)
  let ?ks = "db_keys_state db ''jobs'' ''queued''" and ?P = "\<lambda>j. due_secured now j \<and> lease_verifies_at U C db node keys now j"
    and ?due = "filter (\<lambda>x. due_secured now (the (job_at db x)))"
  have nonempty: "k \<noteq> []" if "job_at db k = Some j" for k j using that by (rule typed_key [OF t])
  obtain k j where kj: "job_at db k = Some j" "job_State j = ''queued''" "?P j" using assms(4) by (auto simp: due_secured_def)
  obtain xs k' j' ys where ks: "?ks = xs @ k' # ys" and j': "job_at db k' = Some j'" "job_State j' = ''queued''" "?P j'"
    and all: "\<forall>x. x \<in> set xs \<longleftrightarrow> (\<exists>jx. job_at db x = Some jx \<and> job_State jx = ''queued'' \<and> queue_pos jx x < queue_pos j' k')"
      "\<forall>x jx. job_at db x = Some jx \<and> job_State jx = ''queued'' \<and> ?P jx \<longrightarrow> queue_pos j' k' \<le> queue_pos jx x"
    by (rule claim_order [where P = ?P, OF t kj])
  note xs = spec [OF all(1)] and le = all(2) [rule_format, OF conjI, OF _ conjI]
  let ?f = "\<lambda>x. if x = k' then start_job j' now else parked db now x" and ?ws = "?due xs @ [k']"
  have k': "k' \<notin> set xs" using xs [of k'] j'(1) by auto
  have "\<exists>j. job_at db x = Some j \<and> \<not> ?P j" if "x \<in> set xs" for x
    using xs [of x] that le [of x] by (meson not_le)
  moreover have "claim_secured U C node keys now db (k' # ys) = Inr (put_jobs (\<lambda>_. start_job j' now) [k'], Some (start_job j' now))"
    using j' by (auto simp: val_at_Some_get due_secured_def lease_verifies_at_def)
  ultimately have "claim_secured U C node keys now db ?ks
      = Inr (put_jobs (parked db now) (?due xs) @ put_jobs (\<lambda>_. start_job j' now) [k'], Some (start_job j' now))"
    unfolding ks by (rule claim_secured_skip)
  moreover have "put_jobs (parked db now) (?due xs) = put_jobs ?f (?due xs)" using k' by auto
  ultimately have c: "claim_secured U C node keys now db ?ks = Inr (put_jobs ?f ?ws, Some (start_job j' now))" by simp
  have keys: "x \<noteq> []" if "x \<in> set ?ws" for x
    using that xs [of x] nonempty [of x] j'(1) by auto
  have "job_ID (start_job j' now) \<noteq> []"
    using typed_job [OF t, of k' j'] j'(1) nonempty by (simp add: val_at_Some_get)
  then have r: "ClaimNextSecuredJob U C node keys now db = (Inr (start_job j' now), db_commit db (put_jobs ?f ?ws))"
    using claim_secured_commit [OF assms(2,3) keys c] by simp
  have jobs: "job_at (db_commit db (put_jobs ?f ?ws)) k = (if k = k' then Some (start_job j' now)
      else map_option (\<lambda>j. if due_secured now j \<and> queue_pos j k < queue_pos j' k' then park_job j now else j) (job_at db k))" for k
  proof (cases "k = k'")
    case True
    then show ?thesis by (simp only: job_at_put_jobs) simp
  next
    case False
    have "k \<in> set ?ws \<longleftrightarrow> (\<exists>j. job_at db k = Some j \<and> due_secured now j \<and> queue_pos j k < queue_pos j' k')"
      using False xs [of k] by (auto simp: due_secured_def)
    then show ?thesis using False by (cases "job_at db k") (auto simp only: job_at_put_jobs option.map option.sel if_True if_False split: if_split)
  qed
  have "\<forall>k j. job_at db k = Some j \<and> ?P j \<longrightarrow> queue_pos j' k' \<le> queue_pos j k" using le by (simp add: due_secured_def)
  then show ?thesis using r jobs j'(1,3) by blast
qed

text \<open>No such job: all due jobs are parked.\<close>

lemma claim_secured_none:
  assumes "reachable U C node db" "ValidKeyID node" "\<not> IsZero now"
    and none: "\<not> (\<exists>k j. job_at db k = Some j \<and> due_secured now j \<and> lease_verifies_at U C db node keys now j)"
  shows "\<exists>db'. ClaimNextSecuredJob U C node keys now db = (Inl ErrNotFound, db')
      \<and> (\<forall>k. job_at db' k = map_option (\<lambda>j. if due_secured now j then park_job j now else j) (job_at db k))"
proof -
  have t: "typed_db db" using assms(1) by (rule reachable_typed)
  let ?ks = "db_keys_state db ''jobs'' ''queued''" and ?P = "\<lambda>j. due_secured now j \<and> lease_verifies_at U C db node keys now j"
    and ?due = "filter (\<lambda>x. due_secured now (the (job_at db x)))"
  have nonempty: "k \<noteq> []" if "job_at db k = Some j" for k j using that by (rule typed_key [OF t])
  let ?ws = "?due ?ks"
  have listed: "x \<in> set ?ks \<longleftrightarrow> (\<exists>j. job_at db x = Some j \<and> job_State j = ''queued'')" for x
    by (rule listed_jobs(2) [OF t])
  have "\<exists>j. job_at db x = Some j \<and> \<not> ?P j" if "x \<in> set ?ks" for x using that none listed [of x] by blast
  moreover have "claim_secured U C node keys now db [] = Inr (put_jobs (parked db now) [], None)" by simp
  ultimately have "claim_secured U C node keys now db (?ks @ []) = Inr (put_jobs (parked db now) ?ws @ put_jobs (parked db now) [], None)"
    by (rule claim_secured_skip)
  then have c: "claim_secured U C node keys now db ?ks = Inr (put_jobs (parked db now) ?ws, None)" by simp
  have keys: "x \<noteq> []" if "x \<in> set ?ws" for x using that listed [of x] nonempty [of x] by auto
  let ?db = "if ?ws = [] then db else db_commit db (put_jobs (parked db now) ?ws)"
  have r: "ClaimNextSecuredJob U C node keys now db = (Inl ErrNotFound, ?db)"
    using claim_secured_commit [OF assms(2,3) keys c] by simp
  have "job_at ?db k = (if k \<in> set ?ws then Some (parked db now k) else job_at db k)" for k
    by (cases "?ws = []") (simp_all only: job_at_put_jobs if_True if_False list.set empty_iff refl)
  moreover have "k \<in> set ?ws \<longleftrightarrow> (\<exists>j. job_at db k = Some j \<and> due_secured now j)" for k
    using listed [of k] by (auto simp: due_secured_def)
  ultimately have "job_at ?db k = map_option (\<lambda>j. if due_secured now j then park_job j now else j) (job_at db k)" for k
    by (cases "job_at db k") auto
  then show ?thesis using r by blast
qed

text \<open>
  C34: On a node with a valid identity and a time, \<open>ClaimNextSecuredJob\<close> starts a job exactly when there is a
  queued secured job that is due and whose lease verifies. The one it starts is such a job, and the first of
  them by time of creation and then by ID. The due jobs before it, whose leases do not verify, are
  parked, and no other job changes. When there is none it parks all due jobs and answers that there is no job.
\<close>

theorem ClaimNextSecuredJob_takes_first:
  assumes "reachable U C node db" "ValidKeyID node" "\<not> IsZero now"
  shows "if \<exists>k j. job_at db k = Some j \<and> due_secured now j \<and> lease_verifies_at U C db node keys now j
    then \<exists>k' j' db'. ClaimNextSecuredJob U C node keys now db = (Inr (start_job j' now), db') \<and> job_at db k' = Some j'
      \<and> due_secured now j' \<and> lease_verifies_at U C db node keys now j'
      \<and> (\<forall>k j. job_at db k = Some j \<and> due_secured now j \<and> lease_verifies_at U C db node keys now j \<longrightarrow> queue_pos j' k' \<le> queue_pos j k)
      \<and> (\<forall>k. job_at db' k = (if k = k' then Some (start_job j' now)
           else map_option (\<lambda>j. if due_secured now j \<and> queue_pos j k < queue_pos j' k' then park_job j now else j) (job_at db k)))
    else \<exists>db'. ClaimNextSecuredJob U C node keys now db = (Inl ErrNotFound, db')
      \<and> (\<forall>k. job_at db' k = map_option (\<lambda>j. if due_secured now j then park_job j now else j) (job_at db k))"
  using claim_secured_first [OF assms, of keys] claim_secured_none [OF assms, of keys]
  by (cases "\<exists>k j. job_at db k = Some j \<and> due_secured now j \<and> lease_verifies_at U C db node keys now j") (simp_all only: if_True if_False simp_thms)

theorem ClaimNextSecuredJob_takes_first_witness:
  "\<exists>j db. ClaimNextSecuredJob ascii_tables sample_crypto ''n1'' sample_keys (of_Unix 1005) run_db3 = (Inr (start_job j (of_Unix 1005)), db)
     \<and> due_secured (of_Unix 1005) j"
proof -
  have "due_secured (of_Unix 1005) run_queued" using run_queued_fields by (simp add: due_secured_def)
  moreover have "lease_verifies_at ascii_tables sample_crypto run_db3 ''n1'' sample_keys (of_Unix 1005) run_queued"
    using run_verified by (auto simp: lease_verifies_at_def)
  ultimately have "\<exists>k j. job_at run_db3 k = Some j \<and> due_secured (of_Unix 1005) j
      \<and> lease_verifies_at ascii_tables sample_crypto run_db3 ''n1'' sample_keys (of_Unix 1005) j"
    using run_at(2) by blast
  with ClaimNextSecuredJob_takes_first [OF run_reachable(3) run_valid(5,10), of sample_keys] show ?thesis
    by (simp only: if_True) blast
qed

subsection \<open>Revocation\<close>

lemma revoke_grants_tombstones:
  "revoke_grants db peerID correlation now clock n ks = Inr rs \<Longrightarrow> k \<in> set ks \<Longrightarrow> tombstone k peerID \<in> set rs"
proof (induction ks arbitrary: n rs)
  case (Cons x xs)
  then obtain g where g: "get_grant db x = Inr g" by (auto split: sum.splits)
  then show ?case using Cons by (auto simp: Let_def split: sum.splits)
qed simp

lemma write_tombstone:
  "write_ok U C node db rs r \<Longrightarrow> rec_Bucket r = ''revoked_grants'' \<Longrightarrow> \<not> rec_Delete r \<and> rec_Data r = Some (VBool True)"
  by (erule write_ok.cases) auto

lemma RevokePeer_tombstones:
  assumes "RevokePeer peerID correlation now clock db = (Inr (), db')" "typed_db db" "get_grant db k = Inr g" "gr_PeerNodeID g = peerID"
  shows "value_at db' ''revoked_grants'' k = Some (VBool True)"
proof -
  obtain rs where body: "revoke_body peerID correlation now clock db = Inr (rs, ())" and db': "db' = (if rs = [] then db else db_commit db rs)"
    using assms(1) by (auto simp: RevokePeer_def db_update_def plain_def split: sum.splits if_split_asm option.splits)
  obtain r where "db_lookup db ''grants'' k = Some r" "rec_Group r = peerID"
    using assms(2-4) by (auto simp: get_as_Inr_iff well_typed_def dest!: typed_lookup)
  then have "k \<in> set (db_keys db ''grants'' peerID)" by (simp add: set_db_keys)
  then have mem: "tombstone k peerID \<in> set rs"
    using body by (auto simp: revoke_body_def Let_def split: sum.splits dest: revoke_grants_tombstones)
  show ?thesis
  proof (cases rule: commit_lookup_cases [of db rs "''revoked_grants''" k])
    case kept
    then show ?thesis using kept(2) [OF mem] by simp
  next
    case (written l)
    have "write_ok U C node db rs l" for U C node
      using revoke_body_ok [OF body assms(2)] written(1) by (simp add: allowed_def)
    then have "\<not> rec_Delete l \<and> rec_Data l = Some (VBool True)" by (rule write_tombstone) (rule written(2))
    moreover have "db' = db_commit db rs" using db' mem by (metis empty_iff list.set(1))
    ultimately show ?thesis using written(4) by (simp add: value_at_def)
  qed
qed

text \<open>
  C11: Revocation is permanent. After a peer is revoked, a grant that it had is inactive in every later
  state, whatever is configured under its ID, and also when the peer is paired again.
\<close>

theorem revoked_grant_stays_inactive:
  assumes "reachable U C node db" "RevokePeer peerID correlation now clock db = (Inr (), db1)" "get_grant db k = Inr g" "gr_PeerNodeID g = peerID"
    and "(node_op U C node)\<^sup>*\<^sup>* db1 db2" "gr_ID h = k"
  shows "\<exists>gc. prepareGrant db2 h = Inr gc \<and> \<not> gr_Enabled (gc_grant gc) \<and> gc_mount gc = None"
proof -
  have "reachable U C node db1" using assms(1) node_op.RevokePeer [OF assms(2)] by (rule reachable.step)
  moreover have "value_at db1 ''revoked_grants'' k = Some (VBool True)"
    using RevokePeer_tombstones [OF assms(2) reachable_typed [OF assms(1)] assms(3,4)] .
  ultimately have "value_at db2 ''revoked_grants'' k = Some (VBool True)"
    using records.later [OF assms(5)] by (auto simp: records_last_def lasting_bucket_def)
  then have "db_exists db2 ''revoked_grants'' k" by (auto simp: value_at_def split: bind_splits)
  then show ?thesis using assms(6) by (auto simp: prepareGrant_def settled_def inactive_def Let_def)
qed

theorem revoked_grant_stays_inactive_witness:
  "\<exists>db. RevokePeer ''n2'' ''c'' 4 (\<lambda>_. 4) grant_db = (Inr (), db) \<and> (\<exists>gc. prepareGrant db run_grant = Inr gc \<and> \<not> gr_Enabled (gc_grant gc))"
proof -
  obtain db where db: "RevokePeer ''n2'' ''c'' 4 (\<lambda>_. 4) grant_db = (Inr (), db)"
    using grant_revoked by (metis prod.collapse)
  have "gr_PeerNodeID (run_grant\<lparr>gr_UpdatedAt := 3\<rparr>) = ''n2''" "gr_ID run_grant = ''g''" by (simp_all add: run_grant_def)
  then show ?thesis
    using revoked_grant_stays_inactive [OF grant_reachable db grant_found _ rtranclp.rtrancl_refl] db by blast
qed

subsection \<open>Idempotency\<close>

lemma create_new_job_records:
  assumes "create_new_job j items key hash db = Inr (rs, x)" "key \<noteq> []"
  shows "put_job j \<in> set rs \<and> x = (j, False) \<and> (\<exists>qs. rs = qs @ [put_idempotency key (job_ID j) hash])"
  using assms by (auto simp: create_new_job_def split: if_split_asm sum.splits)

lemma created_body:
  assumes "CreateJobWithItemsHashed j items key hash db = (Inr (i, False), db')" "key \<noteq> []"
  obtains rs where "create_new_job j items key hash db = Inr (rs, (j, False))" "i = j" "db' = db_commit db rs" "db_lookup db ''idempotency'' key = None"
    "unsecured j" "job_SignedAuthActorID j = []" "job_SignedAuthCredentialID j = []"
proof -
  have guard: "unsecured j" "job_SignedAuthActorID j = []" "job_SignedAuthCredentialID j = []"
    using assms(1) by (auto simp: CreateJobWithItemsHashed_def split: if_split_asm)
  have none: "db_lookup db ''idempotency'' key = None"
    using assms guard
    by (auto simp: CreateJobWithItemsHashed_def db_update_def plain_def get_as_NotFound_iff split: if_split_asm sum.splits option.splits)
  then have nf: "get_as un_idem db ''idempotency'' key = Inl ErrNotFound" by (simp add: get_as_NotFound_iff)
  obtain rs x where rs: "create_new_job j items key hash db = Inr (rs, x)"
    using assms guard nf by (cases "create_new_job j items key hash db") (auto simp: CreateJobWithItemsHashed_def db_update_def plain_def)
  have mem: "put_job j \<in> set rs" "x = (j, False)" using create_new_job_records [OF rs assms(2)] by simp_all
  then have "rs \<noteq> []" by auto
  then have "i = j" "db' = db_commit db rs"
    using assms guard nf rs mem(2) by (auto simp: CreateJobWithItemsHashed_def db_update_def plain_def split: option.splits)
  then show thesis using that rs mem(2) none guard by blast
qed

text \<open>
  C14: A job is created once for an idempotency key. After a creation with a key, with or without a request
  hash, the job is still there in every later state, and a later plain creation with the key changes
  nothing. It is a conflict when it carries a hash that is not the one recorded, or when the job was bound
  to an authorization in the meantime; otherwise it returns the stored job. A creation without a hash
  (\<open>CreateJob\<close>, \<open>CreateJobWithItems\<close>) therefore always gets the stored job while that is unsecured. The later
  request is one that a plain creation accepts: a job without authorization fields.
\<close>

theorem idempotency_key_creates_once:
  assumes "reachable U C node db" "CreateJobWithItemsHashed j items key hash db = (Inr (i, False), db1)" "key \<noteq> []"
    and "(node_op U C node)\<^sup>*\<^sup>* db1 db2" "unsecured j'" "job_SignedAuthActorID j' = []" "job_SignedAuthCredentialID j' = []"
  shows "\<exists>stored. job_at db2 (job_ID j) = Some stored
    \<and> CreateJobWithItemsHashed j' items' key hash' db2
        = (if hash' \<noteq> [] \<and> hash' \<noteq> hash \<or> \<not> unsecured stored then Inl ErrIdempotencyConflict else Inr (stored, True), db2)
    \<and> CreateJobWithItems j' items' key db2 = (if unsecured stored then Inr (stored, True) else Inl ErrIdempotencyConflict, db2)
    \<and> CreateJob j' key db2 = (if unsecured stored then Inr (stored, True) else Inl ErrIdempotencyConflict, db2)"
proof -
  obtain rs where rs: "create_new_job j items key hash db = Inr (rs, (j, False))" "db1 = db_commit db rs" "db_lookup db ''idempotency'' key = None"
    "unsecured j" "job_SignedAuthActorID j = []" "job_SignedAuthCredentialID j = []"
    using created_body [OF assms(2,3)] by metis
  have r1: "reachable U C node db1" using assms(1) node_op.CreateJobWithItemsHashed [OF assms(2)] by (rule reachable.step)
  have t1: "typed_db db1" using r1 by (rule reachable_typed)
  obtain qs where mem: "put_job j \<in> set rs" "rs = qs @ [put_idempotency key (job_ID j) hash]"
    using create_new_job_records [OF rs(1) assms(3)] by blast
  have "keyed rs" using create_new_job_ok [OF rs(1,4-6)] rs(3) by (simp add: allowed_def)
  then have "job_at db1 (job_ID j) = Some j" using keyed_lookup [of rs "put_job j" db] mem(1) rs(2) by (simp add: val_at_lookup)
  then obtain stored where stored: "job_at db2 (job_ID j) = Some stored"
    using jobs.later [OF assms(4) r1] unfolding jobs_last_def by blast
  have "value_at db1 ''idempotency'' key = Some (VIdempotency \<lparr>idem_JobID = job_ID j, idem_RequestHash = hash\<rparr>)"
    by (simp add: value_at_def rs(2) mem(2) db_lookup_commit put_idempotency_def)
  then have "value_at db2 ''idempotency'' key = Some (VIdempotency \<lparr>idem_JobID = job_ID j, idem_RequestHash = hash\<rparr>)"
    using records.later [OF assms(4) r1] unfolding records_last_def lasting_bucket_def by blast
  then have "get_as un_idem db2 ''idempotency'' key = Inr \<lparr>idem_JobID = job_ID j, idem_RequestHash = hash\<rparr>"
    by (auto simp: value_at_def get_as_lookup split: bind_splits option.splits)
  moreover have "get_job db2 (job_ID j) = Inr stored" using stored by (simp add: val_at_Some_get)
  ultimately have "CreateJobWithItemsHashed j' its key h db2
      = (if h \<noteq> [] \<and> h \<noteq> hash \<or> \<not> unsecured stored then Inl ErrIdempotencyConflict else Inr (stored, True), db2)" for its h
    using assms(3,5-7) by (simp add: CreateJobWithItemsHashed_def db_update_def plain_def)
  then show ?thesis using stored by (simp add: CreateJob_def CreateJobWithItems_def)
qed

theorem idempotency_key_creates_once_witness:
  "CreateJob plain_job ''k2'' plain_db = (Inr (plain_job, True), plain_db)
   \<and> CreateJobWithItemsHashed plain_job [] ''k2'' ''other'' plain_db = (Inl ErrIdempotencyConflict, plain_db)"
proof -
  obtain stored where s: "job_at plain_db (job_ID plain_job) = Some stored"
    "CreateJobWithItemsHashed plain_job [] ''k2'' ''other'' plain_db
       = (if ''other'' \<noteq> [] \<and> ''other'' \<noteq> ''h'' \<or> \<not> unsecured stored then Inl ErrIdempotencyConflict else Inr (stored, True), plain_db)"
    "CreateJob plain_job ''k2'' plain_db = (if unsecured stored then Inr (stored, True) else Inl ErrIdempotencyConflict, plain_db)"
    using idempotency_key_creates_once [OF reachable.fresh plain_created _ rtranclp.rtrancl_refl plain_fields(3,5,6), of "[]" "''other''"]
    by blast
  moreover have "stored = plain_job" using s(1) plain_found plain_fields(1) by simp
  ultimately show ?thesis using plain_fields(3) by simp
qed

subsection \<open>The guard of a running job\<close>

text \<open>The guard over the ticks of a run, each with its time and the state it finds.\<close>

fun guard_run :: "unicode_tables \<Rightarrow> crypto \<Rightarrow> string \<Rightarrow> string \<Rightarrow> keyring \<Rightarrow> (gotime \<times> node_db) list \<Rightarrow> guard \<Rightarrow> err + guard" where
  "guard_run U C jobID node keys [] g = Inr g"
| "guard_run U C jobID node keys ((now, db) # ticks) g =
     (case guard_tick U C jobID node keys now db g of Inl e \<Rightarrow> Inl e | Inr g' \<Rightarrow> guard_run U C jobID node keys ticks g')"

lemma VerifyJobLease_same_claims:
  "VerifyJobLease U C token keys b node r now = Some (cl, flt) \<Longrightarrow> VerifyJobLease U C token keys b node r now' = Some (cl', flt') \<Longrightarrow> cl' = cl"
  by (auto simp: VerifyJobLease_def split: option.splits dest!: Verify_SomeD dest: verifySigned_same_claims)

definition guard_ok :: "unicode_tables \<Rightarrow> crypto \<Rightarrow> string \<Rightarrow> keyring \<Rightarrow> guard \<Rightarrow> bool" where
  "guard_ok U C node keys g \<longleftrightarrow> (\<exists>now cl flt. VerifyJobLease U C (auth_Envelope (g_current g)) keys (auth_Binding (g_current g)) node
     (auth_Revision (g_current g)) now = Some (cl, flt) \<and> c_Context cl = g_policy g)"

text \<open>What holds of the lease at a tick that lets the job go on.\<close>

definition tick_ok :: "unicode_tables \<Rightarrow> crypto \<Rightarrow> string \<Rightarrow> string \<Rightarrow> keyring \<Rightarrow> guard \<Rightarrow> gotime \<Rightarrow> node_db \<Rightarrow> bool" where
  "tick_ok U C jobID node keys g now db \<longleftrightarrow> (\<exists>a flt cl flt'. ValidateJobAuthorization U C jobID node keys now db = Inr (a, flt)
     \<and> auth_Binding a = auth_Binding (g_current g) \<and> auth_Revision (g_current g) \<le> auth_Revision a
     \<and> VerifyJobLease U C (auth_Envelope a) keys (auth_Binding a) node (auth_Revision a) now = Some (cl, flt') \<and> c_Context cl = g_policy g)"

lemma Validate_verified:
  assumes "ValidateJobAuthorization U C jobID node keys now db = Inr (a, flt)"
  shows "\<exists>cl. VerifyJobLease U C (auth_Envelope a) keys (auth_Binding a) node (auth_Revision a) now = Some (cl, flt)"
  using assms by (auto simp: ValidateJobAuthorization_def verifiedJobLease_def split: if_split_asm sum.splits option.splits)

lemma guard_tick_ok:
  assumes "guard_tick U C jobID node keys now db g = Inr g'" "guard_ok U C node keys g"
  shows "tick_ok U C jobID node keys g now db \<and> guard_ok U C node keys g' \<and> g_policy g' = g_policy g
    \<and> auth_Binding (g_current g') = auth_Binding (g_current g) \<and> auth_Revision (g_current g) \<le> auth_Revision (g_current g')"
proof -
  let ?c = "g_current g"
  obtain a flt where v: "ValidateJobAuthorization U C jobID node keys now db = Inr (a, flt)"
    and a: "\<not> auth_Revision a < auth_Revision ?c" "auth_Binding a = auth_Binding ?c"
      "auth_Revision a = auth_Revision ?c \<Longrightarrow> auth_Envelope a = auth_Envelope ?c"
    using assms(1) by (auto simp: guard_tick_def Let_def split: sum.splits if_split_asm)
  obtain cl where cl: "VerifyJobLease U C (auth_Envelope a) keys (auth_Binding a) node (auth_Revision a) now = Some (cl, flt)"
    using Validate_verified [OF v] by blast
  have "c_Context cl = g_policy g \<and> (g' = g \<or> g' = g\<lparr>g_current := a\<rparr>)"
  proof (cases "auth_Revision a = auth_Revision ?c")
    case True
    then have "g' = g" using assms(1) v a by (auto simp: guard_tick_def Let_def split: if_split_asm)
    moreover obtain n0 cl0 flt0 where g0: "VerifyJobLease U C (auth_Envelope ?c) keys (auth_Binding ?c) node (auth_Revision ?c) n0 = Some (cl0, flt0)"
      "c_Context cl0 = g_policy g"
      using assms(2) unfolding guard_ok_def by blast
    have "c_Context cl = g_policy g"
      using VerifyJobLease_same_claims [OF g0(1) cl [unfolded a(2) a(3) [OF True] True]] g0(2) by simp
    ultimately show ?thesis by blast
  next
    case False
    then show ?thesis using assms(1) v a cl by (auto simp: guard_tick_def Let_def split: if_split_asm)
  qed
  moreover from this have "guard_ok U C node keys g'"
    using assms(2) cl a(2) by (cases "g' = g") (auto simp: guard_ok_def intro: exI)
  moreover have "tick_ok U C jobID node keys g now db" if "c_Context cl = g_policy g"
    unfolding tick_ok_def using v a(1,2) cl that by (metis not_less)
  ultimately show ?thesis using a(1,2) by auto
qed

text \<open>
  C15: As long as the guard lets a job run on, its lease verifies at every tick, for the binding the job
  started with, at a revision that does not go back, and with the very policy text of the start.
\<close>

theorem guarded_job_keeps_policy:
  assumes "guard_start U C jobID node keys interval now db = Inr (g, flt)" "guard_run U C jobID node keys ticks g = Inr g'"
  shows "(\<forall>(t, d) \<in> set ticks. tick_ok U C jobID node keys g t d) \<and> g_policy g' = g_policy g
    \<and> auth_Binding (g_current g') = auth_Binding (g_current g) \<and> auth_Revision (g_current g) \<le> auth_Revision (g_current g')"
proof -
  have "guard_ok U C node keys g"
    using assms(1) by (auto simp: guard_start_def guard_ok_def split: if_split_asm sum.splits option.splits) (blast intro: exI)
  then show ?thesis using assms(2)
  proof (induction U C jobID node keys ticks g rule: guard_run.induct)
    case (2 U C jobID node keys t d ticks g)
    obtain g1 where g1: "guard_tick U C jobID node keys t d g = Inr g1" "guard_run U C jobID node keys ticks g1 = Inr g'"
      using "2.prems"(2) by (auto split: sum.splits)
    note ok = guard_tick_ok [OF g1(1) "2.prems"(1)]
    have "tick_ok U C jobID node keys g x y" if "tick_ok U C jobID node keys g1 x y" for x y
      using that ok unfolding tick_ok_def by (metis order_trans)
    then show ?case using "2.IH" [OF g1(1) _ g1(2)] ok by fastforce
  qed simp
qed

theorem guarded_job_keeps_policy_witness:
  "\<exists>g flt. guard_start ascii_tables sample_crypto ''job1'' ''n1'' sample_keys 1000 (of_Unix 1005) run_db4 = Inr (g, flt)
     \<and> tick_ok ascii_tables sample_crypto ''job1'' ''n1'' sample_keys g (of_Unix 1005) run_db4"
proof -
  obtain g flt where g: "guard_start ascii_tables sample_crypto ''job1'' ''n1'' sample_keys 1000 (of_Unix 1005) run_db4 = Inr (g, flt)"
    and t: "guard_tick ascii_tables sample_crypto ''job1'' ''n1'' sample_keys (of_Unix 1005) run_db4 g = Inr g"
    using run_guarded by blast
  then show ?thesis
    using guarded_job_keeps_policy [OF g, where ticks = "[(of_Unix 1005, run_db4)]" and g' = g] by auto
qed

subsection \<open>Upload sessions\<close>

lemma write_upload:
  assumes "write_ok U C node db rs r" "rec_Bucket r = ''uploads''" "\<not> rec_Delete r" "upload_at db (rec_Key r) = Some u"
  shows "\<exists>v. rec_Data r = Some (VUpload v) \<and> up_MountID v = up_MountID u \<and> up_Destination v = up_Destination u \<and> (same_authorization u v
    \<or> up_AuthorizationRevision u < up_AuthorizationRevision v \<and> up_AuthorizationRevision v = up_AuthorizationRevision u + 1
      \<and> (up_AuthorizationActorID u = [] \<or> up_AuthorizationActorID v = up_AuthorizationActorID u) \<and> up_AuthorizationActorID v \<noteq> [])"
  using assms by (cases rule: write_ok.cases) (auto simp: val_at_None_lookup revision_grows same_authorization_def)

text \<open>
  C36: An operation leaves the authorization of an upload session as it was, or raises its revision by
  one without wrap-around; the actor of a session, once set, never changes, and mount and destination
  stay.
\<close>

theorem upload_authorization_changes:
  assumes "reachable U C node db" "node_op U C node db db'" "upload_at db k = Some u" "upload_at db' k = Some v"
  shows "up_MountID v = up_MountID u \<and> up_Destination v = up_Destination u \<and> (same_authorization u v
    \<or> up_AuthorizationRevision u < up_AuthorizationRevision v \<and> up_AuthorizationRevision v = up_AuthorizationRevision u + 1
      \<and> (up_AuthorizationActorID u = [] \<or> up_AuthorizationActorID v = up_AuthorizationActorID u) \<and> up_AuthorizationActorID v \<noteq> [])"
  using node_op_step [OF assms(2) reachable_typed [OF assms(1)]]
proof cases
  case quiet
  then show ?thesis using assms(3,4) by (simp add: val_at_lookup quiet_lookup same_authorization_def)
next
  case (commit db1 rs)
  have v: "upload_at (db_commit db rs) k = Some v" using assms(4) by (simp add: commit(1) val_at_lookup quiet_commit [OF commit(2)])
  show ?thesis
  proof (cases rule: commit_lookup_cases [of db rs "''uploads''" k])
    case kept
    then show ?thesis using v assms(3) by (simp add: val_at_lookup same_authorization_def)
  next
    case (written l)
    then have "\<not> rec_Delete l" "rec_Data l = Some (VUpload v)"
      using v by (auto simp: val_at_lookup split: if_split_asm bind_splits)
    then show ?thesis using write_upload [of U C node db rs l u] commit(3) written assms(3) by (auto simp: writes_ok_def)
  qed
qed

theorem upload_authorization_changes_witness:
  "\<exists>u v. upload_at upload_db ''u1'' = Some u \<and> upload_at upload_db' ''u1'' = Some v \<and> up_MountID v = up_MountID u"
  using upload_authorization_changes [OF upload_steps upload_found] upload_found by blast

end
