(* ===== verification/Spec2Isabelle.thy ===== *)
theory Spec2Isabelle
  imports Access_Context Node_Props
begin

text \<open>
  A verification development for jolt, a platform for files that are spread over nodes. The control
  plane (\<open>src/control/\<close>) holds users, policies and keys. It decides who may do what, and signs
  short-lived authorizations. The nodes (\<open>src/node/backend/\<close>) hold the files. A node verifies an
  authorization, filters every entry it touches by the policy the authorization carries, and keeps its
  jobs, plans, leases, uploads, peers and configuration in a record store of its own.

  \<^bold>\<open>Representation.\<close> A Go string or byte slice is a list of bytes (\<open>string\<close>), a time is the number of
  nanoseconds since Go's zero time, a nil pointer is \<open>None\<close>, an error is the left and a value the right
  of a sum, a \<open>uint64\<close> revision is a \<open>64 word\<close>. The Unicode tables are a parameter \<open>U\<close>, Ed25519 and
  SHA-256 are the fields of a parameter \<open>C\<close>, and what is relied on of them is a hypothesis where it is
  used. A struct is a record whose fields carry a prefix and the name of the source.

  \<^bold>\<open>Theories\<close>, in the order of their dependencies:
  \<^item> \<open>Prelude\<close>, \<open>Go_Strings\<close>: generic lemmas, and the parts of \<open>strings\<close>, \<open>utf8\<close>, \<open>path\<close> and \<open>fmt\<close> in use.
  \<^item> \<open>Go_Json\<close>, \<open>Go_Json_Decode\<close>, \<open>Go_Json_Compact\<close>, \<open>Go_Base64\<close>: the encoder and the decoder of
    \<open>encoding/json\<close> with their round trip, \<open>RawMessage\<close>, and the unpadded URL alphabet of base64.
  \<^item> \<open>Filetypes\<close> (\<open>filetypes/selector.go\<close>, \<open>context.go\<close>, the same in both programs): selectors of file
    types, the compilation of a policy context, and the decision for an entry.
  \<^item> \<open>Context_Codec\<close> (\<open>filetypes/context.go\<close>): the strict decoding of a context; what is marshalled is decoded
    to the same filter.
  \<^item> \<open>Rbac\<close> (\<open>rbac/rbac.go\<close>, \<open>typed.go\<close>): the evaluation of path policies and of typed policies, the test
    for denials within a scope, compatibility rules; its properties relate it to the filter of the node.
  \<^item> \<open>Access_Context\<close> (\<open>control/internal/httpapi/access_context.go\<close>): the policy context that is built for a
    mount, and that a node given this context decides as the control plane does.
  \<^item> \<open>Entities\<close> (\<open>entities/entities.go\<close>, \<open>contracts/errors.go\<close>): the persisted structs and the errors.
  \<^item> \<open>Signedauth\<close>, \<open>Signedauth_Props\<close> (\<open>signedauth/signedauth.go\<close>, \<open>job_lease.go\<close>, \<open>job_options.go\<close>, the same in
    both programs): claims, signing, verification, the bindings of reads, uploads and job leases.
  \<^item> \<open>State_Db\<close> (\<open>infra/state/storage.go\<close>): records addressed by bucket and key, ordered selections, and
    transactions that are checked and applied as a whole.
  \<^item> \<open>Node_Values\<close>, \<open>Job_Store\<close>, \<open>Plan_Store\<close>, \<open>Upload_Store\<close>, \<open>Peer_Store\<close>, \<open>Config_Store\<close> (\<open>infra/state/jobs.go\<close>,
    \<open>destructive_plans.go\<close>, \<open>job_authorizations.go\<close>, \<open>job_authorization_guard.go\<close>, \<open>uploads.go\<close>, \<open>trash.go\<close>,
    \<open>tokens.go\<close>, \<open>managed_trust.go\<close>, \<open>peers.go\<close>, \<open>configuration.go\<close>): every operation of the node state, each
    a function from the records to a result and the records after it.
  \<^item> \<open>Node_Spec\<close>: the specification of the node state, that is which changes of which records one
    transaction may make, as the relation \<open>node_step\<close>. It says what is written, when, and what the records
    are checked against; the new value of a job is named by the function of the code that computes it.
  \<^item> \<open>Node_Laws\<close>, \<open>Node_Ops\<close>: reads and writes of typed records; every operation refines \<open>node_step\<close>. The
    relation \<open>node_op\<close> has one rule for each operation and one for a restart.
  \<^item> \<open>Node_Invariants\<close>: the locales \<open>node_invariant\<close> and \<open>node_history\<close> take an invariant, or a relation to
    later states, from the specification to every reachable state. They are interpreted for types, for
    the conditions on secured jobs, leases and plans, and for what lasts: jobs, leases, plans, idempotency
    records, tombstones and invites.
  \<^item> \<open>Node_Runs\<close>, \<open>Node_Props\<close>: runs of a node on concrete records, and the properties of the node state.

  \<^bold>\<open>What is shown.\<close>
  Access: what a policy decides, that it does not depend on the order of rules, that a denial below a
  scope is found, and that the control plane and the node agree.
  Authorizations: what is signed is accepted, only what was issued is accepted, for less than thirty
  seconds, for one operation and, as a lease, for one job and revision.
  Node state: the refinement of the specification; a secured job starts and runs only under a lease that
  matches it; a plan is used once; a revoked grant stays inactive; an idempotency key creates one
  job; the guard lets a job go on only under the policy it started with; a claim starts the first job
  that is due and may start, and parks the due secured jobs before it; the recovery leaves no job running.

  \<^bold>\<open>Findings.\<close> Each is a theorem. A denial below a directory whose name ends in a space is missed by
  \<open>DeniesWithin\<close>. The check for repeated JSON keys does not fold U+017F while the decoder does. A comment in
  \<open>rbac.go\<close> says that omitting a capability on a more specific path denies it; the evaluation denies nothing
  there, and only the capability deny does. The typed evaluators compare an approval mark with the
  capability as the request spells it, so that another spelling is allowed without approval.

  \<^bold>\<open>Bounds.\<close> All functions are total; there is no fuel. Sequence numbers of the store are natural numbers:
  the source uses \<open>uint64\<close>, which a node does not exhaust. Counters of revisions keep their width.

  \<^bold>\<open>Not modelled.\<close> Concurrency: an operation of the node state holds the store's lock from start to end, so
  operations are steps; of the goroutine of the lease guard each tick is a step. The YAML text of the
  records, the encryption, the files and the journal of the record store, and with them the refusals of a
  store that is closed, read-only, poisoned by a failed write, or whose files cannot be read or decoded.
  The part of a grant check that looks at the file system. The SQL store, the HTTP interfaces apart from
  the context of a mount, certificates, the workers that move bytes, and the web interface: they consist
  of calls to a database, to the network, to the file system and to libraries that are not part of the
  sources.
\<close>

end
